theory Spec2Isabelle
  imports Complex_Main "HOL-Library.Char_ord" "HOL-Library.List_Lexorder"
begin

section \<open>Python values and string helpers\<close>

text \<open>
  The values that travel through the scripts: a pandas cell read with \<open>dtype=str\<close> is a
  string or the float NaN, a missing key read with \<open>.get\<close> is \<open>None\<close>, and
  \<open>len(seq)\<close> is an integer. Strings are lists of characters with code points below 256.
\<close>

datatype pyval = PyNone | PyNaN | PyStr string | PyInt int

text \<open>\<open>str(val)\<close>, with the decimal digits of an integer written out.\<close>

fun digits :: "nat \<Rightarrow> string" where
  "digits n = (if n < 10 then [char_of (48 + n)] else digits (n div 10) @ [char_of (48 + n mod 10)])"

declare digits.simps [simp del]

definition str_int :: "int \<Rightarrow> string" where
  "str_int i = (if i < 0 then CHR ''-'' # digits (nat (- i)) else digits (nat i))"

fun py_str :: "pyval \<Rightarrow> string" where
  "py_str PyNone = ''None''"
| "py_str PyNaN = ''nan''"
| "py_str (PyStr s) = s"
| "py_str (PyInt i) = str_int i"

text \<open>\<open>str.isspace\<close> on one character, for the code points below 256.\<close>

definition py_isspace :: "char \<Rightarrow> bool" where
  "py_isspace c = ((of_char c :: nat) \<in> {9, 10, 11, 12, 13, 28, 29, 30, 31, 32, 133, 160})"

definition py_strip :: "string \<Rightarrow> string" where
  "py_strip s = rev (dropWhile py_isspace (rev (dropWhile py_isspace s)))"

text \<open>\<open>s.split(sep)\<close> for a one-character separator: the empty string gives \<open>['']\<close>.\<close>

fun py_split :: "char \<Rightarrow> string \<Rightarrow> string list" where
  "py_split sep [] = [[]]"
| "py_split sep (c # cs) =
     (if c = sep then [] # py_split sep cs
      else (case py_split sep cs of
              [] \<Rightarrow> [[c]]
            | t # ts \<Rightarrow> (c # t) # ts))"

section \<open>Loading the document store (load\_mongo.py)\<close>

definition split_semicolon_field :: "pyval \<Rightarrow> string list" where
  "split_semicolon_field val =
     (case val of
        PyNone \<Rightarrow> []
      | PyNaN \<Rightarrow> []
      | _ \<Rightarrow> map py_strip (filter (\<lambda>x. py_strip x \<noteq> []) (py_split CHR '';'' (py_str val))))"

type_synonym row = "string \<rightharpoonup> pyval"

definition row_get :: "row \<Rightarrow> string \<Rightarrow> pyval \<Rightarrow> pyval" where
  "row_get r k d = (case r k of None \<Rightarrow> d | Some v \<Rightarrow> v)"

record sequence =
  seq_length :: pyval
  aa :: string

record doc =
  doc_id :: string
  doc_uniprot_id :: string
  doc_entry_name :: pyval
  doc_organism :: string
  doc_protein_names :: "string list"
  doc_sequence :: sequence
  doc_interpro_ids :: "string list"
  doc_ec_numbers :: "string list"
  doc_is_labelled :: bool
  doc_last_updated :: nat

text \<open>
  The body of the loop of \<open>process_and_insert_chunk\<close> for one row: a row whose \<open>Entry\<close>
  is not a string is skipped. \<open>now\<close> stands for \<open>datetime.now()\<close>.
\<close>

definition make_doc :: "string \<Rightarrow> nat \<Rightarrow> row \<Rightarrow> doc option" where
  "make_doc organism_default now r =
     (case row_get r ''Entry'' PyNone of
        PyStr entry \<Rightarrow>
          (let seq = py_str (row_get r ''Sequence'' (PyStr ''''));
               final_organism = (case row_get r ''Organism'' PyNone of
                                   PyStr org \<Rightarrow> org
                                 | _ \<Rightarrow> organism_default);
               ec_numbers = split_semicolon_field (row_get r ''EC number'' (PyStr ''''))
           in Some \<lparr> doc_id = entry,
                     doc_uniprot_id = entry,
                     doc_entry_name = row_get r ''Entry Name'' PyNone,
                     doc_organism = final_organism,
                     doc_protein_names = split_semicolon_field (row_get r ''Protein names'' PyNone),
                     doc_sequence = \<lparr> seq_length = (if ''Length'' \<in> dom r
                                                       then row_get r ''Length'' PyNone
                                                       else PyInt (int (length seq))),
                                       aa = seq \<rparr>,
                     doc_interpro_ids = split_semicolon_field (row_get r ''InterPro'' PyNone),
                     doc_ec_numbers = ec_numbers,
                     doc_is_labelled = (length ec_numbers > 0),
                     doc_last_updated = now \<rparr>)
      | _ \<Rightarrow> None)"

text \<open>
  \<open>insert_many(docs, ordered=False)\<close> on a collection keyed by \<open>_id\<close>: a document whose
  key is already present is rejected and the others are inserted. The count returned is
  the number inserted (\<open>len(docs)\<close> without a rejection, \<open>nInserted\<close> otherwise).
\<close>

fun insert_many :: "doc list \<Rightarrow> doc list \<Rightarrow> doc list \<times> nat" where
  "insert_many col [] = (col, 0)"
| "insert_many col (d # ds) =
     (if doc_id d \<in> doc_id ` set col then insert_many col ds
      else (let (col', n) = insert_many (col @ [d]) ds in (col', Suc n)))"

definition process_and_insert_chunk :: "row list \<Rightarrow> doc list \<Rightarrow> string \<Rightarrow> nat \<Rightarrow> doc list \<times> nat" where
  "process_and_insert_chunk chunk col organism_default now =
     (let docs = List.map_filter (make_doc organism_default now) chunk
      in if docs \<noteq> [] then insert_many col docs else (col, 0))"

section \<open>The property graph (Neo4j)\<close>

text \<open>
  A \<open>Protein\<close> node with the properties the scripts write and read. A property that is
  absent from the node is \<open>PyNone\<close> (or \<open>None\<close>): the store does not keep nulls.
\<close>

record protein =
  uniprot_id :: string
  entry_name :: pyval
  organism :: string
  length_attr :: pyval
  ec_numbers :: "string list"
  is_labelled :: bool
  protein_names :: "string list option"
  domain_count :: "int option"

record domain =
  interpro_id :: string
  domain_name :: "string option"

text \<open>
  A relationship, as the store keeps it and as the map projection
  \<open>r {.*, source: ..., target: ..., type: type(r)}\<close> returns it. The end points are the
  keys of the nodes (\<open>uniprot_id\<close>, and \<open>interpro_id\<close> for the target of \<open>HAS_DOMAIN\<close>).
\<close>

record relationship =
  source :: string
  target :: string
  rel_type :: string
  jaccard_weight :: "real option"
  shared_domains :: "int option"
  union_domains :: "int option"

text \<open>The in-memory graph of \<open>gds.graph.project\<close>: both node labels and \<open>HAS_DOMAIN\<close>.\<close>

record projection =
  proj_proteins :: "string list"
  proj_domains :: "string list"
  proj_has_domain :: "(string \<times> string) list"

text \<open>The statements sent to the store, in the order they are run.\<close>

datatype statement =
    CreateConstraint string string
  | CreateIndex string string
  | ImportBatch nat
  | DeleteRelationships string
  | GraphDropIfExists string
  | GraphProject string
  | NodeSimilarityWrite string
  | GraphDrop string
  | SetDomainCount
  | SetSharedUnionDomains

record graph_store =
  reachable :: bool
  protein_nodes :: "protein list"
  domain_nodes :: "domain list"
  rels :: "relationship list"
  gds_catalog :: "projection option"
  journal :: "statement list"

datatype error =
    ServiceUnavailable
  | GraphAlreadyExists
  | GraphNotFound
  | ProjectionFailed

text \<open>\<open>session.run\<close>: the statement is recorded, or the driver raises.\<close>

definition session_run :: "statement \<Rightarrow> graph_store \<Rightarrow> error + graph_store" where
  "session_run q st =
     (if reachable st then Inr (st\<lparr>journal := journal st @ [q]\<rparr>) else Inl ServiceUnavailable)"

definition bind :: "error + 'a \<Rightarrow> ('a \<Rightarrow> error + 'b) \<Rightarrow> error + 'b" where
  "bind m f = (case m of Inl e \<Rightarrow> Inl e | Inr x \<Rightarrow> f x)"

section \<open>Building the graph (build\_graph.py)\<close>

definition MIN_JACCARD_WEIGHT :: real where
  "MIN_JACCARD_WEIGHT = 0.1"

definition GRAPH_NAME :: string where
  "GRAPH_NAME = ''protein_domain_graph''"

definition RELATIONSHIP_TYPE :: string where
  "RELATIONSHIP_TYPE = ''SIMILAR''"

definition IMPORT_BATCH_SIZE :: nat where
  "IMPORT_BATCH_SIZE = 2500"

subsection \<open>Import of proteins and domains\<close>

record import_row =
  row_uniprot_id :: string
  row_entry_name :: pyval
  row_organism :: string
  row_length :: pyval
  row_ec_numbers :: "string list"
  row_is_labelled :: bool
  row_interpro_ids :: "string list"

text \<open>\<open>doc.get("uniprot_id") or doc.get("_id")\<close>, and the row built from the document.\<close>

definition doc_key :: "doc \<Rightarrow> string" where
  "doc_key d = (if doc_uniprot_id d \<noteq> [] then doc_uniprot_id d else doc_id d)"

definition doc_row :: "doc \<Rightarrow> import_row" where
  "doc_row d =
     \<lparr> row_uniprot_id = doc_key d,
       row_entry_name = doc_entry_name d,
       row_organism = doc_organism d,
       row_length = seq_length (doc_sequence d),
       row_ec_numbers = doc_ec_numbers d,
       row_is_labelled = doc_is_labelled d,
       row_interpro_ids = doc_interpro_ids d \<rparr>"

text \<open>\<open>MERGE (p:Protein {uniprot_id: ...}) SET ...\<close>: create the node or overwrite the five
  properties of the one that exists.\<close>

definition set_protein :: "import_row \<Rightarrow> protein \<Rightarrow> protein" where
  "set_protein r p =
     p\<lparr> entry_name := row_entry_name r,
        organism := row_organism r,
        length_attr := row_length r,
        ec_numbers := row_ec_numbers r,
        is_labelled := row_is_labelled r \<rparr>"

definition new_protein :: "string \<Rightarrow> protein" where
  "new_protein k =
     \<lparr> uniprot_id = k, entry_name = PyNone, organism = [], length_attr = PyNone,
       ec_numbers = [], is_labelled = False, protein_names = None, domain_count = None \<rparr>"

definition merge_protein :: "import_row \<Rightarrow> protein list \<Rightarrow> protein list" where
  "merge_protein r ps =
     (if row_uniprot_id r \<in> uniprot_id ` set ps
      then map (\<lambda>p. if uniprot_id p = row_uniprot_id r then set_protein r p else p) ps
      else ps @ [set_protein r (new_protein (row_uniprot_id r))])"

definition merge_domain :: "string \<Rightarrow> domain list \<Rightarrow> domain list" where
  "merge_domain k ds =
     (if k \<in> interpro_id ` set ds then ds
      else ds @ [\<lparr> interpro_id = k, domain_name = None \<rparr>])"

definition has_domain_rel :: "string \<Rightarrow> string \<Rightarrow> relationship" where
  "has_domain_rel p d =
     \<lparr> source = p, target = d, rel_type = ''HAS_DOMAIN'', jaccard_weight = None,
       shared_domains = None, union_domains = None \<rparr>"

definition merge_has_domain :: "string \<Rightarrow> string \<Rightarrow> relationship list \<Rightarrow> relationship list" where
  "merge_has_domain p d rs =
     (if (\<exists>r \<in> set rs. rel_type r = ''HAS_DOMAIN'' \<and> source r = p \<and> target r = d) then rs
      else rs @ [has_domain_rel p d])"

definition import_interpro :: "string \<Rightarrow> string \<Rightarrow> graph_store \<Rightarrow> graph_store" where
  "import_interpro p d st =
     st\<lparr> domain_nodes := merge_domain d (domain_nodes st),
         rels := merge_has_domain p d (rels st) \<rparr>"

definition import_one :: "import_row \<Rightarrow> graph_store \<Rightarrow> graph_store" where
  "import_one r st =
     fold (import_interpro (row_uniprot_id r)) (row_interpro_ids r)
       (st\<lparr> protein_nodes := merge_protein r (protein_nodes st) \<rparr>)"

definition import_batch :: "graph_store \<Rightarrow> import_row list \<Rightarrow> error + graph_store" where
  "import_batch st proteins_batch =
     bind (session_run (ImportBatch (length proteins_batch)) st)
       (\<lambda>st. Inr (fold import_one proteins_batch st))"

text \<open>The loop over the cursor, with the batch being filled as its second argument.\<close>

fun import_loop :: "doc list \<Rightarrow> import_row list \<Rightarrow> graph_store \<Rightarrow> error + graph_store" where
  "import_loop [] batch st = (if batch \<noteq> [] then import_batch st batch else Inr st)"
| "import_loop (d # ds) batch st =
     (if doc_key d = [] then import_loop ds batch st
      else (let batch = batch @ [doc_row d]
            in if length batch \<ge> IMPORT_BATCH_SIZE
               then bind (import_batch st batch) (import_loop ds [])
               else import_loop ds batch st))"

definition import_proteins_and_domains :: "doc list \<Rightarrow> graph_store \<Rightarrow> error + graph_store" where
  "import_proteins_and_domains col st =
     bind (session_run (CreateConstraint ''Protein'' ''uniprot_id'') st) (\<lambda>st.
     bind (session_run (CreateConstraint ''Domain'' ''interpro_id'') st) (\<lambda>st.
     bind (session_run (CreateIndex ''Protein'' ''organism'') st) (\<lambda>st.
     import_loop col [] st)))"

subsection \<open>The similarity edges\<close>

text \<open>Step 1: delete every relationship of the type, and a projection left in memory.\<close>

definition clean_previous_data :: "graph_store \<Rightarrow> error + graph_store" where
  "clean_previous_data st =
     bind (session_run (DeleteRelationships RELATIONSHIP_TYPE) st) (\<lambda>st.
     bind (Inr (st\<lparr> rels := filter (\<lambda>r. rel_type r \<noteq> RELATIONSHIP_TYPE) (rels st) \<rparr>)) (\<lambda>st.
     bind (session_run (GraphDropIfExists GRAPH_NAME) st) (\<lambda>st.
     Inr (st\<lparr> gds_catalog := None \<rparr>))))"

text \<open>Step 2: the projection of the \<open>Protein\<close> and \<open>Domain\<close> nodes and of \<open>HAS_DOMAIN\<close>.
  The procedure fails on a name in use; a result with no row raises in the script.\<close>

definition project :: "graph_store \<Rightarrow> projection" where
  "project st =
     \<lparr> proj_proteins = map uniprot_id (protein_nodes st),
       proj_domains = map interpro_id (domain_nodes st),
       proj_has_domain = map (\<lambda>r. (source r, target r))
                           (filter (\<lambda>r. rel_type r = ''HAS_DOMAIN'') (rels st)) \<rparr>"

definition gds_graph_project :: "graph_store \<Rightarrow> error + graph_store \<times> projection option" where
  "gds_graph_project st =
     bind (session_run (GraphProject GRAPH_NAME) st) (\<lambda>st.
       (case gds_catalog st of
          Some g \<Rightarrow> Inl GraphAlreadyExists
        | None \<Rightarrow> Inr (st\<lparr> gds_catalog := Some (project st) \<rparr>, Some (project st))))"

definition project_graph :: "graph_store \<Rightarrow> error + graph_store" where
  "project_graph st =
     bind (gds_graph_project st) (\<lambda>(st, summary).
       (case summary of Some g \<Rightarrow> Inr st | None \<Rightarrow> Inl ProjectionFailed))"

text \<open>Step 3: the call of \<open>gds.nodeSimilarity.write\<close>. The configuration map is the one of
  the script; the procedure itself belongs to the graph library and is the parameter
  \<open>gds\<close>: from the projection and the configuration it gives the relationships it writes.\<close>

datatype setting = Text string | Number real | Count nat

type_synonym configuration = "(string \<times> setting) list"

type_synonym node_similarity = "projection \<Rightarrow> configuration \<Rightarrow> relationship list"

definition node_similarity_config :: "real \<Rightarrow> configuration" where
  "node_similarity_config threshold =
     [ (''similarityMetric'', Text ''JACCARD''),
       (''writeRelationshipType'', Text RELATIONSHIP_TYPE),
       (''writeProperty'', Text ''jaccard_weight''),
       (''similarityCutoff'', Number threshold),
       (''concurrency'', Count 4) ]"

definition run_gds_similarity :: "node_similarity \<Rightarrow> graph_store \<Rightarrow> real \<Rightarrow> error + graph_store" where
  "run_gds_similarity gds st threshold =
     bind (session_run (NodeSimilarityWrite GRAPH_NAME) st) (\<lambda>st.
       (case gds_catalog st of
          None \<Rightarrow> Inl GraphNotFound
        | Some g \<Rightarrow> Inr (st\<lparr> rels := rels st @ gds g (node_similarity_config threshold) \<rparr>)))"

text \<open>Step 4: drop the projection.\<close>

definition drop_graph_projection :: "graph_store \<Rightarrow> error + graph_store" where
  "drop_graph_projection st =
     bind (session_run (GraphDrop GRAPH_NAME) st) (\<lambda>st.
       (case gds_catalog st of
          None \<Rightarrow> Inl GraphNotFound
        | Some g \<Rightarrow> Inr (st\<lparr> gds_catalog := None \<rparr>)))"

text \<open>Step 5: \<open>SET p.domain_count = COUNT { (p)-[:HAS_DOMAIN]->() }\<close> on every protein.\<close>

definition count_has_domain :: "relationship list \<Rightarrow> string \<Rightarrow> int" where
  "count_has_domain rs p =
     int (length (filter (\<lambda>r. rel_type r = ''HAS_DOMAIN'' \<and> source r = p) rs))"

definition precalculate_domain_counts :: "graph_store \<Rightarrow> error + graph_store" where
  "precalculate_domain_counts st =
     bind (session_run SetDomainCount st) (\<lambda>st.
       Inr (st\<lparr> protein_nodes :=
                  map (\<lambda>p. p\<lparr> domain_count := Some (count_has_domain (rels st) (uniprot_id p)) \<rparr>)
                      (protein_nodes st) \<rparr>))"

text \<open>Step 6: \<open>toInteger(round((J * (A + B)) / (1.0 + J)))\<close> and \<open>(A + B) - intersect\<close>.
  \<open>round\<close> sends a tie towards positive infinity, as the store's \<open>round()\<close> does. A null
  among \<open>J\<close>, \<open>A\<close>, \<open>B\<close> makes both results null. The weights are read as exact reals.\<close>

definition intersect_math :: "real \<Rightarrow> int \<Rightarrow> int \<Rightarrow> int" where
  "intersect_math J A B = round ((J * of_int (A + B)) / (1.0 + J))"

definition union_math :: "real \<Rightarrow> int \<Rightarrow> int \<Rightarrow> int" where
  "union_math J A B = (A + B) - intersect_math J A B"

definition domain_count_of :: "graph_store \<Rightarrow> string \<Rightarrow> int option" where
  "domain_count_of st k =
     (case find (\<lambda>p. uniprot_id p = k) (protein_nodes st) of
        None \<Rightarrow> None
      | Some p \<Rightarrow> domain_count p)"

definition set_shared_union :: "graph_store \<Rightarrow> relationship \<Rightarrow> relationship" where
  "set_shared_union st r =
     (if rel_type r = RELATIONSHIP_TYPE
         \<and> source r \<in> uniprot_id ` set (protein_nodes st)
         \<and> target r \<in> uniprot_id ` set (protein_nodes st)
      then (case (domain_count_of st (source r), domain_count_of st (target r), jaccard_weight r) of
              (Some A, Some B, Some J) \<Rightarrow>
                r\<lparr> shared_domains := Some (intersect_math J A B),
                   union_domains := Some (union_math J A B) \<rparr>
            | _ \<Rightarrow> r\<lparr> shared_domains := None, union_domains := None \<rparr>)
      else r)"

definition calculate_shared_union_domains_math :: "graph_store \<Rightarrow> error + graph_store" where
  "calculate_shared_union_domains_math st =
     bind (session_run SetSharedUnionDomains st) (\<lambda>st.
       Inr (st\<lparr> rels := map (set_shared_union st) (rels st) \<rparr>))"

definition build_similarity_edges_gds_math :: "node_similarity \<Rightarrow> graph_store \<Rightarrow> error + graph_store" where
  "build_similarity_edges_gds_math gds st =
     bind (clean_previous_data st) (\<lambda>st.
     bind (project_graph st) (\<lambda>st.
     bind (run_gds_similarity gds st MIN_JACCARD_WEIGHT) (\<lambda>st.
     bind (drop_graph_projection st) (\<lambda>st.
     bind (precalculate_domain_counts st) (\<lambda>st.
     calculate_shared_union_domains_math st)))))"

text \<open>The main program: the import, then the similarity edges.\<close>

definition main :: "node_similarity \<Rightarrow> doc list \<Rightarrow> graph_store \<Rightarrow> error + graph_store" where
  "main gds col st =
     bind (import_proteins_and_domains col st) (build_similarity_edges_gds_math gds)"

section \<open>Querying the graph (neo4j\_queries.py)\<close>

subsection \<open>The neighbourhood of a protein\<close>

record neighborhood =
  center_protein :: protein
  neighbors :: "protein list"
  relationships :: "relationship list"
  domains :: "domain list"
  depth :: int

definition find_protein :: "graph_store \<Rightarrow> string \<Rightarrow> protein option" where
  "find_protein st k = find (\<lambda>p. uniprot_id p = k) (protein_nodes st)"

definition find_domain :: "graph_store \<Rightarrow> string \<Rightarrow> domain option" where
  "find_domain st k = find (\<lambda>d. interpro_id d = k) (domain_nodes st)"

definition other_end :: "string \<Rightarrow> relationship \<Rightarrow> string" where
  "other_end k r = (if source r = k then target r else source r)"

text \<open>
  The matches of \<open>(p)-[r:SIMILAR]-(neighbor:Protein)\<close> for the node with key \<open>k\<close>: the
  relationships of the store, each with its position as its identity, in the order of
  the store (the query language fixes no order).
\<close>

definition similar_of :: "graph_store \<Rightarrow> string \<Rightarrow> (nat \<times> relationship) list" where
  "similar_of st k =
     filter (\<lambda>(i, r). rel_type r = ''SIMILAR''
                      \<and> (source r = k \<or> target r = k)
                      \<and> find_protein st (other_end k r) \<noteq> None)
            (zip [0 ..< length (rels st)] (rels st))"

text \<open>The matches of \<open>(p)-[r_dom:HAS_DOMAIN]->(d:Domain)\<close>, as the domains reached.\<close>

definition domains_of :: "graph_store \<Rightarrow> string \<Rightarrow> domain list" where
  "domains_of st k =
     List.map_filter (\<lambda>r. find_domain st (target r))
       (filter (\<lambda>r. rel_type r = ''HAS_DOMAIN'' \<and> source r = k) (rels st))"

text \<open>The paths \<open>(p)-[:SIMILAR*1..2]-(neighbor:Protein)\<close>, as (nodes, relationships): no
  relationship is walked twice in one path.\<close>

definition paths_from :: "graph_store \<Rightarrow> string \<Rightarrow> (string list \<times> (nat \<times> relationship) list) list" where
  "paths_from st k =
     concat (map (\<lambda>(i1, r1).
        (let n1 = other_end k r1
         in ([k, n1], [(i1, r1)]) #
            map (\<lambda>(i2, r2). ([k, n1, other_end n1 r2], [(i1, r1), (i2, r2)]))
                (filter (\<lambda>(i2, r2). i2 \<noteq> i1) (similar_of st n1))))
        (similar_of st k))"

definition query_depth1 :: "graph_store \<Rightarrow> protein \<Rightarrow> protein list \<times> relationship list \<times> domain list \<times> relationship list" where
  "query_depth1 st p =
     (let k = uniprot_id p;
          ds = remdups (domains_of st k)
      in (remdups (List.map_filter (\<lambda>(i, r). find_protein st (other_end k r)) (similar_of st k)),
          remdups (map snd (similar_of st k)),
          ds,
          remdups (map (\<lambda>d. has_domain_rel k (interpro_id d)) (domains_of st k))))"

definition query_depth2 :: "graph_store \<Rightarrow> protein \<Rightarrow> protein list \<times> relationship list \<times> domain list \<times> relationship list" where
  "query_depth2 st p =
     (let k = uniprot_id p;
          paths = paths_from st k;
          all_nodes = List.map_filter (find_protein st) (remdups (concat (map fst paths)));
          all_rels = remdups (concat (map snd paths))
      in (filter (\<lambda>n. uniprot_id n \<noteq> k) all_nodes,
          map snd all_rels,
          remdups (domains_of st k),
          remdups (map (\<lambda>d. has_domain_rel k (interpro_id d)) (domains_of st k))))"

text \<open>\<open>get_protein_neighborhood\<close>: \<open>None\<close> is the empty dictionary \<open>{}\<close>, returned when the
  protein is not found and when the session raises.\<close>

definition get_protein_neighborhood :: "graph_store \<Rightarrow> string \<Rightarrow> int \<Rightarrow> neighborhood option" where
  "get_protein_neighborhood st protein_id d =
     (if \<not> reachable st then None
      else (case find_protein st protein_id of
              None \<Rightarrow> None
            | Some p \<Rightarrow>
                (let (ns, rs, ds, domain_rels) =
                       (if d = 1 then query_depth1 st p else query_depth2 st p)
                 in Some \<lparr> center_protein = p,
                           neighbors = ns,
                           relationships = rs @ domain_rels,
                           domains = ds,
                           depth = d \<rparr>)))"

subsection \<open>The export for the visualisation\<close>

record node_data =
  node_id :: string
  node_label :: string
  node_full_name :: string
  node_type :: string
  node_length :: "pyval option"

record edge_data =
  edge_id :: string
  edge_source :: string
  edge_target :: string
  edge_type :: string
  edge_weight :: "real option"

datatype element = Nodes node_data | Edges edge_data

text \<open>
  A weight is a Python float, an IEEE 754 double; it is modelled by a real number, read
  as the double nearest to it (\<open>to_double\<close>: 53 significant bits, a tie to the even
  significand, the smallest exponent -1074; a real that is the value of a double is
  read as itself). Doubles beyond the finite range are not modelled: a weight lies
  between 0 and 1.
\<close>

fun bit_length :: "nat \<Rightarrow> nat" where
  "bit_length n = (if n = 0 then 0 else Suc (bit_length (n div 2)))"

declare bit_length.simps [simp del]

definition floor_log2 :: "real \<Rightarrow> int" where
  "floor_log2 x =
     (if 1 \<le> x then int (bit_length (nat \<lfloor>x\<rfloor>)) - 1
      else - int (bit_length (nat (\<lceil>1 / x\<rceil> - 1))))"

definition pow2 :: "int \<Rightarrow> real" where
  "pow2 e = (if 0 \<le> e then 2 ^ nat e else 1 / 2 ^ nat (- e))"

definition round_half_even :: "real \<Rightarrow> int" where
  "round_half_even y =
     (let f = \<lfloor>y\<rfloor>; d = y - of_int f
      in if d < 1 / 2 then f else if 1 / 2 < d then f + 1
         else if even f then f else f + 1)"

definition to_double :: "real \<Rightarrow> real" where
  "to_double x =
     (if x = 0 then 0
      else (let e = max (floor_log2 \<bar>x\<bar> - 52) (- 1074)
            in of_int (round_half_even (x / pow2 e)) * pow2 e))"

text \<open>
  Python's \<open>round(x, 2)\<close> on a float: the exact value of the double is rounded to the
  nearest decimal with two places, a tie (which only a value such as 0.125 can give) to
  the even neighbour; so \<open>round(0.175, 2)\<close> is 0.17, the double of 0.175 lying below
  0.175. The result is that decimal; Python returns the double nearest to it, which it
  prints as the same decimal.
\<close>

definition py_round2 :: "real \<Rightarrow> real" where
  "py_round2 x = of_int (round_half_even (to_double x * 100)) / 100"

text \<open>Step 1: the direct neighbours.\<close>

definition tier1_step :: "string \<Rightarrow> relationship \<Rightarrow> string set \<Rightarrow> string set" where
  "tier1_step center_id rel tier1_ids =
     (if rel_type rel = ''SIMILAR'' then
        (if source rel = center_id then insert (target rel) tier1_ids
         else if target rel = center_id then insert (source rel) tier1_ids
         else tier1_ids)
      else tier1_ids)"

definition tier1_of :: "string \<Rightarrow> relationship list \<Rightarrow> string set" where
  "tier1_of center_id rs = fold (tier1_step center_id) rs {}"

text \<open>Step 2: the nodes.\<close>

definition full_name_of :: "string list option \<Rightarrow> string" where
  "full_name_of names = (case names of Some (n # ns) \<Rightarrow> n | _ \<Rightarrow> ''N/A'')"

definition length_of :: "pyval \<Rightarrow> pyval" where
  "length_of l = (case l of PyNone \<Rightarrow> PyInt 0 | _ \<Rightarrow> l)"

definition center_node :: "protein \<Rightarrow> element" where
  "center_node p =
     Nodes \<lparr> node_id = uniprot_id p, node_label = uniprot_id p,
             node_full_name = full_name_of (protein_names p), node_type = ''center'',
             node_length = Some (length_of (length_attr p)) \<rparr>"

definition neighbor_node :: "string set \<Rightarrow> protein \<Rightarrow> element" where
  "neighbor_node tier1_ids n =
     Nodes \<lparr> node_id = uniprot_id n, node_label = uniprot_id n,
             node_full_name = full_name_of (protein_names n),
             node_type = (if uniprot_id n \<in> tier1_ids then ''neighbor_d1'' else ''neighbor_d2''),
             node_length = Some (length_of (length_attr n)) \<rparr>"

fun neighbor_nodes :: "string set \<Rightarrow> protein list \<Rightarrow> string set \<Rightarrow> element list" where
  "neighbor_nodes tier1_ids [] existing_nodes = []"
| "neighbor_nodes tier1_ids (n # ns) existing_nodes =
     (if uniprot_id n \<notin> existing_nodes
      then neighbor_node tier1_ids n # neighbor_nodes tier1_ids ns (insert (uniprot_id n) existing_nodes)
      else neighbor_nodes tier1_ids ns existing_nodes)"

definition domain_node :: "domain \<Rightarrow> element" where
  "domain_node d =
     Nodes \<lparr> node_id = ''dom_'' @ interpro_id d, node_label = interpro_id d,
             node_full_name = (case domain_name d of None \<Rightarrow> interpro_id d | Some n \<Rightarrow> n),
             node_type = ''domain'', node_length = None \<rparr>"

text \<open>Step 3: the edges kept. \<open>best_d2_links\<close> is the dictionary from the second-tier node
  to the weight and the relationship kept for it, in the order of first insertion.\<close>

type_synonym best_links = "(string \<times> real \<times> relationship) list"

definition weight_of :: "relationship \<Rightarrow> real" where
  "weight_of rel = (case jaccard_weight rel of None \<Rightarrow> 0 | Some w \<Rightarrow> w)"

definition d2_node_id :: "string \<Rightarrow> string set \<Rightarrow> relationship \<Rightarrow> string option" where
  "d2_node_id center_id tier1_ids rel =
     (if source rel \<notin> tier1_ids \<and> source rel \<noteq> center_id then Some (source rel)
      else if target rel \<notin> tier1_ids \<and> target rel \<noteq> center_id then Some (target rel)
      else None)"

fun update_best :: "string \<Rightarrow> real \<Rightarrow> relationship \<Rightarrow> best_links \<Rightarrow> best_links" where
  "update_best k w rel [] = [(k, w, rel)]"
| "update_best k w rel ((k', w', rel') # best) =
     (if k = k' then (if w > w' then (k, w, rel) # best else (k', w', rel') # best)
      else (k', w', rel') # update_best k w rel best)"

definition edge_step :: "string \<Rightarrow> string set \<Rightarrow> relationship \<Rightarrow> relationship list \<times> best_links \<Rightarrow> relationship list \<times> best_links" where
  "edge_step center_id tier1_ids rel acc =
     (case acc of (final_edges, best_d2_links) \<Rightarrow>
        if rel_type rel = ''HAS_DOMAIN'' then (final_edges @ [rel], best_d2_links)
        else if rel_type rel = ''SIMILAR'' then
          (if source rel = center_id \<or> target rel = center_id
           then (final_edges @ [rel], best_d2_links)
           else if source rel \<in> tier1_ids \<and> target rel \<in> tier1_ids
           then (final_edges, best_d2_links)
           else (case d2_node_id center_id tier1_ids rel of
                   None \<Rightarrow> (final_edges, best_d2_links)
                 | Some d2 \<Rightarrow>
                     if d2 = [] then (final_edges, best_d2_links)
                     else (final_edges, update_best d2 (weight_of rel) rel best_d2_links)))
        else (final_edges, best_d2_links))"

definition final_edges_of :: "string \<Rightarrow> string set \<Rightarrow> relationship list \<Rightarrow> relationship list" where
  "final_edges_of center_id tier1_ids rs =
     (case fold (edge_step center_id tier1_ids) rs ([], []) of
        (final_edges, best_d2_links) \<Rightarrow> final_edges @ map (\<lambda>(k, w, rel). rel) best_d2_links)"

text \<open>Step 4: the elements of the edges. \<open>edge_key\<close> is the string of the sorted pair.\<close>

definition edge_key :: "relationship \<Rightarrow> string" where
  "edge_key rel =
     (if source rel \<le> target rel then source rel @ ''-'' @ target rel
      else target rel @ ''-'' @ source rel)"

definition orient :: "string \<Rightarrow> string set \<Rightarrow> relationship \<Rightarrow> string \<times> string" where
  "orient center_id tier1_ids rel =
     (if target rel = center_id then (center_id, source rel)
      else if source rel = center_id then (center_id, target rel)
      else if source rel \<in> tier1_ids then (source rel, target rel)
      else if target rel \<in> tier1_ids then (target rel, source rel)
      else (source rel, target rel))"

definition edge_element :: "nat \<Rightarrow> string \<times> string \<Rightarrow> relationship \<Rightarrow> element" where
  "edge_element i viz rel =
     Edges \<lparr> edge_id = ''e_'' @ digits i, edge_source = fst viz, edge_target = snd viz,
             edge_type = rel_type rel,
             edge_weight = map_option py_round2 (jaccard_weight rel) \<rparr>"

fun edge_elements :: "string \<Rightarrow> string set \<Rightarrow> nat \<Rightarrow> relationship list \<Rightarrow> string set \<Rightarrow> element list" where
  "edge_elements center_id tier1_ids i [] added_edges_keys = []"
| "edge_elements center_id tier1_ids i (rel # final_edges) added_edges_keys =
     (if rel_type rel = ''HAS_DOMAIN'' then
        edge_element i (source rel, ''dom_'' @ target rel) rel
          # edge_elements center_id tier1_ids (Suc i) final_edges added_edges_keys
      else if rel_type rel = ''SIMILAR'' then
        (if edge_key rel \<in> added_edges_keys
         then edge_elements center_id tier1_ids (Suc i) final_edges added_edges_keys
         else edge_element i (orient center_id tier1_ids rel) rel
                # edge_elements center_id tier1_ids (Suc i) final_edges
                    (insert (edge_key rel) added_edges_keys))
      else edge_element i (source rel, target rel) rel
             # edge_elements center_id tier1_ids (Suc i) final_edges added_edges_keys)"

definition export_elements :: "neighborhood \<Rightarrow> element list" where
  "export_elements data =
     (let center_id = uniprot_id (center_protein data);
          tier1_ids = tier1_of center_id (relationships data)
      in center_node (center_protein data)
         # neighbor_nodes tier1_ids (neighbors data) {center_id}
         @ map domain_node (domains data)
         @ edge_elements center_id tier1_ids 0
             (final_edges_of center_id tier1_ids (relationships data)) {})"

definition export_neighborhood_for_visualization :: "graph_store \<Rightarrow> string \<Rightarrow> int \<Rightarrow> element list" where
  "export_neighborhood_for_visualization st protein_id d =
     (case get_protein_neighborhood st protein_id d of
        None \<Rightarrow> []
      | Some data \<Rightarrow> export_elements data)"

section \<open>Notions used in the statements\<close>

text \<open>The semicolon-separated tokens of the EC-number field of a row, before any
  stripping: a missing cell and NaN have none.\<close>

definition ec_field_tokens :: "row \<Rightarrow> string list" where
  "ec_field_tokens r =
     (case row_get r ''EC number'' (PyStr '''') of
        PyNone \<Rightarrow> []
      | PyNaN \<Rightarrow> []
      | v \<Rightarrow> py_split CHR '';'' (py_str v))"

definition center_incident :: "string \<Rightarrow> relationship \<Rightarrow> bool" where
  "center_incident c r = (rel_type r = ''SIMILAR'' \<and> (source r = c \<or> target r = c))"

definition kept :: "string \<Rightarrow> relationship \<Rightarrow> bool" where
  "kept c r = (rel_type r = ''HAS_DOMAIN'' \<or> center_incident c r)"

definition candidate :: "string \<Rightarrow> string set \<Rightarrow> relationship \<Rightarrow> bool" where
  "candidate c t1 r =
     (rel_type r = ''SIMILAR'' \<and> source r \<noteq> c \<and> target r \<noteq> c
      \<and> \<not> (source r \<in> t1 \<and> target r \<in> t1)
      \<and> (case d2_node_id c t1 r of None \<Rightarrow> False | Some k \<Rightarrow> k \<noteq> []))"

definition d2_of :: "string \<Rightarrow> string set \<Rightarrow> relationship \<Rightarrow> string" where
  "d2_of c t1 r = the (d2_node_id c t1 r)"

fun pick_best :: "relationship \<Rightarrow> relationship list \<Rightarrow> relationship" where
  "pick_best b [] = b"
| "pick_best b (r # rs) = pick_best (if weight_of r > weight_of b then r else b) rs"

fun pick_pair :: "real \<times> relationship \<Rightarrow> relationship list \<Rightarrow> real \<times> relationship" where
  "pick_pair wb [] = wb"
| "pick_pair wb (r # rs) = pick_pair (if weight_of r > fst wb then (weight_of r, r) else wb) rs"

definition best_fold :: "(relationship \<Rightarrow> string) \<Rightarrow> relationship list \<Rightarrow> best_links \<Rightarrow> best_links" where
  "best_fold key cs best = fold (\<lambda>r. update_best (key r) (weight_of r) r) cs best"

definition wf_id :: "string \<Rightarrow> bool" where
  "wf_id k = (k \<noteq> [] \<and> CHR ''-'' \<notin> set k)"

definition edges_of :: "element list \<Rightarrow> edge_data list" where
  "edges_of els = List.map_filter (\<lambda>el. case el of Edges e \<Rightarrow> Some e | Nodes n \<Rightarrow> None) els"

definition similar_edges :: "element list \<Rightarrow> edge_data list" where
  "similar_edges els = filter (\<lambda>e. edge_type e = ''SIMILAR'') (edges_of els)"

definition endpoints :: "relationship \<Rightarrow> string set" where
  "endpoints r = {source r, target r}"

fun emitted :: "string set \<Rightarrow> relationship list \<Rightarrow> relationship list" where
  "emitted A [] = []"
| "emitted A (r # rs) =
     (if rel_type r = ''SIMILAR'' then
        (if edge_key r \<in> A then emitted A rs else r # emitted (insert (edge_key r) A) rs)
      else emitted A rs)"

definition shown :: "string \<Rightarrow> string set \<Rightarrow> relationship \<Rightarrow> string \<times> string \<times> real option" where
  "shown c t1 r = (fst (orient c t1 r), snd (orient c t1 r), map_option py_round2 (jaccard_weight r))"

definition edge_view :: "edge_data \<Rightarrow> string \<times> string \<times> real option" where
  "edge_view e = (edge_source e, edge_target e, edge_weight e)"

definition retrieved_ok :: "string \<Rightarrow> relationship list \<Rightarrow> bool" where
  "retrieved_ok c rs =
     (\<forall>r \<in> set rs. rel_type r = ''SIMILAR'' \<longrightarrow>
        source r \<in> insert c (tier1_of c rs) \<or> target r \<in> insert c (tier1_of c rs))"

definition tier2_links :: "string set \<Rightarrow> string \<Rightarrow> relationship list \<Rightarrow> relationship list" where
  "tier2_links t1 w rs =
     filter (\<lambda>r. rel_type r = ''SIMILAR'' \<and>
                 ((source r \<in> t1 \<and> target r = w) \<or> (target r \<in> t1 \<and> source r = w))) rs"

definition best_links_of :: "string \<Rightarrow> string set \<Rightarrow> relationship list \<Rightarrow> best_links" where
  "best_links_of c t1 rs = best_fold (d2_of c t1) (filter (candidate c t1) rs) []"

definition ids_ok :: "relationship list \<Rightarrow> bool" where
  "ids_ok rs = (\<forall>r \<in> set rs. rel_type r = ''SIMILAR'' \<longrightarrow> wf_id (source r) \<and> wf_id (target r))"

definition rel_of :: "string \<times> real \<times> relationship \<Rightarrow> relationship" where
  "rel_of e = snd (snd e)"

definition touches :: "string \<Rightarrow> string \<times> string \<times> real option \<Rightarrow> bool" where
  "touches w v = (fst v = w \<or> fst (snd v) = w)"

definition store_ids_ok :: "graph_store \<Rightarrow> bool" where
  "store_ids_ok st = (\<forall>p \<in> set (protein_nodes st). wf_id (uniprot_id p))"

definition similar_rel :: "string \<Rightarrow> string \<Rightarrow> real \<Rightarrow> relationship" where
  "similar_rel a b w =
     \<lparr> source = a, target = b, rel_type = ''SIMILAR'', jaccard_weight = Some w,
       shared_domains = None, union_domains = None \<rparr>"

definition store_of :: "string list \<Rightarrow> relationship list \<Rightarrow> graph_store" where
  "store_of ks rs =
     \<lparr> reachable = True, protein_nodes = map new_protein ks, domain_nodes = [],
       rels = rs, gds_catalog = None, journal = [] \<rparr>"

definition depth2_store :: graph_store where
  "depth2_store = store_of [''X'', ''Y'', ''Z'', ''W'']
     [similar_rel ''X'' ''Y'' 0.5, similar_rel ''X'' ''Z'' 0.2,
      similar_rel ''Y'' ''W'' 0.4, similar_rel ''Z'' ''W'' 0.6]"

definition depth2_data :: neighborhood where
  "depth2_data = the (get_protein_neighborhood depth2_store ''X'' 2)"

text \<open>A store whose identifiers hold hyphens: the centre \<open>a-b\<close> has the neighbours \<open>a-b-a\<close>
  and \<open>c\<close>, and both are linked to \<open>b-a\<close>, the heavier link coming from \<open>a-b-a\<close>.\<close>

definition hyphen_store :: graph_store where
  "hyphen_store = store_of [''a-b'', ''a-b-a'', ''c'', ''b-a'']
     [similar_rel ''a-b'' ''a-b-a'' 0.5, similar_rel ''a-b'' ''c'' 0.5,
      similar_rel ''a-b-a'' ''b-a'' 0.6, similar_rel ''c'' ''b-a'' 0.4]"

definition hyphen_data :: neighborhood where
  "hyphen_data = the (get_protein_neighborhood hyphen_store ''a-b'' 2)"

definition tie_store :: graph_store where
  "tie_store = store_of [''X'', ''Y'', ''Z'', ''W'']
     [similar_rel ''X'' ''Z'' 0.5, similar_rel ''X'' ''Y'' 0.5,
      similar_rel ''Y'' ''W'' 0.3, similar_rel ''Z'' ''W'' 0.3]"

definition tie_store_reordered :: graph_store where
  "tie_store_reordered = store_of [''X'', ''Y'', ''Z'', ''W'']
     [similar_rel ''X'' ''Y'' 0.5, similar_rel ''X'' ''Z'' 0.5,
      similar_rel ''Y'' ''W'' 0.3, similar_rel ''Z'' ''W'' 0.3]"

text \<open>Two links of equal weight into \<open>b-a\<close> in a store whose identifiers hold hyphens.\<close>

definition hyphen_tie_store :: graph_store where
  "hyphen_tie_store = store_of [''a-b'', ''a-b-a'', ''c'', ''b-a'']
     [similar_rel ''a-b'' ''a-b-a'' 0.5, similar_rel ''a-b'' ''c'' 0.5,
      similar_rel ''a-b-a'' ''b-a'' 0.25, similar_rel ''c'' ''b-a'' 0.25]"

definition tie_data :: neighborhood where
  "tie_data = the (get_protein_neighborhood tie_store ''X'' 2)"

definition inbound_sources :: "string \<Rightarrow> element list \<Rightarrow> string list" where
  "inbound_sources w els = map edge_source (filter (\<lambda>e. edge_target e = w) (similar_edges els))"

definition nodes_of :: "element list \<Rightarrow> node_data list" where
  "nodes_of els = List.map_filter (\<lambda>el. case el of Nodes n \<Rightarrow> Some n | Edges e \<Rightarrow> None) els"

definition tier1_nodes :: "element list \<Rightarrow> node_data list" where
  "tier1_nodes els = filter (\<lambda>n. node_type n = ''neighbor_d1'') (nodes_of els)"

definition lateral :: "string \<Rightarrow> string set \<Rightarrow> edge_data \<Rightarrow> bool" where
  "lateral c t1 e =
     (edge_source e \<noteq> c \<and> edge_target e \<noteq> c \<and> edge_source e \<in> t1 \<and> edge_target e \<in> t1)"

definition depth1_store :: graph_store where
  "depth1_store = store_of [''X'', ''Y'', ''Z'']
     [similar_rel ''X'' ''Y'' 0.5, similar_rel ''X'' ''Z'' 0.2, similar_rel ''Y'' ''Z'' 0.9]"

definition depth1_data :: neighborhood where
  "depth1_data = the (get_protein_neighborhood depth1_store ''X'' 1)"

definition unweighted_rel :: "string \<Rightarrow> string \<Rightarrow> relationship" where
  "unweighted_rel a b =
     \<lparr> source = a, target = b, rel_type = ''SIMILAR'', jaccard_weight = None,
       shared_domains = None, union_domains = None \<rparr>"

definition weights_store :: graph_store where
  "weights_store = store_of [''X'', ''Y'', ''Z'', ''V'', ''W'']
     [similar_rel ''X'' ''Y'' 0.5, similar_rel ''X'' ''Z'' 0.175, unweighted_rel ''X'' ''V'',
      unweighted_rel ''Y'' ''W'', similar_rel ''Z'' ''W'' 0.125]"

definition weights_data :: neighborhood where
  "weights_data = the (get_protein_neighborhood weights_store ''X'' 2)"

definition lonely_store :: graph_store where
  "lonely_store =
     \<lparr> reachable = True, protein_nodes = [new_protein ''X''],
       domain_nodes = [\<lparr> interpro_id = ''IPR1'', domain_name = None \<rparr>],
       rels = [has_domain_rel ''X'' ''IPR1''], gds_catalog = None, journal = [] \<rparr>"

text \<open>The same store when the session raises (the database cannot be reached).\<close>

definition unreachable_store :: graph_store where
  "unreachable_store = lonely_store\<lparr> reachable := False \<rparr>"

text \<open>\<open>a\<close> is run before \<open>b\<close>: \<open>b\<close> occurs after the first occurrence of \<open>a\<close>.\<close>

definition precedes :: "statement \<Rightarrow> statement \<Rightarrow> statement list \<Rightarrow> bool" where
  "precedes a b js = (b \<in> set (drop 1 (dropWhile (\<lambda>q. q \<noteq> a) js)))"

definition build_statements :: "statement list" where
  "build_statements =
     [DeleteRelationships RELATIONSHIP_TYPE, GraphDropIfExists GRAPH_NAME,
      GraphProject GRAPH_NAME, NodeSimilarityWrite GRAPH_NAME, GraphDrop GRAPH_NAME,
      SetDomainCount, SetSharedUnionDomains]"

definition is_import_batch :: "statement \<Rightarrow> bool" where
  "is_import_batch q = (case q of ImportBatch n \<Rightarrow> True | _ \<Rightarrow> False)"

definition import_statements :: "statement list" where
  "import_statements =
     [CreateConstraint ''Protein'' ''uniprot_id'', CreateConstraint ''Domain'' ''interpro_id'',
      CreateIndex ''Protein'' ''organism'']"

definition result_journal :: "error + graph_store \<Rightarrow> statement list option" where
  "result_journal res = (case res of Inl e \<Rightarrow> None | Inr st \<Rightarrow> Some (journal st))"

definition empty_store :: graph_store where
  "empty_store =
     \<lparr> reachable = True, protein_nodes = [], domain_nodes = [], rels = [],
       gds_catalog = None, journal = [] \<rparr>"

definition example_rows :: "row list" where
  "example_rows =
     [[''Entry'' \<mapsto> PyStr ''P1'', ''InterPro'' \<mapsto> PyStr ''IPR1;IPR2''],
      [''Entry'' \<mapsto> PyStr ''P2'', ''InterPro'' \<mapsto> PyStr ''IPR1'']]"

definition example_col :: "doc list" where
  "example_col = fst (process_and_insert_chunk example_rows [] ''Mouse'' 0)"

text \<open>A similarity procedure that writes one fixed relationship, for the runs below.\<close>

definition fixed_engine :: node_similarity where
  "fixed_engine g cfg = [similar_rel ''P1'' ''P2'' 0.5]"

text \<open>The run up to and including the similarity step.\<close>

definition until_similarity :: "node_similarity \<Rightarrow> doc list \<Rightarrow> graph_store \<Rightarrow> error + graph_store" where
  "until_similarity gds col st =
     bind (import_proteins_and_domains col st) (\<lambda>st.
     bind (clean_previous_data st) (\<lambda>st.
     bind (project_graph st) (\<lambda>st.
     run_gds_similarity gds st MIN_JACCARD_WEIGHT)))"

definition memberships :: "graph_store \<Rightarrow> (string \<times> string) list" where
  "memberships st = map (\<lambda>r. (source r, target r)) (filter (\<lambda>r. rel_type r = ''HAS_DOMAIN'') (rels st))"

definition hub_store :: graph_store where
  "hub_store =
     \<lparr> reachable = True, protein_nodes = map new_protein [''P1'', ''P2'', ''P3'', ''P4''],
       domain_nodes = [\<lparr> interpro_id = ''IPR1'', domain_name = None \<rparr>],
       rels = [has_domain_rel ''P1'' ''IPR1'', has_domain_rel ''P2'' ''IPR1'',
               has_domain_rel ''P3'' ''IPR1'', has_domain_rel ''P4'' ''IPR1''],
       gds_catalog = None, journal = [] \<rparr>"

text \<open>The projection that the rebuild hands to the similarity procedure.\<close>

definition handed_projection :: "graph_store \<Rightarrow> projection" where
  "handed_projection st =
     project (st\<lparr> rels := filter (\<lambda>r. rel_type r \<noteq> RELATIONSHIP_TYPE) (rels st) \<rparr>)"

text \<open>
  Modelled from the spec: the similarity procedure \<open>gds.nodeSimilarity.write\<close> that
  \<open>run_gds_similarity\<close> calls is not in the source tree (it belongs to the graph
  library). The definitions of this block follow the specification, section 4.1
  (DomainIndex): the domains of an entity, deduplicated; the inverted mapping from a
  domain to the entities that carry it; the domain count of an entity.
\<close>

definition domain_ids :: "projection \<Rightarrow> string \<Rightarrow> string list" where
  "domain_ids g e = remdups (map snd (filter (\<lambda>m. fst m = e) (proj_has_domain g)))"

definition inverted_index :: "projection \<Rightarrow> string \<Rightarrow> string list" where
  "inverted_index g d = remdups (map fst (filter (\<lambda>m. snd m = d) (proj_has_domain g)))"

definition indexed_domains :: "projection \<Rightarrow> string list" where
  "indexed_domains g = remdups (map snd (proj_has_domain g))"

definition index_domain_count :: "projection \<Rightarrow> string \<Rightarrow> nat" where
  "index_domain_count g e = length (domain_ids g e)"

text \<open>
  Modelled from the spec: section 4.2 (SimilarityEngine), absent from the source tree
  as said above. For each domain, every unordered pair of its carrier set increments an
  accumulator keyed by the pair; then \<open>union = domain_count(u) + domain_count(v) - shared\<close>,
  \<open>jaccard = shared / union\<close>, and a candidate edge is emitted iff
  \<open>jaccard \<ge> threshold\<close>. The threshold and the relationship type are read from the
  configuration map of the call.
\<close>

fun unordered_pairs :: "'a list \<Rightarrow> ('a \<times> 'a) list" where
  "unordered_pairs [] = []"
| "unordered_pairs (x # xs) = map (Pair x) xs @ unordered_pairs xs"

definition pair_key :: "string \<times> string \<Rightarrow> string \<times> string" where
  "pair_key p = (if fst p \<le> snd p then p else (snd p, fst p))"

definition accumulated_pairs :: "projection \<Rightarrow> (string \<times> string) list" where
  "accumulated_pairs g =
     concat (map (\<lambda>d. map pair_key (unordered_pairs (inverted_index g d))) (indexed_domains g))"

definition shared_count :: "projection \<Rightarrow> string \<times> string \<Rightarrow> nat" where
  "shared_count g k = count_list (accumulated_pairs g) k"

definition pair_jaccard :: "projection \<Rightarrow> string \<times> string \<Rightarrow> real" where
  "pair_jaccard g k =
     real (shared_count g k)
     / real (index_domain_count g (fst k) + index_domain_count g (snd k) - shared_count g k)"

definition candidate_edge :: "string \<Rightarrow> projection \<Rightarrow> string \<times> string \<Rightarrow> relationship" where
  "candidate_edge ty g k =
     \<lparr> source = fst k, target = snd k, rel_type = ty, jaccard_weight = Some (pair_jaccard g k),
       shared_domains = None, union_domains = None \<rparr>"

text \<open>
  Modelled from the spec: the procedure as a whole (section 4.2, the final filter). It
  returns one candidate edge for every accumulated pair whose coefficient is at least
  the \<open>similarityCutoff\<close> of the call, with the \<open>writeRelationshipType\<close> of the call as its
  type. Settings that the call does not pass are not part of the model.
\<close>

definition similarity_engine :: node_similarity where
  "similarity_engine g cfg =
     (case (map_of cfg ''similarityCutoff'', map_of cfg ''writeRelationshipType'') of
        (Some (Number threshold), Some (Text ty)) \<Rightarrow>
          map (candidate_edge ty g)
            (filter (\<lambda>k. pair_jaccard g k \<ge> threshold) (remdups (accumulated_pairs g)))
      | _ \<Rightarrow> [])"

text \<open>The Jaccard coefficient of two entities of a store, as the glossary of the
  specification has it: the size of the intersection of their domain sets over the size
  of the union.\<close>

definition domain_set :: "graph_store \<Rightarrow> string \<Rightarrow> string set" where
  "domain_set st e = snd ` set (filter (\<lambda>m. fst m = e) (memberships st))"

definition jaccard_coefficient :: "graph_store \<Rightarrow> string \<Rightarrow> string \<Rightarrow> real" where
  "jaccard_coefficient st u v =
     real (card (domain_set st u \<inter> domain_set st v))
     / real (card (domain_set st u \<union> domain_set st v))"

definition threshold_store :: graph_store where
  "threshold_store =
     \<lparr> reachable = True, protein_nodes = map new_protein [''P1'', ''P2'', ''P3''],
       domain_nodes = map (\<lambda>k. \<lparr> interpro_id = k, domain_name = None \<rparr>)
                        [''A'', ''B'', ''C'', ''D'', ''E'', ''F'', ''G'', ''H'', ''I'', ''J'', ''K''],
       rels = similar_rel ''P2'' ''P3'' 0.01
              # has_domain_rel ''P1'' ''A''
              # map (has_domain_rel ''P2'') [''A'', ''B'', ''C'', ''D'', ''E'', ''F'', ''G'', ''H'', ''I'', ''J'']
              @ [has_domain_rel ''P3'' ''A'', has_domain_rel ''P3'' ''K''],
       gds_catalog = None, journal = [] \<rparr>"

definition similar_rels :: "error + graph_store \<Rightarrow> relationship list" where
  "similar_rels res =
     (case res of Inl e \<Rightarrow> [] | Inr st \<Rightarrow> filter (\<lambda>r. rel_type r = ''SIMILAR'') (rels st))"

text \<open>A store with one \<open>SIMILAR\<close> relationship between a protein of 10 domains and a
  protein of 8 domains that share 4: its weight is 4/14.\<close>

definition enricher_store :: graph_store where
  "enricher_store =
     \<lparr> reachable = True,
       protein_nodes = [(new_protein ''P1'')\<lparr> domain_count := Some 10 \<rparr>,
                        (new_protein ''P2'')\<lparr> domain_count := Some 8 \<rparr>],
       domain_nodes = [],
       rels = [similar_rel ''P1'' ''P2'' (4 / 14)],
       gds_catalog = None, journal = [] \<rparr>"

text \<open>A store whose identifiers hold hyphens: the centre \<open>a-b-a\<close> has exactly the two
  neighbours \<open>a-b\<close> and \<open>b-a\<close>.\<close>

definition hyphen_depth1_store :: graph_store where
  "hyphen_depth1_store = store_of [''a-b-a'', ''a-b'', ''b-a'']
     [similar_rel ''a-b-a'' ''a-b'' 0.5, similar_rel ''a-b-a'' ''b-a'' 0.25]"

definition hyphen_depth1_data :: neighborhood where
  "hyphen_depth1_data = the (get_protein_neighborhood hyphen_depth1_store ''a-b-a'' 1)"

section \<open>Notions of the specification\<close>

section \<open>Properties of the ingestion\<close>

lemma split_semicolon_field_nonempty:
  "(split_semicolon_field v \<noteq> []) =
   (\<exists>t \<in> set (case v of PyNone \<Rightarrow> [] | PyNaN \<Rightarrow> [] | _ \<Rightarrow> py_split CHR '';'' (py_str v)).
      py_strip t \<noteq> [])"
  by (cases v) (auto simp: split_semicolon_field_def filter_empty_conv)

lemma insert_many_subset:
  "set (fst (insert_many col ds)) \<subseteq> set col \<union> set ds"
proof (induction ds arbitrary: col)
  case Nil
  then show ?case by simp
next
  case (Cons d ds)
  show ?case
  proof (cases "doc_id d \<in> doc_id ` set col")
    case True
    then show ?thesis using Cons.IH [of col] by auto
  next
    case False
    then show ?thesis using Cons.IH [of "col @ [d]"] by (auto split: prod.splits)
  qed
qed

lemma make_doc_labelled:
  assumes "make_doc org now r = Some d"
  shows "doc_is_labelled d = (\<exists>t \<in> set (ec_field_tokens r). py_strip t \<noteq> [])"
    and "doc_is_labelled d = (doc_ec_numbers d \<noteq> [])"
  using assms split_semicolon_field_nonempty [of "row_get r ''EC number'' (PyStr '''')"]
  by (auto simp: make_doc_def ec_field_tokens_def Let_def split: pyval.splits)

text \<open>
  C9, as stated, fails: a row whose EC-number field is a single blank holds the
  non-empty token \<open>'' ''\<close>, and the document built from it is not labelled.
\<close>

theorem is_labelled_blank_token_counterexample:
  "'' '' \<in> set (ec_field_tokens [''Entry'' \<mapsto> PyStr ''P1'', ''EC number'' \<mapsto> PyStr '' ''])
   \<and> '' '' \<noteq> []
   \<and> map_option doc_is_labelled
        (make_doc ''Mouse'' 0 [''Entry'' \<mapsto> PyStr ''P1'', ''EC number'' \<mapsto> PyStr '' ''])
       = Some False"
  by (simp add: make_doc_def row_get_def split_semicolon_field_def py_strip_def py_isspace_def
        ec_field_tokens_def)

text \<open>
  C9, amended: every document that \<open>process_and_insert_chunk\<close> adds to the collection
  comes from a row of the chunk, and its \<open>is_labelled\<close> flag is true exactly when the
  EC-number field of that row has a semicolon-separated token that is non-empty after
  the surrounding whitespace is stripped; the flag is true exactly when the stored
  \<open>ec_numbers\<close> list is non-empty.
\<close>

theorem is_labelled_iff_stripped_token:
  assumes "process_and_insert_chunk chunk col org now = (col', n)"
      and "d \<in> set col'" and "d \<notin> set col"
  shows "\<exists>r \<in> set chunk. make_doc org now r = Some d \<and>
           doc_is_labelled d = (\<exists>t \<in> set (ec_field_tokens r). py_strip t \<noteq> []) \<and>
           doc_is_labelled d = (doc_ec_numbers d \<noteq> [])"
proof -
  let ?docs = "List.map_filter (make_doc org now) chunk"
  have "set col' \<subseteq> set col \<union> set ?docs"
    using assms(1) insert_many_subset [of col ?docs]
    by (auto simp: process_and_insert_chunk_def Let_def split: if_splits)
  with assms(2,3) have "d \<in> set ?docs" by auto
  then obtain r where r: "r \<in> set chunk" "make_doc org now r = Some d"
    by (auto simp: List.map_filter_def)
  with make_doc_labelled [OF r(2)] show ?thesis by blast
qed

theorem is_labelled_iff_stripped_token_witness:
  "(let chunk = [[''Entry'' \<mapsto> PyStr ''P1'', ''EC number'' \<mapsto> PyStr ''1.1.1.1; ;'']];
        res = process_and_insert_chunk chunk [] ''Mouse'' 0;
        d = hd (fst res)
    in fst res = [d] \<and> snd res = 1 \<and> doc_is_labelled d \<and> doc_ec_numbers d = [''1.1.1.1'']
       \<and> (\<exists>r \<in> set chunk. make_doc ''Mouse'' 0 r = Some d \<and>
            doc_is_labelled d = (\<exists>t \<in> set (ec_field_tokens r). py_strip t \<noteq> []) \<and>
            doc_is_labelled d = (doc_ec_numbers d \<noteq> [])))"
  using is_labelled_iff_stripped_token
    [of "[[''Entry'' \<mapsto> PyStr ''P1'', ''EC number'' \<mapsto> PyStr ''1.1.1.1; ;'']]" "[]" "''Mouse''" 0
     "fst (process_and_insert_chunk [[''Entry'' \<mapsto> PyStr ''P1'', ''EC number'' \<mapsto> PyStr ''1.1.1.1; ;'']] [] ''Mouse'' 0)"
     "snd (process_and_insert_chunk [[''Entry'' \<mapsto> PyStr ''P1'', ''EC number'' \<mapsto> PyStr ''1.1.1.1; ;'']] [] ''Mouse'' 0)"
     "hd (fst (process_and_insert_chunk [[''Entry'' \<mapsto> PyStr ''P1'', ''EC number'' \<mapsto> PyStr ''1.1.1.1; ;'']] [] ''Mouse'' 0))"]
  by (simp add: process_and_insert_chunk_def List.map_filter_simps make_doc_def row_get_def
        split_semicolon_field_def py_strip_def py_isspace_def)

section \<open>Properties of the reconstruction of the counts\<close>

text \<open>
  The formula of the reconstruction is exact: for domain counts \<open>A\<close>, \<open>B\<close> of at least one
  and a shared count \<open>s\<close> between one and the smaller of them, the exact weight
  \<open>J = s / (A + B - s)\<close> gives back \<open>s\<close> as the intersection and \<open>A + B - s\<close> as the union.
\<close>

lemma intersect_math_exact:
  assumes "1 \<le> A" and "1 \<le> B" and "1 \<le> s" and "s \<le> min A B"
      and "J = of_int s / of_int (A + B - s)"
  shows "intersect_math J A B = s \<and> union_math J A B = A + B - s"
proof -
  have pos: "(0::real) < of_int (A + B - s)" using assms by simp
  have "0 \<le> J" using assms by simp
  then have nz: "1 + J \<noteq> 0" by simp
  have "J * of_int (A + B - s) = of_int s"
    using pos assms(5) by simp
  then have "J * of_int (A + B) = of_int s * (1 + J)"
    by (simp add: algebra_simps)
  then have "(J * of_int (A + B)) / (1.0 + J) = of_int s"
    using nz by (simp add: field_simps)
  then show ?thesis by (simp add: intersect_math_def union_math_def)
qed

lemma tier1_fold:
  "fold (tier1_step c) rs S = S \<union> other_end c ` {r \<in> set rs. center_incident c r}"
  by (induction rs arbitrary: S) (auto simp: tier1_step_def other_end_def center_incident_def)

lemma tier1_of_eq: "tier1_of c rs = other_end c ` {r \<in> set rs. center_incident c r}"
  by (simp add: tier1_of_def tier1_fold)

lemma edge_step_cases:
  "edge_step c t1 r (fe, best) =
     (if kept c r then (fe @ [r], best)
      else if candidate c t1 r then (fe, update_best (d2_of c t1 r) (weight_of r) r best)
      else (fe, best))"
  by (auto simp: edge_step_def kept_def candidate_def center_incident_def d2_of_def split: option.splits)

lemma fold_edge_step:
  "fold (edge_step c t1) rs (fe, best) =
     (fe @ filter (kept c) rs,
      fold (\<lambda>r. update_best (d2_of c t1 r) (weight_of r) r) (filter (candidate c t1) rs) best)"
proof (induction rs arbitrary: fe best)
  case Nil
  then show ?case by simp
next
  case (Cons r rs)
  have nk: "candidate c t1 r \<Longrightarrow> \<not> kept c r"
    by (auto simp: candidate_def kept_def center_incident_def)
  show ?case
    using nk by (simp add: edge_step_cases Cons.IH)
qed

lemma pick_pair_best: "pick_pair (weight_of b, b) rs = (weight_of (pick_best b rs), pick_best b rs)"
  by (induction rs arbitrary: b) auto

lemma map_of_update_best:
  "map_of (update_best k w r best) k' =
     (if k' = k then (case map_of best k of
                        None \<Rightarrow> Some (w, r)
                      | Some (w', r') \<Rightarrow> if w > w' then Some (w, r) else Some (w', r'))
      else map_of best k')"
  by (induction best) (auto split: option.splits)

lemma keys_update_best_in:
  "k \<in> fst ` set best \<Longrightarrow> map fst (update_best k w r best) = map fst best"
proof (induction best)
  case Nil
  then show ?case by simp
next
  case (Cons x best)
  obtain k' w' r' where x: "x = (k', w', r')" by (cases x)
  show ?case
  proof (cases "k = k'")
    case True
    then show ?thesis by (simp add: x)
  next
    case False
    with Cons.prems have "k \<in> fst ` set best" by (simp add: x)
    with Cons.IH False show ?thesis by (simp add: x)
  qed
qed

lemma keys_update_best_out:
  "k \<notin> fst ` set best \<Longrightarrow> map fst (update_best k w r best) = map fst best @ [k]"
  by (induction best) auto

lemma keys_update_best:
  "map fst (update_best k w r best) =
     (if k \<in> fst ` set best then map fst best else map fst best @ [k])"
  by (simp add: keys_update_best_in keys_update_best_out)

lemma keys_update_best_set:
  "fst ` set (update_best k w r best) = insert k (fst ` set best)"
proof (cases "k \<in> fst ` set best")
  case True
  have "set (map fst (update_best k w r best)) = set (map fst best)"
    using True by (simp add: keys_update_best_in)
  with True show ?thesis by (simp only: set_map insert_absorb)
next
  case False
  have "set (map fst (update_best k w r best)) = set (map fst best @ [k])"
    using False by (simp add: keys_update_best_out)
  then show ?thesis by (simp only: set_map set_append) simp
qed

lemma best_fold_Cons: "best_fold key (r # cs) best = best_fold key cs (update_best (key r) (weight_of r) r best)"
  by (simp add: best_fold_def)

lemma best_fold_Nil: "best_fold key [] best = best"
  by (simp add: best_fold_def)

lemma map_of_best_fold:
  "map_of (best_fold key cs best) k =
     (case map_of best k of
        None \<Rightarrow> (case filter (\<lambda>r. key r = k) cs of
                   [] \<Rightarrow> None
                 | r # rs \<Rightarrow> Some (pick_pair (weight_of r, r) rs))
      | Some wb \<Rightarrow> Some (pick_pair wb (filter (\<lambda>r. key r = k) cs)))"
proof (induction cs arbitrary: best)
  case Nil
  then show ?case by (simp add: best_fold_Nil split: option.splits)
next
  case (Cons r cs)
  show ?case
    by (simp add: best_fold_Cons Cons.IH map_of_update_best split: option.splits)
qed

lemma keys_best_fold:
  "distinct (map fst best) \<Longrightarrow> distinct (map fst (best_fold key cs best))"
  "fst ` set (best_fold key cs best) = fst ` set best \<union> key ` set cs"
proof (induction cs arbitrary: best)
  case Nil
  { case 1 then show ?case by (simp add: best_fold_Nil) }
  { case 2 then show ?case by (simp add: best_fold_Nil) }
next
  case (Cons r cs)
  { case 1
    have "distinct (map fst (update_best (key r) (weight_of r) r best))"
      using 1 by (simp add: keys_update_best)
    then show ?case by (simp add: best_fold_Cons Cons.IH(1)) }
  { case 2
    have "fst ` set (update_best (key r) (weight_of r) r best) = insert (key r) (fst ` set best)"
      by (rule keys_update_best_set)
    then show ?case by (simp add: best_fold_Cons Cons.IH(2)) }
qed

lemma pick_best_mem: "pick_best b rs \<in> set (b # rs)"
  by (induction rs arbitrary: b) auto

lemma pick_best_max_all: "\<forall>r \<in> set (b # rs). weight_of r \<le> weight_of (pick_best b rs)"
proof (induction rs arbitrary: b)
  case Nil
  then show ?case by simp
next
  case (Cons x xs)
  let ?b = "if weight_of x > weight_of b then x else b"
  have ih: "\<forall>r \<in> set (?b # xs). weight_of r \<le> weight_of (pick_best ?b xs)"
    by (rule Cons.IH)
  then have "weight_of ?b \<le> weight_of (pick_best ?b xs)" by simp
  then have "weight_of b \<le> weight_of (pick_best ?b xs)" "weight_of x \<le> weight_of (pick_best ?b xs)"
    by (auto split: if_splits)
  with ih show ?case by auto
qed

lemma pick_best_max: "r \<in> set (b # rs) \<Longrightarrow> weight_of r \<le> weight_of (pick_best b rs)"
  using pick_best_max_all by blast

text \<open>The first of the heaviest: everything before it is strictly lighter.\<close>

lemma pick_best_first:
  "\<exists>pre post. b # rs = pre @ pick_best b rs # post
      \<and> (\<forall>r \<in> set pre. weight_of r < weight_of (pick_best b rs))
      \<and> (\<forall>r \<in> set post. weight_of r \<le> weight_of (pick_best b rs))"
proof (induction rs arbitrary: b)
  case Nil
  have "[b] = [] @ pick_best b [] # []" by simp
  then show ?case by fastforce
next
  case (Cons x xs)
  show ?case
  proof (cases "weight_of x > weight_of b")
    case True
    from Cons.IH [of x] obtain pre post where
      p: "x # xs = pre @ pick_best x xs # post"
         "\<forall>r \<in> set pre. weight_of r < weight_of (pick_best x xs)"
         "\<forall>r \<in> set post. weight_of r \<le> weight_of (pick_best x xs)" by blast
    have "weight_of x \<le> weight_of (pick_best x xs)" by (rule pick_best_max) simp
    with True have lt: "weight_of b < weight_of (pick_best x xs)" by simp
    have pk: "pick_best b (x # xs) = pick_best x xs" using True by simp
    have sp: "b # x # xs = (b # pre) @ pick_best x xs # post" using p(1) by simp
    have lts: "\<forall>r \<in> set (b # pre). weight_of r < weight_of (pick_best x xs)"
      using p(2) lt by simp
    show ?thesis
      unfolding pk
      apply (rule exI [where x = "b # pre"])
      apply (rule exI [where x = post])
      using sp lts p(3) apply simp
      done
  next
    case False
    then have pk: "pick_best b (x # xs) = pick_best b xs" by simp
    from Cons.IH [of b] obtain pre post where
      p: "b # xs = pre @ pick_best b xs # post"
         "\<forall>r \<in> set pre. weight_of r < weight_of (pick_best b xs)"
         "\<forall>r \<in> set post. weight_of r \<le> weight_of (pick_best b xs)" by blast
    have xle: "weight_of x \<le> weight_of (pick_best b xs)"
      using False pick_best_max [of b b xs] by simp
    show ?thesis
    proof (cases pre)
      case Nil
      from p(1) have c: "b # xs = pick_best b xs # post" unfolding Nil by (simp only: append_Nil)
      have e1: "b = pick_best b xs" using c by (rule list.inject [THEN iffD1, THEN conjunct1])
      have e2: "xs = post" using c by (rule list.inject [THEN iffD1, THEN conjunct2])
      note eq = e1 [symmetric] e2 [symmetric]
      have les: "\<forall>r \<in> set (x # xs). weight_of r \<le> weight_of b"
        using p(3) eq xle by simp
      show ?thesis
        unfolding pk eq(1)
        apply (rule exI [where x = "[]"])
        apply (rule exI [where x = "x # xs"])
        using les apply simp
        done
    next
      case (Cons y ys)
      from p(1) have c: "b # xs = y # (ys @ pick_best b xs # post)"
        unfolding Cons by (simp only: append_Cons)
      have y1: "b = y" using c by (rule list.inject [THEN iffD1, THEN conjunct1])
      have y2: "xs = ys @ pick_best b xs # post"
        using c by (rule list.inject [THEN iffD1, THEN conjunct2])
      note y = y1 [symmetric] y2
      have "weight_of b < weight_of (pick_best b xs)" using p(2) Cons y by simp
      with False have xlt: "weight_of x < weight_of (pick_best b xs)" by simp
      have split: "b # x # xs = (b # x # ys) @ pick_best b xs # post" using y(2) by simp
      have lts: "\<forall>r \<in> set (b # x # ys). weight_of r < weight_of (pick_best b xs)"
        using p(2) Cons y xlt by simp
      show ?thesis
        unfolding pk
        apply (rule exI [where x = "b # x # ys"])
        apply (rule exI [where x = post])
        using split lts p(3) apply simp
        done
    qed
  qed
qed

lemma key_inj:
  "CHR ''-'' \<notin> set a \<Longrightarrow> CHR ''-'' \<notin> set c \<Longrightarrow> a @ ''-'' @ b = c @ ''-'' @ d \<Longrightarrow> a = c \<and> b = d"
proof (induction a arbitrary: c)
  case Nil
  then show ?case by (cases c) auto
next
  case (Cons x a)
  then show ?case by (cases c) auto
qed

lemma edge_key_inj:
  assumes "CHR ''-'' \<notin> set (source r)" "CHR ''-'' \<notin> set (target r)"
      and "CHR ''-'' \<notin> set (source r')" "CHR ''-'' \<notin> set (target r')"
      and "edge_key r = edge_key r'"
  shows "endpoints r = endpoints r'"
  using assms key_inj [of "source r" "source r'" "target r" "target r'"]
    key_inj [of "source r" "target r'" "target r" "source r'"]
    key_inj [of "target r" "source r'" "source r" "target r'"]
    key_inj [of "target r" "target r'" "source r" "source r'"]
  by (auto simp: edge_key_def endpoints_def split: if_splits)

lemma edges_of_simps [simp]:
  "edges_of [] = []"
  "edges_of (Edges e # els) = e # edges_of els"
  "edges_of (Nodes n # els) = edges_of els"
  by (simp_all add: edges_of_def List.map_filter_simps)

lemma edges_of_append [simp]: "edges_of (xs @ ys) = edges_of xs @ edges_of ys"
  by (simp add: edges_of_def List.map_filter_def)

lemma similar_edge_elements:
  "map edge_view (similar_edges (edge_elements c t1 i fes A)) = map (shown c t1) (emitted A fes)"
  by (induction fes arbitrary: i A)
     (auto simp: similar_edges_def edge_element_def edge_view_def shown_def)

lemma emitted_append:
  "emitted A (xs @ ys) =
     emitted A xs @ emitted (A \<union> edge_key ` {x \<in> set xs. rel_type x = ''SIMILAR''}) ys"
proof (induction xs arbitrary: A)
  case Nil
  then show ?case by simp
next
  case (Cons x xs)
  have a: "insert (edge_key x) A \<union> edge_key ` {y \<in> set xs. rel_type y = ''SIMILAR''}
        = A \<union> edge_key ` {y \<in> set (x # xs). rel_type y = ''SIMILAR''}"
    if "rel_type x = ''SIMILAR''" using that by auto
  have b: "A \<union> edge_key ` {y \<in> set xs. rel_type y = ''SIMILAR''}
        = A \<union> edge_key ` {y \<in> set (x # xs). rel_type y = ''SIMILAR''}"
    if "rel_type x \<noteq> ''SIMILAR'' \<or> edge_key x \<in> A" using that by auto
  show ?case
  proof (cases "rel_type x = ''SIMILAR''")
    case True
    show ?thesis
    proof (cases "edge_key x \<in> A")
      case k: True
      show ?thesis using True k b Cons.IH [of A] by simp
    next
      case k: False
      show ?thesis using True k a Cons.IH [of "insert (edge_key x) A"] by simp
    qed
  next
    case False
    then show ?thesis using b Cons.IH [of A] by simp
  qed
qed

lemma emitted_subset: "set (emitted A rs) \<subseteq> {r \<in> set rs. rel_type r = ''SIMILAR'' \<and> edge_key r \<notin> A}"
  by (induction rs arbitrary: A) (auto split: if_splits)

lemma emitted_all:
  "\<forall>r \<in> set rs. rel_type r = ''SIMILAR'' \<Longrightarrow> distinct (map edge_key rs)
     \<Longrightarrow> edge_key ` set rs \<inter> A = {} \<Longrightarrow> emitted A rs = rs"
  by (induction rs arbitrary: A) auto

lemma final_edges_of_eq:
  "final_edges_of c t1 rs = filter (kept c) rs @ map (\<lambda>(k, w, r). r) (best_links_of c t1 rs)"
  by (simp add: final_edges_of_def fold_edge_step best_links_of_def best_fold_def)

lemma kept_orient:
  assumes "center_incident c r" and "r \<in> set rs"
  shows "orient c (tier1_of c rs) r = (c, other_end c r)" and "other_end c r \<in> tier1_of c rs"
proof -
  show "orient c (tier1_of c rs) r = (c, other_end c r)"
    using assms(1) by (auto simp: orient_def other_end_def center_incident_def)
  show "other_end c r \<in> tier1_of c rs"
    using assms by (auto simp: tier1_of_eq)
qed

lemma candidate_orient:
  assumes "candidate c t1 r" and "source r \<in> insert c t1 \<or> target r \<in> insert c t1"
  shows "snd (orient c t1 r) = d2_of c t1 r" and "fst (orient c t1 r) \<in> t1"
    and "d2_of c t1 r \<notin> t1" and "d2_of c t1 r \<noteq> c" and "d2_of c t1 r \<noteq> []"
    and "endpoints r = {fst (orient c t1 r), d2_of c t1 r}"
    and "c \<notin> endpoints r" and "rel_type r = ''SIMILAR''"
  using assms
  by (auto simp: candidate_def orient_def d2_of_def d2_node_id_def endpoints_def
           split: if_splits option.splits)

lemma candidate_link:
  assumes "w \<notin> t1" and "w \<noteq> c" and "w \<noteq> []"
      and "source r \<in> insert c t1 \<or> target r \<in> insert c t1"
      and "center_incident c r \<longrightarrow> other_end c r \<in> t1"
  shows "(candidate c t1 r \<and> d2_of c t1 r = w) =
         (rel_type r = ''SIMILAR'' \<and>
           ((source r \<in> t1 \<and> target r = w) \<or> (target r \<in> t1 \<and> source r = w)))"
  using assms
  by (auto simp: candidate_def d2_of_def d2_node_id_def center_incident_def other_end_def
           split: if_splits option.splits)

lemma links_are_candidates:
  assumes "retrieved_ok c rs" and "w \<notin> tier1_of c rs" and "w \<noteq> c" and "w \<noteq> []"
  shows "filter (\<lambda>r. d2_of c (tier1_of c rs) r = w) (filter (candidate c (tier1_of c rs)) rs)
         = tier2_links (tier1_of c rs) w rs"
proof -
  have "\<forall>r \<in> set rs. (candidate c (tier1_of c rs) r \<and> d2_of c (tier1_of c rs) r = w) =
         (rel_type r = ''SIMILAR'' \<and>
           ((source r \<in> tier1_of c rs \<and> target r = w) \<or> (target r \<in> tier1_of c rs \<and> source r = w)))"
  proof
    fix r assume r: "r \<in> set rs"
    show "(candidate c (tier1_of c rs) r \<and> d2_of c (tier1_of c rs) r = w) =
         (rel_type r = ''SIMILAR'' \<and>
           ((source r \<in> tier1_of c rs \<and> target r = w) \<or> (target r \<in> tier1_of c rs \<and> source r = w)))"
    proof (cases "rel_type r = ''SIMILAR''")
      case True
      with assms(1) r have "source r \<in> insert c (tier1_of c rs) \<or> target r \<in> insert c (tier1_of c rs)"
        by (simp add: retrieved_ok_def)
      moreover have "center_incident c r \<longrightarrow> other_end c r \<in> tier1_of c rs"
        using r by (auto simp: tier1_of_eq)
      ultimately show ?thesis by (rule candidate_link [OF assms(2,3,4)])
    next
      case False
      then show ?thesis by (simp add: candidate_def)
    qed
  qed
  then show ?thesis
    unfolding tier2_links_def filter_filter by (intro filter_cong) auto
qed

lemma best_entry:
  assumes "(k, wt, r) \<in> set (best_fold key cs [])"
  shows "\<exists>l ls. filter (\<lambda>x. key x = k) cs = l # ls \<and> r = pick_best l ls \<and> wt = weight_of r"
proof -
  have d: "distinct (map fst (best_fold key cs []))"
    by (rule keys_best_fold(1)) simp
  with assms have m: "map_of (best_fold key cs []) k = Some (wt, r)" by simp
  show ?thesis
  proof (cases "filter (\<lambda>x. key x = k) cs")
    case Nil
    with m show ?thesis by (simp add: map_of_best_fold)
  next
    case (Cons l ls)
    with m show ?thesis by (auto simp: map_of_best_fold pick_pair_best)
  qed
qed

lemma best_entry_mem:
  assumes "(k, wt, r) \<in> set (best_fold key cs [])"
  shows "r \<in> set cs" and "key r = k"
proof -
  from best_entry [OF assms] obtain l ls where
    f: "filter (\<lambda>x. key x = k) cs = l # ls" and r: "r = pick_best l ls" by blast
  have "r \<in> set (l # ls)" unfolding r by (rule pick_best_mem)
  then have "r \<in> set (filter (\<lambda>x. key x = k) cs)" by (simp only: f)
  then show "r \<in> set cs" and "key r = k" by simp_all
qed

lemma best_lookup:
  assumes "filter (\<lambda>x. key x = k) cs = l # ls"
  shows "filter (\<lambda>e. fst e = k) (best_fold key cs []) = [(k, weight_of (pick_best l ls), pick_best l ls)]"
proof -
  have d: "distinct (map fst (best_fold key cs []))"
    by (rule keys_best_fold(1)) simp
  have m: "map_of (best_fold key cs []) k = Some (weight_of (pick_best l ls), pick_best l ls)"
    using assms by (simp add: map_of_best_fold pick_pair_best)
  have gen: "distinct (map fst xs) \<Longrightarrow> map_of xs k = Some v \<Longrightarrow> filter (\<lambda>e. fst e = k) xs = [(k, v)]"
    for xs :: "(string \<times> real \<times> relationship) list" and v
  proof (induction xs)
    case Nil
    then show ?case by simp
  next
    case (Cons x xs)
    show ?case
    proof (cases "fst x = k")
      case True
      with Cons.prems have "x = (k, v)" by (cases x) simp
      moreover have "k \<notin> fst ` set xs" using Cons.prems(1) True by simp
      then have "\<forall>e \<in> set xs. fst e \<noteq> k" by blast
      then have "filter (\<lambda>e. fst e = k) xs = []" by (simp add: filter_empty_conv)
      ultimately show ?thesis by simp
    next
      case False
      with Cons show ?thesis by (cases x) auto
    qed
  qed
  from gen [OF d m] show ?thesis .
qed

lemma rel_of_case: "(\<lambda>(k, w, r). r) = rel_of"
  by (auto simp: rel_of_def)

lemma best_links_entry:
  assumes ok: "retrieved_ok c rs" and e: "e \<in> set (best_links_of c (tier1_of c rs) rs)"
  shows "rel_of e \<in> set rs" and "candidate c (tier1_of c rs) (rel_of e)"
    and "d2_of c (tier1_of c rs) (rel_of e) = fst e"
    and "source (rel_of e) \<in> insert c (tier1_of c rs) \<or> target (rel_of e) \<in> insert c (tier1_of c rs)"
proof -
  obtain k wt r where eq: "e = (k, wt, r)" by (cases e)
  have mem: "(k, wt, r) \<in> set (best_fold (d2_of c (tier1_of c rs)) (filter (candidate c (tier1_of c rs)) rs) [])"
    using e unfolding eq best_links_of_def .
  from best_entry_mem [OF mem] have r: "r \<in> set (filter (candidate c (tier1_of c rs)) rs)"
    and k: "d2_of c (tier1_of c rs) r = k" by simp_all
  from r show "rel_of e \<in> set rs" and c: "candidate c (tier1_of c rs) (rel_of e)"
    by (simp_all add: eq rel_of_def)
  from k show "d2_of c (tier1_of c rs) (rel_of e) = fst e" by (simp add: eq rel_of_def)
  from c have "rel_type (rel_of e) = ''SIMILAR''" by (simp add: candidate_def)
  with ok r show "source (rel_of e) \<in> insert c (tier1_of c rs) \<or> target (rel_of e) \<in> insert c (tier1_of c rs)"
    by (simp add: retrieved_ok_def eq rel_of_def)
qed

lemma best_links_distinct: "distinct (map fst (best_links_of c t1 rs))"
  unfolding best_links_of_def by (rule keys_best_fold(1)) simp

lemma best_keys_distinct:
  assumes ok: "retrieved_ok c rs" and ids: "ids_ok rs"
  shows "distinct (map edge_key (map rel_of (best_links_of c (tier1_of c rs) rs)))"
proof -
  let ?t1 = "tier1_of c rs"
  let ?B = "best_links_of c ?t1 rs"
  have dB: "distinct ?B" and inj: "inj_on fst (set ?B)"
    using best_links_distinct [of c ?t1 rs] by (simp_all add: distinct_map)
  have "inj_on (edge_key \<circ> rel_of) (set ?B)"
  proof (rule inj_onI)
    fix e e' assume e: "e \<in> set ?B" and e': "e' \<in> set ?B"
      and k: "(edge_key \<circ> rel_of) e = (edge_key \<circ> rel_of) e'"
    note a = best_links_entry [OF ok e] and a' = best_links_entry [OF ok e']
    note o = candidate_orient [OF a(2) a(4)] and o' = candidate_orient [OF a'(2) a'(4)]
    have "wf_id (source (rel_of e))" "wf_id (target (rel_of e))"
         "wf_id (source (rel_of e'))" "wf_id (target (rel_of e'))"
      using ids a(1) a'(1) o(8) o'(8) by (simp_all add: ids_ok_def)
    then have "endpoints (rel_of e) = endpoints (rel_of e')"
      using k by (intro edge_key_inj) (simp_all add: wf_id_def)
    then have "{fst (orient c ?t1 (rel_of e)), fst e} = {fst (orient c ?t1 (rel_of e')), fst e'}"
      using o(6) o'(6) a(3) a'(3) by simp
    moreover have "fst e \<notin> ?t1" "fst e' \<notin> ?t1" using o(3) o'(3) a(3) a'(3) by simp_all
    ultimately have "fst e = fst e'" using o(2) o'(2) by (metis doubleton_eq_iff)
    with inj e e' show "e = e'" by (simp add: inj_on_def)
  qed
  with dB show ?thesis by (simp add: distinct_map comp_def)
qed

lemma best_keys_fresh:
  assumes ok: "retrieved_ok c rs" and ids: "ids_ok rs"
  shows "edge_key ` set (map rel_of (best_links_of c (tier1_of c rs) rs))
           \<inter> ({} \<union> edge_key ` {x \<in> set (filter (kept c) rs). rel_type x = ''SIMILAR''}) = {}"
proof -
  let ?t1 = "tier1_of c rs"
  { fix e x assume e: "e \<in> set (best_links_of c ?t1 rs)"
      and x: "x \<in> set rs" "kept c x" "rel_type x = ''SIMILAR''"
      and k: "edge_key (rel_of e) = edge_key x"
    note a = best_links_entry [OF ok e]
    note o = candidate_orient [OF a(2) a(4)]
    have "wf_id (source (rel_of e))" "wf_id (target (rel_of e))" "wf_id (source x)" "wf_id (target x)"
      using ids a(1) o(8) x by (simp_all add: ids_ok_def)
    then have "endpoints (rel_of e) = endpoints x"
      using k by (intro edge_key_inj) (simp_all add: wf_id_def)
    moreover have "c \<in> endpoints x"
      using x by (auto simp: kept_def center_incident_def endpoints_def)
    ultimately have False using o(7) by simp }
  then show ?thesis by (auto simp: image_iff)
qed

lemma emitted_final:
  assumes ok: "retrieved_ok c rs" and ids: "ids_ok rs"
  shows "emitted {} (final_edges_of c (tier1_of c rs) rs) =
           emitted {} (filter (kept c) rs) @ map rel_of (best_links_of c (tier1_of c rs) rs)"
proof -
  let ?t1 = "tier1_of c rs"
  let ?Bm = "map rel_of (best_links_of c ?t1 rs)"
  have sim: "\<forall>r \<in> set ?Bm. rel_type r = ''SIMILAR''"
    using best_links_entry(2) [OF ok] by (auto simp: candidate_def)
  have "emitted ({} \<union> edge_key ` {x \<in> set (filter (kept c) rs). rel_type x = ''SIMILAR''}) ?Bm = ?Bm"
    by (rule emitted_all [OF sim best_keys_distinct [OF ok ids] best_keys_fresh [OF ok ids]])
  then show ?thesis
    by (simp only: final_edges_of_eq rel_of_case emitted_append)
qed

lemma rel_of_simp: "rel_of (k, w, r) = r"
  by (simp add: rel_of_def)

lemma edges_of_neighbor_nodes [simp]: "edges_of (neighbor_nodes t1 ns ex) = []"
  by (induction ns arbitrary: ex) (auto simp: neighbor_node_def)

lemma edges_of_domain_nodes [simp]: "edges_of (map domain_node ds) = []"
  by (induction ds) (auto simp: domain_node_def)

lemma export_similar_view:
  "map edge_view (similar_edges (export_elements data)) =
     map (shown (uniprot_id (center_protein data))
                (tier1_of (uniprot_id (center_protein data)) (relationships data)))
       (emitted {} (final_edges_of (uniprot_id (center_protein data))
                      (tier1_of (uniprot_id (center_protein data)) (relationships data))
                      (relationships data)))"
proof -
  have "similar_edges (export_elements data) =
        similar_edges (edge_elements (uniprot_id (center_protein data))
           (tier1_of (uniprot_id (center_protein data)) (relationships data)) 0
           (final_edges_of (uniprot_id (center_protein data))
              (tier1_of (uniprot_id (center_protein data)) (relationships data))
              (relationships data)) {})"
    by (simp add: export_elements_def Let_def similar_edges_def center_node_def)
  then show ?thesis by (simp only: similar_edge_elements)
qed

lemma kept_emitted_shown:
  assumes "r \<in> set (emitted {} (filter (kept c) rs))"
  shows "r \<in> set rs" and "center_incident c r"
    and "shown c (tier1_of c rs) r = (c, other_end c r, map_option py_round2 (jaccard_weight r))"
    and "other_end c r \<in> tier1_of c rs"
proof -
  from assms emitted_subset [of "{}" "filter (kept c) rs"]
  have r: "r \<in> set rs" "kept c r" "rel_type r = ''SIMILAR''" by auto
  then show "r \<in> set rs" by simp
  from r show ci: "center_incident c r" by (auto simp: kept_def center_incident_def)
  from kept_orient [OF ci r(1)]
  show "shown c (tier1_of c rs) r = (c, other_end c r, map_option py_round2 (jaccard_weight r))"
    and "other_end c r \<in> tier1_of c rs"
    by (simp_all add: shown_def)
qed

lemma tier2_shown:
  assumes ok: "retrieved_ok c rs" and ids: "ids_ok rs"
      and w: "w \<notin> tier1_of c rs" "w \<noteq> c" "w \<noteq> []"
      and links: "tier2_links (tier1_of c rs) w rs = l # ls"
  shows "filter (touches w) (map (shown c (tier1_of c rs))
             (emitted {} (final_edges_of c (tier1_of c rs) rs)))
         = [shown c (tier1_of c rs) (pick_best l ls)]"
proof -
  let ?t1 = "tier1_of c rs"
  let ?B = "best_links_of c ?t1 rs"
  have k: "filter (touches w) (map (shown c ?t1) (emitted {} (filter (kept c) rs))) = []"
  proof -
    { fix r assume "r \<in> set (emitted {} (filter (kept c) rs))"
      from kept_emitted_shown(3,4) [OF this] w(1,2)
      have "\<not> touches w (shown c ?t1 r)" by (auto simp: touches_def) }
    then show ?thesis by (simp add: filter_empty_conv)
  qed
  have b: "\<forall>e \<in> set ?B. touches w (shown c ?t1 (rel_of e)) = (fst e = w)"
  proof
    fix e assume e: "e \<in> set ?B"
    note a = best_links_entry [OF ok e]
    note o = candidate_orient [OF a(2) a(4)]
    from o(1,2) a(3) w(1) show "touches w (shown c ?t1 (rel_of e)) = (fst e = w)"
      by (auto simp: touches_def shown_def)
  qed
  have "filter (touches w) (map (shown c ?t1) (map rel_of ?B))
        = map (shown c ?t1 \<circ> rel_of) (filter (\<lambda>e. touches w (shown c ?t1 (rel_of e))) ?B)"
    by (simp add: filter_map comp_def)
  also have "filter (\<lambda>e. touches w (shown c ?t1 (rel_of e))) ?B = filter (\<lambda>e. fst e = w) ?B"
    using b by (intro filter_cong) auto
  also have "\<dots> = [(w, weight_of (pick_best l ls), pick_best l ls)]"
    unfolding best_links_of_def
    by (rule best_lookup) (simp only: links_are_candidates [OF ok w] links)
  finally have "filter (touches w) (map (shown c ?t1) (map rel_of ?B))
        = map (shown c ?t1 \<circ> rel_of) [(w, weight_of (pick_best l ls), pick_best l ls)]" .
  then have bm: "filter (touches w) (map (shown c ?t1) (map rel_of ?B))
        = [shown c ?t1 (pick_best l ls)]"
    by (simp only: list.map o_apply rel_of_simp)
  show ?thesis
    by (simp only: emitted_final [OF ok ids] map_append filter_append k bm append_Nil)
qed

lemma best_link_facts:
  assumes ok: "retrieved_ok c rs"
      and w: "w \<notin> tier1_of c rs" "w \<noteq> c" "w \<noteq> []"
      and links: "tier2_links (tier1_of c rs) w rs = l # ls"
  shows "pick_best l ls \<in> set (tier2_links (tier1_of c rs) w rs)"
    and "\<forall>r \<in> set (tier2_links (tier1_of c rs) w rs). weight_of r \<le> weight_of (pick_best l ls)"
    and "snd (orient c (tier1_of c rs) (pick_best l ls)) = w"
    and "fst (orient c (tier1_of c rs) (pick_best l ls)) \<in> tier1_of c rs"
    and "endpoints (pick_best l ls) = {fst (orient c (tier1_of c rs) (pick_best l ls)), w}"
proof -
  let ?t1 = "tier1_of c rs"
  let ?p = "pick_best l ls"
  show m: "?p \<in> set (tier2_links ?t1 w rs)"
    unfolding links by (rule pick_best_mem)
  show "\<forall>r \<in> set (tier2_links ?t1 w rs). weight_of r \<le> weight_of ?p"
    unfolding links by (rule pick_best_max_all)
  from m have "?p \<in> set (filter (\<lambda>r. d2_of c ?t1 r = w) (filter (candidate c ?t1) rs))"
    by (simp only: links_are_candidates [OF ok w])
  then have p: "?p \<in> set rs" "candidate c ?t1 ?p" "d2_of c ?t1 ?p = w" by simp_all
  then have "rel_type ?p = ''SIMILAR''" by (simp add: candidate_def)
  with ok p(1) have inv: "source ?p \<in> insert c ?t1 \<or> target ?p \<in> insert c ?t1"
    by (simp add: retrieved_ok_def)
  note o = candidate_orient [OF p(2) inv]
  from o(1) p(3) show "snd (orient c ?t1 ?p) = w" by simp
  from o(2) show "fst (orient c ?t1 ?p) \<in> ?t1" .
  from o(6) p(3) show "endpoints ?p = {fst (orient c ?t1 ?p), w}" by simp
qed

lemma find_protein_Some:
  "find_protein st k = Some p \<Longrightarrow> p \<in> set (protein_nodes st) \<and> uniprot_id p = k"
  by (auto simp: find_protein_def find_Some_iff)

lemma find_protein_None:
  "(find_protein st k = None) = (k \<notin> uniprot_id ` set (protein_nodes st))"
  by (auto simp: find_protein_def find_None_iff)

lemma similar_of_mem:
  assumes "(i, r) \<in> set (similar_of st k)"
  shows "rel_type r = ''SIMILAR''" and "source r = k \<or> target r = k"
    and "other_end k r \<in> uniprot_id ` set (protein_nodes st)"
    and "r \<in> set (rels st)"
  using assms
  by (auto simp: similar_of_def find_protein_None dest: set_zip_rightD)

lemma has_domain_rel_type [simp]: "rel_type (has_domain_rel p d) = ''HAS_DOMAIN''"
  by (simp add: has_domain_rel_def)

text \<open>What a neighbourhood that was found is made of.\<close>

lemma neighborhood_Some:
  assumes "get_protein_neighborhood st c d = Some data"
  shows "reachable st" and "find_protein st c = Some (center_protein data)"
    and "uniprot_id (center_protein data) = c"
    and "c \<in> uniprot_id ` set (protein_nodes st)"
    and "d = 1 \<Longrightarrow> relationships data =
           remdups (map snd (similar_of st c))
           @ remdups (map (\<lambda>x. has_domain_rel c (interpro_id x)) (domains_of st c))"
    and "d \<noteq> 1 \<Longrightarrow> relationships data =
           map snd (remdups (concat (map snd (paths_from st c))))
           @ remdups (map (\<lambda>x. has_domain_rel c (interpro_id x)) (domains_of st c))"
proof -
  from assms show r: "reachable st"
    by (simp add: get_protein_neighborhood_def split: if_splits)
  from assms r obtain p where p: "find_protein st c = Some p"
    by (auto simp: get_protein_neighborhood_def split: option.splits)
  from find_protein_Some [OF p] have pc: "uniprot_id p = c" "p \<in> set (protein_nodes st)" by simp_all
  from assms r p show "find_protein st c = Some (center_protein data)"
    by (auto simp: get_protein_neighborhood_def Let_def split: prod.splits)
  with p have "center_protein data = p" by simp
  with pc show "uniprot_id (center_protein data) = c" by simp
  from pc show "c \<in> uniprot_id ` set (protein_nodes st)" by auto
  show "d = 1 \<Longrightarrow> relationships data =
           remdups (map snd (similar_of st c))
           @ remdups (map (\<lambda>x. has_domain_rel c (interpro_id x)) (domains_of st c))"
    using assms r p pc
    by (auto simp: get_protein_neighborhood_def query_depth1_def Let_def split: prod.splits)
  show "d \<noteq> 1 \<Longrightarrow> relationships data =
           map snd (remdups (concat (map snd (paths_from st c))))
           @ remdups (map (\<lambda>x. has_domain_rel c (interpro_id x)) (domains_of st c))"
    using assms r p pc
    by (auto simp: get_protein_neighborhood_def query_depth2_def Let_def split: prod.splits)
qed

text \<open>The relationships of the paths: the first hop touches the centre, the second
  touches the node the first hop reached.\<close>

lemma paths_rel:
  assumes "(i, r) \<in> set (concat (map snd (paths_from st c)))"
  shows "(i, r) \<in> set (similar_of st c)
         \<or> (\<exists>i1 r1. (i1, r1) \<in> set (similar_of st c) \<and> (i, r) \<in> set (similar_of st (other_end c r1)))"
  using assms by (auto simp: paths_from_def Let_def)

lemma paths_first:
  assumes "(i, r) \<in> set (similar_of st c)"
  shows "(i, r) \<in> set (concat (map snd (paths_from st c)))"
  using assms by (force simp: paths_from_def Let_def)

lemma similar_rels_of_neighborhood:
  assumes "get_protein_neighborhood st c d = Some data"
      and "r \<in> set (relationships data)" and "rel_type r = ''SIMILAR''"
  shows "(\<exists>i. (i, r) \<in> set (similar_of st c))
         \<or> (d \<noteq> 1 \<and> (\<exists>i i1 r1. (i1, r1) \<in> set (similar_of st c) \<and> r1 \<in> set (relationships data)
                 \<and> (i, r) \<in> set (similar_of st (other_end c r1))))"
proof (cases "d = 1")
  case True
  from neighborhood_Some(5) [OF assms(1) True] assms(2,3) show ?thesis by auto
next
  case False
  note rel = neighborhood_Some(6) [OF assms(1) False]
  from rel assms(2,3) have "r \<in> snd ` set (concat (map snd (paths_from st c)))"
    by auto
  then obtain i where i: "(i, r) \<in> set (concat (map snd (paths_from st c)))"
    by (auto simp del: set_concat)
  from paths_rel [OF i] show ?thesis
  proof
    assume "(i, r) \<in> set (similar_of st c)"
    then show ?thesis by blast
  next
    assume "\<exists>i1 r1. (i1, r1) \<in> set (similar_of st c) \<and> (i, r) \<in> set (similar_of st (other_end c r1))"
    then obtain i1 r1 where h: "(i1, r1) \<in> set (similar_of st c)"
      "(i, r) \<in> set (similar_of st (other_end c r1))" by blast
    from paths_first [OF h(1)] have "r1 \<in> set (relationships data)"
      unfolding rel by force
    with h False show ?thesis by blast
  qed
qed

lemma neighborhood_retrieved_ok:
  assumes "get_protein_neighborhood st c d = Some data"
  shows "retrieved_ok c (relationships data)"
  unfolding retrieved_ok_def
proof (intro ballI impI)
  fix r assume r: "r \<in> set (relationships data)" "rel_type r = ''SIMILAR''"
  let ?t1 = "tier1_of c (relationships data)"
  from similar_rels_of_neighborhood [OF assms r]
  show "source r \<in> insert c ?t1 \<or> target r \<in> insert c ?t1"
  proof
    assume "\<exists>i. (i, r) \<in> set (similar_of st c)"
    then show ?thesis using similar_of_mem(2) by blast
  next
    assume "d \<noteq> 1 \<and> (\<exists>i i1 r1. (i1, r1) \<in> set (similar_of st c) \<and> r1 \<in> set (relationships data)
                 \<and> (i, r) \<in> set (similar_of st (other_end c r1)))"
    then obtain i i1 r1 where h: "(i1, r1) \<in> set (similar_of st c)" "r1 \<in> set (relationships data)"
      "(i, r) \<in> set (similar_of st (other_end c r1))" by blast
    from similar_of_mem(1,2) [OF h(1)] have "center_incident c r1"
      by (simp add: center_incident_def)
    with h(2) have "other_end c r1 \<in> ?t1" by (auto simp: tier1_of_eq)
    with similar_of_mem(2) [OF h(3)] show ?thesis by auto
  qed
qed

lemma similar_of_ends:
  assumes "(i, r) \<in> set (similar_of st k)" and "k \<in> uniprot_id ` set (protein_nodes st)"
  shows "source r \<in> uniprot_id ` set (protein_nodes st)"
    and "target r \<in> uniprot_id ` set (protein_nodes st)"
  using similar_of_mem(2,3) [OF assms(1)] assms(2)
  by (auto simp: other_end_def split: if_splits)

lemma neighborhood_ends:
  assumes "get_protein_neighborhood st c d = Some data"
      and "r \<in> set (relationships data)" and "rel_type r = ''SIMILAR''"
  shows "source r \<in> uniprot_id ` set (protein_nodes st)"
    and "target r \<in> uniprot_id ` set (protein_nodes st)"
proof -
  note c = neighborhood_Some(4) [OF assms(1)]
  from similar_rels_of_neighborhood [OF assms]
  have "source r \<in> uniprot_id ` set (protein_nodes st) \<and> target r \<in> uniprot_id ` set (protein_nodes st)"
  proof
    assume "\<exists>i. (i, r) \<in> set (similar_of st c)"
    then show ?thesis using similar_of_ends c by blast
  next
    assume "d \<noteq> 1 \<and> (\<exists>i i1 r1. (i1, r1) \<in> set (similar_of st c) \<and> r1 \<in> set (relationships data)
                 \<and> (i, r) \<in> set (similar_of st (other_end c r1)))"
    then obtain i i1 r1 where h: "(i1, r1) \<in> set (similar_of st c)"
      "(i, r) \<in> set (similar_of st (other_end c r1))" by blast
    from similar_of_mem(3) [OF h(1)] similar_of_ends [OF h(2)] show ?thesis by blast
  qed
  then show "source r \<in> uniprot_id ` set (protein_nodes st)"
    and "target r \<in> uniprot_id ` set (protein_nodes st)" by simp_all
qed

lemma neighborhood_ids_ok:
  assumes "get_protein_neighborhood st c d = Some data" and "store_ids_ok st"
  shows "ids_ok (relationships data)"
  unfolding ids_ok_def
proof (intro ballI impI)
  fix r assume r: "r \<in> set (relationships data)" "rel_type r = ''SIMILAR''"
  have w: "k \<in> uniprot_id ` set (protein_nodes st) \<Longrightarrow> wf_id k" for k
    using assms(2) by (auto simp: store_ids_ok_def)
  from neighborhood_ends [OF assms(1) r] show "wf_id (source r) \<and> wf_id (target r)"
    by (simp add: w)
qed

section \<open>The best match of a second-tier node\<close>

text \<open>The edge of the export that touches a second-tier node \<open>w\<close>: there is exactly one,
  it is drawn from a first-tier node to \<open>w\<close>, and it is built from the relationship that
  \<open>pick_best\<close> selects among the retrieved links between the first tier and \<open>w\<close>.\<close>

lemma tier2_export_edge:
  assumes nb: "get_protein_neighborhood st c 2 = Some data"
      and ids: "store_ids_ok st"
      and w: "w \<notin> tier1_of c (relationships data)" "w \<noteq> c"
      and links: "tier2_links (tier1_of c (relationships data)) w (relationships data) \<noteq> []"
  shows "\<exists>e l ls.
           tier2_links (tier1_of c (relationships data)) w (relationships data) = l # ls
           \<and> filter (\<lambda>e. edge_source e = w \<or> edge_target e = w)
                (similar_edges (export_neighborhood_for_visualization st c 2)) = [e]
           \<and> edge_target e = w
           \<and> edge_source e \<in> tier1_of c (relationships data)
           \<and> endpoints (pick_best l ls) = {edge_source e, w}
           \<and> edge_weight e = map_option py_round2 (jaccard_weight (pick_best l ls))"
proof -
  let ?rs = "relationships data"
  let ?t1 = "tier1_of c ?rs"
  note ok = neighborhood_retrieved_ok [OF nb]
  note idr = neighborhood_ids_ok [OF nb ids]
  note cid = neighborhood_Some(3) [OF nb]
  from links obtain l ls where ll: "tier2_links ?t1 w ?rs = l # ls"
    by (cases "tier2_links ?t1 w ?rs") auto
  then have "l \<in> set (tier2_links ?t1 w ?rs)" by simp
  then have "l \<in> set ?rs" "rel_type l = ''SIMILAR''" "source l = w \<or> target l = w"
    by (auto simp: tier2_links_def)
  with idr have "wf_id w" by (auto simp: ids_ok_def)
  then have wne: "w \<noteq> []" by (simp add: wf_id_def)
  let ?p = "pick_best l ls"
  note f = best_link_facts [OF ok w wne ll]
  have ex: "export_neighborhood_for_visualization st c 2 = export_elements data"
    by (simp add: export_neighborhood_for_visualization_def nb)
  have view: "map edge_view (similar_edges (export_elements data))
                = map (shown c ?t1) (emitted {} (final_edges_of c ?t1 ?rs))"
    using export_similar_view [of data] by (simp only: cid)
  have "map edge_view (filter (touches w \<circ> edge_view) (similar_edges (export_elements data)))
          = [shown c ?t1 ?p]"
    using tier2_shown [OF ok idr w wne ll] by (simp only: filter_map [symmetric] view)
  then obtain e where e: "filter (touches w \<circ> edge_view) (similar_edges (export_elements data)) = [e]"
    and ev: "edge_view e = shown c ?t1 ?p"
    by (auto simp: map_eq_Cons_conv)
  have tw: "(touches w \<circ> edge_view) = (\<lambda>e. edge_source e = w \<or> edge_target e = w)"
    by (auto simp: touches_def edge_view_def)
  from ev have es: "edge_source e = fst (orient c ?t1 ?p)" and et: "edge_target e = snd (orient c ?t1 ?p)"
    and ew: "edge_weight e = map_option py_round2 (jaccard_weight ?p)"
    by (simp_all add: edge_view_def shown_def)
  show ?thesis
  proof (intro exI conjI)
    show "tier2_links ?t1 w ?rs = l # ls" by (rule ll)
    show "filter (\<lambda>e. edge_source e = w \<or> edge_target e = w)
            (similar_edges (export_neighborhood_for_visualization st c 2)) = [e]"
      using e by (simp only: ex tw)
    show "edge_target e = w" using et f(3) by simp
    show "edge_source e \<in> ?t1" using es f(4) by simp
    show "endpoints ?p = {edge_source e, w}" using f(5) es by simp
    show "edge_weight e = map_option py_round2 (jaccard_weight ?p)" by (rule ew)
  qed
qed

text \<open>
  For a store whose protein identifiers are non-empty and hold no hyphen, a second-tier
  node \<open>w\<close> of a depth-2 export (not the centre, not in the first tier, linked to the
  first tier by at least one retrieved relationship, so also by more than one) is touched
  by exactly one \<open>SIMILAR\<close> edge of the output. That edge points from a first-tier node to
  \<open>w\<close>; it is built from a retrieved link \<open>r\<close> between that node and \<open>w\<close> whose weight is
  maximal among all retrieved links between the first tier and \<open>w\<close>, and it carries the
  weight of \<open>r\<close> rounded. Every other link of \<open>w\<close> is absent from the output.
\<close>

lemma tier2_best_edge_plain_ids:
  assumes nb: "get_protein_neighborhood st c 2 = Some data"
      and ids: "store_ids_ok st"
      and w: "w \<notin> tier1_of c (relationships data)" "w \<noteq> c"
      and links: "tier2_links (tier1_of c (relationships data)) w (relationships data) \<noteq> []"
  shows "\<exists>e r. filter (\<lambda>e. edge_source e = w \<or> edge_target e = w)
                  (similar_edges (export_neighborhood_for_visualization st c 2)) = [e]
           \<and> edge_target e = w
           \<and> edge_source e \<in> tier1_of c (relationships data)
           \<and> r \<in> set (tier2_links (tier1_of c (relationships data)) w (relationships data))
           \<and> endpoints r = {edge_source e, w}
           \<and> edge_weight e = map_option py_round2 (jaccard_weight r)
           \<and> (\<forall>r' \<in> set (tier2_links (tier1_of c (relationships data)) w (relationships data)).
                  weight_of r' \<le> weight_of r)"
proof -
  let ?L = "tier2_links (tier1_of c (relationships data)) w (relationships data)"
  from tier2_export_edge [OF assms] obtain e l ls where
    h: "?L = l # ls"
       "filter (\<lambda>e. edge_source e = w \<or> edge_target e = w)
          (similar_edges (export_neighborhood_for_visualization st c 2)) = [e]"
       "edge_target e = w" "edge_source e \<in> tier1_of c (relationships data)"
       "endpoints (pick_best l ls) = {edge_source e, w}"
       "edge_weight e = map_option py_round2 (jaccard_weight (pick_best l ls))"
    by blast
  have m: "pick_best l ls \<in> set ?L" unfolding h(1) by (rule pick_best_mem)
  have mx: "\<forall>r' \<in> set ?L. weight_of r' \<le> weight_of (pick_best l ls)"
    unfolding h(1) by (rule pick_best_max_all)
  from h(2-6) m mx show ?thesis by blast
qed

text \<open>The example of the specification: \<open>W\<close>, reachable through \<open>Y\<close> with weight 0.4 and
  through \<open>Z\<close> with weight 0.6, has exactly one edge, from \<open>Z\<close>.\<close>

lemma tier2_best_edge_example:
  "store_ids_ok depth2_store
   \<and> tier2_links (tier1_of ''X'' (relationships depth2_data)) ''W'' (relationships depth2_data)
       = [similar_rel ''Y'' ''W'' 0.4, similar_rel ''Z'' ''W'' 0.6]
   \<and> filter (\<lambda>e. edge_source e = ''W'' \<or> edge_target e = ''W'')
        (similar_edges (export_neighborhood_for_visualization depth2_store ''X'' 2))
       = [\<lparr> edge_id = ''e_2'', edge_source = ''Z'', edge_target = ''W'',
            edge_type = ''SIMILAR'', edge_weight = Some 0.6 \<rparr>]"
  by code_simp

text \<open>
  C5, as stated, fails: with two links of equal weight into \<open>W\<close>, from \<open>Y\<close> and from \<open>Z\<close>,
  the export keeps the link from \<open>Z\<close> although \<open>Y\<close> is the smaller identifier; the same
  relationships returned in another order give the link from \<open>Y\<close>. And where identifiers
  hold hyphens, no link at all may be left: of the two equal links into \<open>b-a\<close> the one
  from \<open>a-b-a\<close> is retained, and the duplicate check of the output then drops it, its key
  \<open>a-b-a-b-a\<close> being that of the relationship between the centre \<open>a-b\<close> and \<open>a-b-a\<close>.
\<close>

theorem tie_break_counterexample:
  "set (rels tie_store_reordered) = set (rels tie_store)
   \<and> ''Y'' < ''Z''
   \<and> inbound_sources ''W'' (export_neighborhood_for_visualization tie_store ''X'' 2) = [''Z'']
   \<and> inbound_sources ''W'' (export_neighborhood_for_visualization tie_store_reordered ''X'' 2) = [''Y'']
   \<and> ''a-b-a'' < ''c''
   \<and> inbound_sources ''b-a'' (export_neighborhood_for_visualization hyphen_tie_store ''a-b'' 2) = []"
  by code_simp

text \<open>
  C5, amended: in a depth-2 export of a store whose protein identifiers are non-empty
  and hold no hyphen, the single edge kept for a second-tier node \<open>w\<close> is built from the
  first, in the order in which the relationships were retrieved, of the heaviest links
  between the first tier and \<open>w\<close>: every link retrieved before it is strictly lighter,
  every link after it is at most as heavy. Among links of equal weight the one retrieved
  first wins, whatever the identifiers of their first-tier ends; the output depends on
  the order of retrieval.
\<close>

theorem tier2_first_heaviest:
  assumes nb: "get_protein_neighborhood st c 2 = Some data"
      and ids: "store_ids_ok st"
      and w: "w \<notin> tier1_of c (relationships data)" "w \<noteq> c"
      and links: "tier2_links (tier1_of c (relationships data)) w (relationships data) \<noteq> []"
  shows "\<exists>e pre r post.
           filter (\<lambda>e. edge_source e = w \<or> edge_target e = w)
             (similar_edges (export_neighborhood_for_visualization st c 2)) = [e]
           \<and> tier2_links (tier1_of c (relationships data)) w (relationships data) = pre @ r # post
           \<and> endpoints r = {edge_source e, w}
           \<and> (\<forall>r' \<in> set pre. weight_of r' < weight_of r)
           \<and> (\<forall>r' \<in> set post. weight_of r' \<le> weight_of r)"
proof -
  let ?L = "tier2_links (tier1_of c (relationships data)) w (relationships data)"
  from tier2_export_edge [OF assms] obtain e l ls where
    h: "?L = l # ls"
       "filter (\<lambda>e. edge_source e = w \<or> edge_target e = w)
          (similar_edges (export_neighborhood_for_visualization st c 2)) = [e]"
       "endpoints (pick_best l ls) = {edge_source e, w}"
    by blast
  from pick_best_first [of l ls] obtain pre post where
    pp: "l # ls = pre @ pick_best l ls # post"
        "\<forall>r' \<in> set pre. weight_of r' < weight_of (pick_best l ls)"
        "\<forall>r' \<in> set post. weight_of r' \<le> weight_of (pick_best l ls)" by blast
  from h(1) pp(1) have "?L = pre @ pick_best l ls # post" by simp
  with h(2,3) pp(2,3) show ?thesis by blast
qed

theorem tier2_first_heaviest_witness:
  "get_protein_neighborhood tie_store ''X'' 2 = Some tie_data
   \<and> store_ids_ok tie_store
   \<and> ''W'' \<notin> tier1_of ''X'' (relationships tie_data) \<and> ''W'' \<noteq> ''X''
   \<and> tier2_links (tier1_of ''X'' (relationships tie_data)) ''W'' (relationships tie_data)
       = [similar_rel ''Z'' ''W'' 0.3, similar_rel ''Y'' ''W'' 0.3]
   \<and> (\<exists>e pre r post.
           filter (\<lambda>e. edge_source e = ''W'' \<or> edge_target e = ''W'')
             (similar_edges (export_neighborhood_for_visualization tie_store ''X'' 2)) = [e]
           \<and> tier2_links (tier1_of ''X'' (relationships tie_data)) ''W'' (relationships tie_data) = pre @ r # post
           \<and> endpoints r = {edge_source e, ''W''}
           \<and> (\<forall>r' \<in> set pre. weight_of r' < weight_of r)
           \<and> (\<forall>r' \<in> set post. weight_of r' \<le> weight_of r))"
proof -
  have h1: "get_protein_neighborhood tie_store ''X'' 2 = Some tie_data"
    unfolding tie_data_def by code_simp
  have h2: "store_ids_ok tie_store" by code_simp
  have h3: "''W'' \<notin> tier1_of ''X'' (relationships tie_data)" by code_simp
  have h4: "''W'' \<noteq> ''X''" by simp
  have h5: "tier2_links (tier1_of ''X'' (relationships tie_data)) ''W'' (relationships tie_data)
       = [similar_rel ''Z'' ''W'' 0.3, similar_rel ''Y'' ''W'' 0.3]" by code_simp
  then have h5': "tier2_links (tier1_of ''X'' (relationships tie_data)) ''W'' (relationships tie_data) \<noteq> []"
    by simp
  from tier2_first_heaviest [OF h1 h2 h3 h4 h5'] h1 h2 h3 h4 h5 show ?thesis
    by (intro conjI)
qed

section \<open>The kinds of edges of the export\<close>

lemma nodes_of_simps [simp]:
  "nodes_of [] = []"
  "nodes_of (Edges e # els) = nodes_of els"
  "nodes_of (Nodes n # els) = n # nodes_of els"
  by (simp_all add: nodes_of_def List.map_filter_simps)

lemma nodes_of_append [simp]: "nodes_of (xs @ ys) = nodes_of xs @ nodes_of ys"
  by (simp add: nodes_of_def List.map_filter_def)

lemma nodes_of_edge_elements [simp]: "nodes_of (edge_elements c t1 i fes A) = []"
  by (induction fes arbitrary: i A) (auto simp: edge_element_def)

lemma export_edge_kinds:
  assumes ok: "retrieved_ok c rs"
      and r: "r \<in> set (emitted {} (final_edges_of c (tier1_of c rs) rs))"
  shows "(fst (orient c (tier1_of c rs) r) = c \<and> snd (orient c (tier1_of c rs) r) \<in> tier1_of c rs)
         \<or> (fst (orient c (tier1_of c rs) r) \<in> tier1_of c rs
            \<and> snd (orient c (tier1_of c rs) r) \<notin> tier1_of c rs
            \<and> snd (orient c (tier1_of c rs) r) \<noteq> c)"
proof -
  let ?t1 = "tier1_of c rs"
  from r emitted_subset [of "{}" "final_edges_of c ?t1 rs"]
  have m: "r \<in> set (final_edges_of c ?t1 rs)" and s: "rel_type r = ''SIMILAR''" by auto
  from m have "r \<in> set (filter (kept c) rs) \<or> r \<in> set (map rel_of (best_links_of c ?t1 rs))"
    by (simp only: final_edges_of_eq rel_of_case set_append Un_iff)
  then show ?thesis
  proof
    assume "r \<in> set (filter (kept c) rs)"
    with s have "center_incident c r" "r \<in> set rs" by (auto simp: kept_def center_incident_def)
    from kept_orient [OF this] show ?thesis by simp
  next
    assume "r \<in> set (map rel_of (best_links_of c ?t1 rs))"
    then obtain e where e: "e \<in> set (best_links_of c ?t1 rs)" and re: "r = rel_of e" by auto
    note a = best_links_entry [OF ok e]
    note o = candidate_orient [OF a(2) a(4)]
    from o(1,2,3,4) show ?thesis unfolding re by simp
  qed
qed

lemma export_edges_not_lateral:
  assumes nb: "get_protein_neighborhood st c d = Some data"
      and e: "e \<in> set (similar_edges (export_neighborhood_for_visualization st c d))"
  shows "(edge_source e = c \<and> edge_target e \<in> tier1_of c (relationships data))
         \<or> (edge_source e \<in> tier1_of c (relationships data)
            \<and> edge_target e \<notin> tier1_of c (relationships data) \<and> edge_target e \<noteq> c)"
proof -
  let ?rs = "relationships data"
  let ?t1 = "tier1_of c ?rs"
  note ok = neighborhood_retrieved_ok [OF nb]
  note cid = neighborhood_Some(3) [OF nb]
  have ex: "export_neighborhood_for_visualization st c d = export_elements data"
    by (simp add: export_neighborhood_for_visualization_def nb)
  have view: "map edge_view (similar_edges (export_elements data))
                = map (shown c ?t1) (emitted {} (final_edges_of c ?t1 ?rs))"
    using export_similar_view [of data] by (simp only: cid)
  from e have "edge_view e \<in> set (map edge_view (similar_edges (export_elements data)))"
    by (simp add: ex)
  then obtain r where r: "r \<in> set (emitted {} (final_edges_of c ?t1 ?rs))"
    and v: "edge_view e = shown c ?t1 r"
    unfolding view by auto
  from v have "edge_source e = fst (orient c ?t1 r)" "edge_target e = snd (orient c ?t1 r)"
    by (simp_all add: edge_view_def shown_def)
  with export_edge_kinds [OF ok r] show ?thesis by simp
qed

section \<open>The export at depth 1\<close>

lemma edge_key_endpoints: "endpoints r = endpoints r' \<Longrightarrow> edge_key r = edge_key r'"
  by (auto simp: endpoints_def edge_key_def doubleton_eq_iff)

lemma emitted_distinct: "distinct (map edge_key (emitted A rs))"
proof (induction rs arbitrary: A)
  case Nil
  then show ?case by simp
next
  case (Cons r rs)
  have "edge_key r \<notin> edge_key ` set (emitted (insert (edge_key r) A) rs)"
    using emitted_subset [of "insert (edge_key r) A" rs] by auto
  with Cons show ?case by simp
qed

lemma emitted_covers:
  "r \<in> set rs \<Longrightarrow> rel_type r = ''SIMILAR'' \<Longrightarrow> edge_key r \<notin> A
     \<Longrightarrow> \<exists>r' \<in> set (emitted A rs). edge_key r' = edge_key r"
proof (induction rs arbitrary: A)
  case Nil
  then show ?case by simp
next
  case (Cons x xs)
  show ?case
  proof (cases "rel_type x = ''SIMILAR'' \<and> edge_key x = edge_key r")
    case True
    with Cons.prems(3) show ?thesis by simp
  next
    case False
    with Cons.prems have rx: "r \<in> set xs" by auto
    show ?thesis
    proof (cases "rel_type x = ''SIMILAR'' \<and> edge_key x \<notin> A")
      case True
      with False have "edge_key r \<notin> insert (edge_key x) A" using Cons.prems(3) by auto
      from Cons.IH [OF rx Cons.prems(2) this] True show ?thesis by auto
    next
      case False
      from Cons.IH [OF rx Cons.prems(2,3)] False show ?thesis by auto
    qed
  qed
qed

lemma center_endpoints: "center_incident c r \<Longrightarrow> endpoints r = {c, other_end c r}"
  by (auto simp: center_incident_def endpoints_def other_end_def)

lemma distinct_map_transfer:
  assumes "distinct (map g xs)" and "\<And>x y. x \<in> set xs \<Longrightarrow> y \<in> set xs \<Longrightarrow> f x = f y \<Longrightarrow> g x = g y"
  shows "distinct (map f xs)"
proof -
  from assms(1) have d: "distinct xs" and i: "inj_on g (set xs)" by (simp_all add: distinct_map)
  have "inj_on f (set xs)"
  proof (rule inj_onI)
    fix x y assume "x \<in> set xs" "y \<in> set xs" "f x = f y"
    with assms(2) [of x y] i show "x = y" by (simp add: inj_on_def)
  qed
  with d show ?thesis by (simp add: distinct_map)
qed

text \<open>The edges from the centre: one for every direct neighbour.\<close>

lemma center_edges:
  assumes ids: "ids_ok rs"
  shows "distinct (map (other_end c) (emitted {} (filter (kept c) rs)))"
    and "other_end c ` set (emitted {} (filter (kept c) rs)) = tier1_of c rs"
proof -
  let ?E = "emitted {} (filter (kept c) rs)"
  have mem: "r \<in> set rs \<and> center_incident c r" if "r \<in> set ?E" for r
    using kept_emitted_shown(1,2) [OF that] by simp
  show "distinct (map (other_end c) ?E)"
  proof (rule distinct_map_transfer [OF emitted_distinct])
    fix x y assume xy: "x \<in> set ?E" "y \<in> set ?E" "other_end c x = other_end c y"
    from mem [OF xy(1)] mem [OF xy(2)] have "center_incident c x" "center_incident c y" by simp_all
    with xy(3) have "endpoints x = endpoints y" by (simp add: center_endpoints)
    then show "edge_key x = edge_key y" by (rule edge_key_endpoints)
  qed
  show "other_end c ` set ?E = tier1_of c rs"
  proof
    show "other_end c ` set ?E \<subseteq> tier1_of c rs"
      using mem by (auto simp: tier1_of_eq)
  next
    show "tier1_of c rs \<subseteq> other_end c ` set ?E"
    proof
      fix k assume "k \<in> tier1_of c rs"
      then obtain r where r: "r \<in> set rs" "center_incident c r" "k = other_end c r"
        by (auto simp: tier1_of_eq)
      then have rk: "r \<in> set (filter (kept c) rs)" "rel_type r = ''SIMILAR''"
        by (simp_all add: kept_def center_incident_def)
      from emitted_covers [OF rk, of "{}"] obtain r' where
        r': "r' \<in> set ?E" "edge_key r' = edge_key r" by auto
      from mem [OF r'(1)] have m': "r' \<in> set rs" "center_incident c r'" by simp_all
      have "wf_id (source r)" "wf_id (target r)" "wf_id (source r')" "wf_id (target r')"
        using ids r(1) rk(2) m' by (simp_all add: ids_ok_def center_incident_def)
      then have "endpoints r' = endpoints r"
        using r'(2) by (intro edge_key_inj) (simp_all add: wf_id_def)
      then have "{c, other_end c r'} = {c, other_end c r}"
        using r(2) m'(2) by (simp add: center_endpoints)
      then have "other_end c r' = other_end c r" by (auto simp: doubleton_eq_iff)
      then have "k = other_end c r'" using r(3) by simp
      with r'(1) show "k \<in> other_end c ` set ?E" by blast
    qed
  qed
qed

text \<open>At depth 1 every retrieved \<open>SIMILAR\<close> relationship touches the centre, so nothing is
  a candidate for the second tier.\<close>

lemma depth1_rels:
  assumes nb: "get_protein_neighborhood st c 1 = Some data"
      and r: "r \<in> set (relationships data)"
  shows "rel_type r = ''SIMILAR'' \<longrightarrow> center_incident c r" and "\<not> candidate c t1 r"
proof -
  note rel = neighborhood_Some(5) [OF nb refl]
  from r rel have "(\<exists>i. (i, r) \<in> set (similar_of st c)) \<or> rel_type r = ''HAS_DOMAIN''"
    by auto
  then show "rel_type r = ''SIMILAR'' \<longrightarrow> center_incident c r"
  proof
    assume "\<exists>i. (i, r) \<in> set (similar_of st c)"
    then obtain i where "(i, r) \<in> set (similar_of st c)" ..
    from similar_of_mem(1,2) [OF this] show ?thesis by (simp add: center_incident_def)
  next
    assume "rel_type r = ''HAS_DOMAIN''"
    then show ?thesis by simp
  qed
  then show "\<not> candidate c t1 r"
    by (auto simp: candidate_def center_incident_def)
qed

lemma depth1_final:
  assumes nb: "get_protein_neighborhood st c 1 = Some data"
  shows "final_edges_of c t1 (relationships data) = filter (kept c) (relationships data)"
proof -
  have "filter (candidate c t1) (relationships data) = []"
    using depth1_rels(2) [OF nb] by (simp add: filter_empty_conv)
  then show ?thesis
    by (simp add: final_edges_of_eq best_links_of_def best_fold_Nil)
qed

lemma depth1_similar_edges:
  assumes nb: "get_protein_neighborhood st c 1 = Some data" and ids: "store_ids_ok st"
  shows "distinct (map edge_target (similar_edges (export_neighborhood_for_visualization st c 1)))"
    and "edge_target ` set (similar_edges (export_neighborhood_for_visualization st c 1))
           = tier1_of c (relationships data)"
    and "\<forall>e \<in> set (similar_edges (export_neighborhood_for_visualization st c 1)). edge_source e = c"
proof -
  let ?rs = "relationships data"
  let ?t1 = "tier1_of c ?rs"
  let ?E = "emitted {} (filter (kept c) ?rs)"
  let ?out = "similar_edges (export_neighborhood_for_visualization st c 1)"
  note idr = neighborhood_ids_ok [OF nb ids]
  note cid = neighborhood_Some(3) [OF nb]
  have ex: "export_neighborhood_for_visualization st c 1 = export_elements data"
    by (simp add: export_neighborhood_for_visualization_def nb)
  have view: "map edge_view ?out = map (shown c ?t1) ?E"
    using export_similar_view [of data] by (simp only: cid ex depth1_final [OF nb])
  have sh: "map (shown c ?t1) ?E
              = map (\<lambda>r. (c, other_end c r, map_option py_round2 (jaccard_weight r))) ?E"
    using kept_emitted_shown(3) by (intro map_cong) auto
  have "map edge_target ?out = map (fst \<circ> snd) (map edge_view ?out)"
    by (simp add: edge_view_def comp_def)
  also have "\<dots> = map (other_end c) ?E" by (simp only: view sh) (simp add: comp_def)
  finally have tg: "map edge_target ?out = map (other_end c) ?E" .
  have "map edge_source ?out = map fst (map edge_view ?out)"
    by (simp add: edge_view_def comp_def)
  also have "\<dots> = map (\<lambda>r. c) ?E" by (simp only: view sh) (simp add: comp_def)
  finally have sr: "map edge_source ?out = map (\<lambda>r. c) ?E" .
  show "distinct (map edge_target ?out)"
    unfolding tg by (rule center_edges(1) [OF idr])
  have "edge_target ` set ?out = set (map edge_target ?out)" by simp
  also have "\<dots> = other_end c ` set ?E" by (simp only: tg set_map)
  also have "\<dots> = ?t1" by (rule center_edges(2) [OF idr])
  finally show "edge_target ` set ?out = ?t1" .
  have "set (map edge_source ?out) \<subseteq> {c}" unfolding sr by auto
  then show "\<forall>e \<in> set ?out. edge_source e = c" by auto
qed

lemma neighbor_nodes_ids:
  "set (map node_id (nodes_of (neighbor_nodes t1 ns ex))) = uniprot_id ` set ns - ex"
  by (induction ns arbitrary: ex) (auto simp: neighbor_node_def)

lemma neighbor_nodes_distinct:
  "distinct (map node_id (nodes_of (neighbor_nodes t1 ns ex)))"
proof (induction ns arbitrary: ex)
  case Nil
  then show ?case by simp
next
  case (Cons n ns)
  have "uniprot_id n \<notin> set (map node_id (nodes_of (neighbor_nodes t1 ns (insert (uniprot_id n) ex))))"
    by (simp only: neighbor_nodes_ids) simp
  with Cons show ?case by (simp add: neighbor_node_def)
qed

lemma neighbor_nodes_type:
  "n \<in> set (nodes_of (neighbor_nodes t1 ns ex))
     \<Longrightarrow> (node_type n = ''neighbor_d1'') = (node_id n \<in> t1)"
  by (induction ns arbitrary: ex) (auto simp: neighbor_node_def split: if_splits)

lemma tier1_nodes_export:
  "map node_id (tier1_nodes (export_elements data)) =
     filter (\<lambda>k. k \<in> tier1_of (uniprot_id (center_protein data)) (relationships data))
       (map node_id (nodes_of (neighbor_nodes
          (tier1_of (uniprot_id (center_protein data)) (relationships data))
          (neighbors data) {uniprot_id (center_protein data)})))"
proof -
  let ?c = "uniprot_id (center_protein data)"
  let ?t1 = "tier1_of ?c (relationships data)"
  let ?N = "nodes_of (neighbor_nodes ?t1 (neighbors data) {?c})"
  have d: "filter (\<lambda>n. node_type n = ''neighbor_d1'') (nodes_of (map domain_node ds)) = []" for ds
    by (induction ds) (auto simp: domain_node_def)
  have "tier1_nodes (export_elements data) = filter (\<lambda>n. node_type n = ''neighbor_d1'') ?N"
    by (simp add: tier1_nodes_def export_elements_def Let_def center_node_def d)
  also have "\<dots> = filter (\<lambda>n. node_id n \<in> ?t1) ?N"
    using neighbor_nodes_type by (intro filter_cong) auto
  finally show ?thesis by (simp add: filter_map comp_def)
qed

lemma depth1_neighbors:
  assumes nb: "get_protein_neighborhood st c 1 = Some data"
  shows "uniprot_id ` set (neighbors data) = tier1_of c (relationships data)"
proof -
  from nb have r: "reachable st"
    by (simp add: get_protein_neighborhood_def split: if_splits)
  note p = neighborhood_Some(2,3) [OF nb]
  let ?ns = "remdups (List.map_filter (\<lambda>(i, r). find_protein st (other_end c r)) (similar_of st c))"
  have "get_protein_neighborhood st c 1 =
          Some \<lparr> center_protein = center_protein data, neighbors = ?ns,
                 relationships = remdups (map snd (similar_of st c))
                   @ remdups (map (\<lambda>x. has_domain_rel c (interpro_id x)) (domains_of st c)),
                 domains = remdups (domains_of st c), depth = 1 \<rparr>"
    using r p by (simp add: get_protein_neighborhood_def query_depth1_def Let_def)
  with nb have "data = \<lparr> center_protein = center_protein data, neighbors = ?ns,
                 relationships = remdups (map snd (similar_of st c))
                   @ remdups (map (\<lambda>x. has_domain_rel c (interpro_id x)) (domains_of st c)),
                 domains = remdups (domains_of st c), depth = 1 \<rparr>"
    by simp
  then have "neighbors data = neighbors \<lparr> center_protein = center_protein data, neighbors = ?ns,
                 relationships = remdups (map snd (similar_of st c))
                   @ remdups (map (\<lambda>x. has_domain_rel c (interpro_id x)) (domains_of st c)),
                 domains = remdups (domains_of st c), depth = 1 \<rparr>"
    by (rule arg_cong)
  then have n: "neighbors data = ?ns" by simp
  have a: "uniprot_id ` set (neighbors data) = other_end c ` snd ` set (similar_of st c)"
  proof
    show "uniprot_id ` set (neighbors data) \<subseteq> other_end c ` snd ` set (similar_of st c)"
    proof
      fix k assume "k \<in> uniprot_id ` set (neighbors data)"
      then obtain q i r where q: "(i, r) \<in> set (similar_of st c)"
        "find_protein st (other_end c r) = Some q" "k = uniprot_id q"
        unfolding n by (auto simp: List.map_filter_def)
      from find_protein_Some [OF q(2)] q(3) have "k = other_end c (snd (i, r))" by simp
      with q(1) show "k \<in> other_end c ` snd ` set (similar_of st c)" by blast
    qed
  next
    show "other_end c ` snd ` set (similar_of st c) \<subseteq> uniprot_id ` set (neighbors data)"
    proof
      fix k assume "k \<in> other_end c ` snd ` set (similar_of st c)"
      then obtain i r where q: "(i, r) \<in> set (similar_of st c)" "k = other_end c r" by auto
      from similar_of_mem(3) [OF q(1)] have "find_protein st (other_end c r) \<noteq> None"
        by (simp add: find_protein_None)
      then obtain p' where f: "find_protein st (other_end c r) = Some p'"
        by (cases "find_protein st (other_end c r)") simp_all
      from find_protein_Some [OF f] q(2) have k: "k = uniprot_id p'" by simp
      from q(1) f have "p' \<in> set (neighbors data)"
        unfolding n by (force simp: List.map_filter_def)
      with k show "k \<in> uniprot_id ` set (neighbors data)" by blast
    qed
  qed
  note rel = neighborhood_Some(5) [OF nb refl]
  have b: "{r \<in> set (relationships data). center_incident c r} = snd ` set (similar_of st c)"
  proof
    show "{r \<in> set (relationships data). center_incident c r} \<subseteq> snd ` set (similar_of st c)"
    proof
      fix r assume "r \<in> {r \<in> set (relationships data). center_incident c r}"
      then have m: "r \<in> set (relationships data)" and t: "rel_type r = ''SIMILAR''"
        by (simp_all add: center_incident_def)
      from m have "r \<in> set (remdups (map snd (similar_of st c))
           @ remdups (map (\<lambda>x. has_domain_rel c (interpro_id x)) (domains_of st c)))"
        by (simp only: rel)
      with t show "r \<in> snd ` set (similar_of st c)" by auto
    qed
  next
    show "snd ` set (similar_of st c) \<subseteq> {r \<in> set (relationships data). center_incident c r}"
    proof
      fix r assume "r \<in> snd ` set (similar_of st c)"
      then obtain i where i: "(i, r) \<in> set (similar_of st c)" by auto
      from similar_of_mem(1,2) [OF i] have "center_incident c r" by (simp add: center_incident_def)
      moreover from i have "r \<in> set (relationships data)" unfolding rel by force
      ultimately show "r \<in> {r \<in> set (relationships data). center_incident c r}" by simp
    qed
  qed
  show ?thesis by (simp only: a tier1_of_eq b)
qed

lemma depth1_tier1_nodes:
  assumes nb: "get_protein_neighborhood st c 1 = Some data"
  shows "distinct (map node_id (tier1_nodes (export_neighborhood_for_visualization st c 1)))"
    and "set (map node_id (tier1_nodes (export_neighborhood_for_visualization st c 1)))
           = tier1_of c (relationships data) - {c}"
proof -
  note cid = neighborhood_Some(3) [OF nb]
  have ex: "export_neighborhood_for_visualization st c 1 = export_elements data"
    by (simp add: export_neighborhood_for_visualization_def nb)
  show "distinct (map node_id (tier1_nodes (export_neighborhood_for_visualization st c 1)))"
    unfolding ex tier1_nodes_export by (intro distinct_filter neighbor_nodes_distinct)
  show "set (map node_id (tier1_nodes (export_neighborhood_for_visualization st c 1)))
           = tier1_of c (relationships data) - {c}"
    unfolding ex tier1_nodes_export
    by (simp only: set_filter neighbor_nodes_ids cid depth1_neighbors [OF nb]) auto
qed

text \<open>
  In every export, each \<open>SIMILAR\<close> edge of the output either points from the centre to
  a first-tier node, or from a first-tier node to a node that is neither in the first
  tier nor the centre; none joins two first-tier neighbours. In a depth-1 export of a
  store whose identifiers are non-empty and hold no hyphen, and whose centre has exactly
  two neighbours \<open>y\<close> and \<open>z\<close>, the output has exactly two first-tier nodes, \<open>y\<close> and \<open>z\<close>,
  and exactly two \<open>SIMILAR\<close> edges, both from the centre, one to \<open>y\<close> and one to \<open>z\<close>.
\<close>

lemma no_lateral_edges:
  assumes nb: "get_protein_neighborhood st c d = Some data"
  shows "(\<forall>e \<in> set (similar_edges (export_neighborhood_for_visualization st c d)).
            ((edge_source e = c \<and> edge_target e \<in> tier1_of c (relationships data))
             \<or> (edge_source e \<in> tier1_of c (relationships data)
                \<and> edge_target e \<notin> tier1_of c (relationships data) \<and> edge_target e \<noteq> c))
            \<and> \<not> lateral c (tier1_of c (relationships data)) e)
         \<and> (d = 1 \<and> store_ids_ok st \<and> tier1_of c (relationships data) = {y, z}
              \<and> y \<noteq> z \<and> y \<noteq> c \<and> z \<noteq> c \<longrightarrow>
             length (tier1_nodes (export_neighborhood_for_visualization st c d)) = 2
             \<and> node_id ` set (tier1_nodes (export_neighborhood_for_visualization st c d)) = {y, z}
             \<and> length (similar_edges (export_neighborhood_for_visualization st c d)) = 2
             \<and> edge_target ` set (similar_edges (export_neighborhood_for_visualization st c d)) = {y, z}
             \<and> (\<forall>e \<in> set (similar_edges (export_neighborhood_for_visualization st c d)).
                   edge_source e = c))"
proof (intro conjI ballI impI)
  fix e assume e: "e \<in> set (similar_edges (export_neighborhood_for_visualization st c d))"
  from export_edges_not_lateral [OF nb e]
  show k: "(edge_source e = c \<and> edge_target e \<in> tier1_of c (relationships data))
           \<or> (edge_source e \<in> tier1_of c (relationships data)
              \<and> edge_target e \<notin> tier1_of c (relationships data) \<and> edge_target e \<noteq> c)" .
  then show "\<not> lateral c (tier1_of c (relationships data)) e"
    by (auto simp: lateral_def)
next
  assume h: "d = 1 \<and> store_ids_ok st \<and> tier1_of c (relationships data) = {y, z}
              \<and> y \<noteq> z \<and> y \<noteq> c \<and> z \<noteq> c"
  then have d1: "d = 1" and ids: "store_ids_ok st"
    and t: "tier1_of c (relationships data) = {y, z}" and ne: "y \<noteq> z" "y \<noteq> c" "z \<noteq> c"
    by simp_all
  from nb d1 have nb1: "get_protein_neighborhood st c 1 = Some data" by simp
  let ?out = "export_neighborhood_for_visualization st c d"
  note n = depth1_tier1_nodes [OF nb1]
  note s = depth1_similar_edges [OF nb1 ids]
  have ns: "set (map node_id (tier1_nodes ?out)) = {y, z}"
    using n(2) t ne d1 by auto
  then show "node_id ` set (tier1_nodes ?out) = {y, z}" by simp
  have "length (tier1_nodes ?out) = length (map node_id (tier1_nodes ?out))" by simp
  also have "\<dots> = card (set (map node_id (tier1_nodes ?out)))"
    using n(1) d1 by (simp only: distinct_card)
  also have "\<dots> = 2" using ne by (simp only: ns) simp
  finally show "length (tier1_nodes ?out) = 2" .
  show es: "edge_target ` set (similar_edges ?out) = {y, z}"
    using s(2) t d1 by simp
  have "length (similar_edges ?out) = length (map edge_target (similar_edges ?out))" by simp
  also have "\<dots> = card (set (map edge_target (similar_edges ?out)))"
    using s(1) d1 by (simp only: distinct_card)
  also have "\<dots> = 2" using ne es by simp
  finally show "length (similar_edges ?out) = 2" .
next
  fix e
  assume h: "d = 1 \<and> store_ids_ok st \<and> tier1_of c (relationships data) = {y, z}
              \<and> y \<noteq> z \<and> y \<noteq> c \<and> z \<noteq> c"
    and e: "e \<in> set (similar_edges (export_neighborhood_for_visualization st c d))"
  from nb h have nb1: "get_protein_neighborhood st c 1 = Some data" by simp
  from depth1_similar_edges(3) [OF nb1] h e show "edge_source e = c" by simp
qed

text \<open>The example of the specification: the centre \<open>X\<close> with the neighbours \<open>Y\<close> (0.5) and
  \<open>Z\<close> (0.2), which are themselves related.\<close>

lemma no_lateral_edges_example:
  "get_protein_neighborhood depth1_store ''X'' 1 = Some depth1_data
   \<and> store_ids_ok depth1_store
   \<and> tier1_of ''X'' (relationships depth1_data) = {''Y'', ''Z''}
   \<and> export_neighborhood_for_visualization depth1_store ''X'' 1 =
       [Nodes \<lparr> node_id = ''X'', node_label = ''X'', node_full_name = ''N/A'',
                 node_type = ''center'', node_length = Some (PyInt 0) \<rparr>,
        Nodes \<lparr> node_id = ''Y'', node_label = ''Y'', node_full_name = ''N/A'',
                 node_type = ''neighbor_d1'', node_length = Some (PyInt 0) \<rparr>,
        Nodes \<lparr> node_id = ''Z'', node_label = ''Z'', node_full_name = ''N/A'',
                 node_type = ''neighbor_d1'', node_length = Some (PyInt 0) \<rparr>,
        Edges \<lparr> edge_id = ''e_0'', edge_source = ''X'', edge_target = ''Y'',
                 edge_type = ''SIMILAR'', edge_weight = Some 0.5 \<rparr>,
        Edges \<lparr> edge_id = ''e_1'', edge_source = ''X'', edge_target = ''Z'',
                 edge_type = ''SIMILAR'', edge_weight = Some 0.2 \<rparr>]
   \<and> length (tier1_nodes (export_neighborhood_for_visualization depth1_store ''X'' 1)) = 2
   \<and> node_id ` set (tier1_nodes (export_neighborhood_for_visualization depth1_store ''X'' 1)) = {''Y'', ''Z''}
   \<and> length (similar_edges (export_neighborhood_for_visualization depth1_store ''X'' 1)) = 2
   \<and> edge_target ` set (similar_edges (export_neighborhood_for_visualization depth1_store ''X'' 1)) = {''Y'', ''Z''}
   \<and> list_all (\<lambda>e. edge_source e = ''X'' \<and> \<not> lateral ''X'' {''Y'', ''Z''} e)
        (similar_edges (export_neighborhood_for_visualization depth1_store ''X'' 1))"
proof -
  have h1: "get_protein_neighborhood depth1_store ''X'' 1 = Some depth1_data"
    unfolding depth1_data_def by code_simp
  have h2: "store_ids_ok depth1_store" by code_simp
  have h3: "tier1_of ''X'' (relationships depth1_data) = {''Y'', ''Z''}" by code_simp
  have h4: "export_neighborhood_for_visualization depth1_store ''X'' 1 =
       [Nodes \<lparr> node_id = ''X'', node_label = ''X'', node_full_name = ''N/A'',
                 node_type = ''center'', node_length = Some (PyInt 0) \<rparr>,
        Nodes \<lparr> node_id = ''Y'', node_label = ''Y'', node_full_name = ''N/A'',
                 node_type = ''neighbor_d1'', node_length = Some (PyInt 0) \<rparr>,
        Nodes \<lparr> node_id = ''Z'', node_label = ''Z'', node_full_name = ''N/A'',
                 node_type = ''neighbor_d1'', node_length = Some (PyInt 0) \<rparr>,
        Edges \<lparr> edge_id = ''e_0'', edge_source = ''X'', edge_target = ''Y'',
                 edge_type = ''SIMILAR'', edge_weight = Some 0.5 \<rparr>,
        Edges \<lparr> edge_id = ''e_1'', edge_source = ''X'', edge_target = ''Z'',
                 edge_type = ''SIMILAR'', edge_weight = Some 0.2 \<rparr>]" by code_simp
  note t = no_lateral_edges [OF h1, of "''Y''" "''Z''"]
  from t h2 h3 have c: "length (tier1_nodes (export_neighborhood_for_visualization depth1_store ''X'' 1)) = 2
      \<and> node_id ` set (tier1_nodes (export_neighborhood_for_visualization depth1_store ''X'' 1)) = {''Y'', ''Z''}
      \<and> length (similar_edges (export_neighborhood_for_visualization depth1_store ''X'' 1)) = 2
      \<and> edge_target ` set (similar_edges (export_neighborhood_for_visualization depth1_store ''X'' 1)) = {''Y'', ''Z''}"
    by simp
  from t h3 have "list_all (\<lambda>e. edge_source e = ''X'' \<and> \<not> lateral ''X'' {''Y'', ''Z''} e)
        (similar_edges (export_neighborhood_for_visualization depth1_store ''X'' 1))"
    using h2 by (simp add: list_all_iff)
  with h1 h2 h3 h4 c show ?thesis by (intro conjI) simp_all
qed

section \<open>The weight of an output edge\<close>

lemma py_round2_hundredth: "\<exists>n :: int. py_round2 x = of_int n / 100"
  by (auto simp: py_round2_def)

lemma round_half_even_near: "\<bar>of_int (round_half_even y) - y\<bar> \<le> 1 / 2"
proof -
  have a: "of_int \<lfloor>y\<rfloor> \<le> y" and b: "y < of_int \<lfloor>y\<rfloor> + 1" by linarith+
  then show ?thesis by (auto simp: round_half_even_def Let_def)
qed

lemma py_round2_near: "\<bar>py_round2 x - to_double x\<bar> \<le> 1 / 200"
proof -
  have "\<bar>py_round2 x * 100 - to_double x * 100\<bar> \<le> 1 / 2"
    using round_half_even_near [of "to_double x * 100"] by (simp add: py_round2_def)
  then show ?thesis by linarith
qed

text \<open>The examples of the rounding of doubles: 0.175, 0.225, 0.575 and 0.005 are read as
  the doubles nearest to them, which lie below, above, below and above the decimal;
  0.125 is a double and a tie.\<close>

lemma py_round2_examples:
  "map py_round2 [7 / 40, 9 / 40, 23 / 40, 1 / 200, 1 / 8, 3 / 8, 1 / 2]
     = [0.17, 0.23, 0.57, 0.01, 0.12, 0.38, 0.5]
   \<and> to_double (7 / 40) = 6305039478318694 / 2 ^ 55
   \<and> to_double (1 / 8) = 1 / 8"
  by code_simp

lemma orient_ends:
  "orient c t1 rel = (source rel, target rel) \<or> orient c t1 rel = (target rel, source rel)"
  by (auto simp: orient_def)

text \<open>An edge of the output next to the relationship it is built from: same type, the
  end points of the relationship (the target of a \<open>HAS_DOMAIN\<close> prefixed, the ends of
  another relationship possibly swapped), and its weight rounded.\<close>

lemma edge_elements_from:
  "e \<in> set (edges_of (edge_elements c t1 i fes A))
     \<Longrightarrow> \<exists>rel \<in> set fes. edge_type e = rel_type rel
            \<and> (if rel_type rel = ''HAS_DOMAIN''
                then edge_source e = source rel \<and> edge_target e = ''dom_'' @ target rel
                else (edge_source e = source rel \<and> edge_target e = target rel)
                     \<or> (edge_source e = target rel \<and> edge_target e = source rel))
            \<and> edge_weight e = map_option py_round2 (jaccard_weight rel)"
proof (induction fes arbitrary: i A)
  case Nil
  then show ?case by simp
next
  case (Cons rel fes)
  from orient_ends [of c t1 rel] Cons.prems
  have "(edge_type e = rel_type rel
            \<and> (if rel_type rel = ''HAS_DOMAIN''
                then edge_source e = source rel \<and> edge_target e = ''dom_'' @ target rel
                else (edge_source e = source rel \<and> edge_target e = target rel)
                     \<or> (edge_source e = target rel \<and> edge_target e = source rel))
            \<and> edge_weight e = map_option py_round2 (jaccard_weight rel))
        \<or> (\<exists>j B. e \<in> set (edges_of (edge_elements c t1 j fes B)))"
    by (auto simp: edge_element_def split: if_splits)
  then show ?case
  proof
    assume "edge_type e = rel_type rel
            \<and> (if rel_type rel = ''HAS_DOMAIN''
                then edge_source e = source rel \<and> edge_target e = ''dom_'' @ target rel
                else (edge_source e = source rel \<and> edge_target e = target rel)
                     \<or> (edge_source e = target rel \<and> edge_target e = source rel))
            \<and> edge_weight e = map_option py_round2 (jaccard_weight rel)"
    then show ?thesis by (intro bexI [of _ rel]) simp_all
  next
    assume "\<exists>j B. e \<in> set (edges_of (edge_elements c t1 j fes B))"
    then obtain j B where "e \<in> set (edges_of (edge_elements c t1 j fes B))" by blast
    from Cons.IH [OF this] show ?thesis by auto
  qed
qed

lemma final_edges_subset: "set (final_edges_of c t1 rs) \<subseteq> set rs"
proof
  fix r assume "r \<in> set (final_edges_of c t1 rs)"
  then have "r \<in> set (filter (kept c) rs) \<or> r \<in> set (map rel_of (best_links_of c t1 rs))"
    by (simp only: final_edges_of_eq rel_of_case set_append Un_iff)
  then show "r \<in> set rs"
  proof
    assume "r \<in> set (filter (kept c) rs)"
    then show ?thesis by simp
  next
    assume "r \<in> set (map rel_of (best_links_of c t1 rs))"
    then obtain e where e: "e \<in> set (best_links_of c t1 rs)" "r = rel_of e" by auto
    obtain k wt r' where eq: "e = (k, wt, r')" by (cases e)
    from e(1) have "(k, wt, r') \<in> set (best_fold (d2_of c t1) (filter (candidate c t1) rs) [])"
      unfolding eq best_links_of_def .
    from best_entry_mem(1) [OF this] e(2) show ?thesis by (simp add: eq rel_of_def)
  qed
qed

lemma export_edge_from:
  assumes "e \<in> set (edges_of (export_elements data))"
  shows "\<exists>rel \<in> set (relationships data). edge_type e = rel_type rel
            \<and> (if rel_type rel = ''HAS_DOMAIN''
                then edge_source e = source rel \<and> edge_target e = ''dom_'' @ target rel
                else (edge_source e = source rel \<and> edge_target e = target rel)
                     \<or> (edge_source e = target rel \<and> edge_target e = source rel))
            \<and> edge_weight e = map_option py_round2 (jaccard_weight rel)"
proof -
  from assms have "e \<in> set (edges_of (edge_elements (uniprot_id (center_protein data))
      (tier1_of (uniprot_id (center_protein data)) (relationships data)) 0
      (final_edges_of (uniprot_id (center_protein data))
         (tier1_of (uniprot_id (center_protein data)) (relationships data)) (relationships data)) {}))"
    by (simp add: export_elements_def Let_def center_node_def)
  from edge_elements_from [OF this] final_edges_subset show ?thesis by blast
qed

lemma two_candidates:
  assumes "candidate c t1 r1" and "candidate c t1 r2" and "d2_of c t1 r1 = d2_of c t1 r2"
  shows "final_edges_of c t1 [r1, r2] = [if weight_of r2 > weight_of r1 then r2 else r1]"
proof -
  have nk: "\<not> kept c r1" "\<not> kept c r2"
    using assms(1,2) by (auto simp: candidate_def kept_def center_incident_def)
  show ?thesis
    using assms nk by (simp add: final_edges_of_def edge_step_cases)
qed

text \<open>
  C10: every edge of the output is built from a retrieved relationship of the same type
  and with the same end points (the target of a \<open>HAS_DOMAIN\<close> relationship prefixed with
  \<open>dom_\<close>, the two ends of another relationship possibly swapped by the orientation). The
  edge has no weight when that relationship has no \<open>jaccard_weight\<close>, and otherwise its
  weight is that \<open>jaccard_weight\<close> rounded to two decimal places as \<open>round(x, 2)\<close> rounds a
  double: a multiple of 1/100 at most 1/200 away from the double. In the comparison of
  two links into the same second-tier node, a link without \<open>jaccard_weight\<close> counts as 0:
  it loses to a later link of positive weight and keeps its place against a later link
  of weight at most 0.
\<close>

theorem edge_weight_reported:
  assumes nb: "get_protein_neighborhood st c d = Some data"
  shows "(\<forall>e \<in> set (edges_of (export_neighborhood_for_visualization st c d)).
            \<exists>rel \<in> set (relationships data).
               edge_type e = rel_type rel
               \<and> (if rel_type rel = ''HAS_DOMAIN''
                   then edge_source e = source rel \<and> edge_target e = ''dom_'' @ target rel
                   else (edge_source e = source rel \<and> edge_target e = target rel)
                        \<or> (edge_source e = target rel \<and> edge_target e = source rel))
               \<and> (jaccard_weight rel = None \<longrightarrow> edge_weight e = None)
               \<and> (\<forall>w. jaccard_weight rel = Some w \<longrightarrow>
                      edge_weight e = Some (py_round2 w)
                      \<and> (\<exists>n :: int. py_round2 w = of_int n / 100)
                      \<and> \<bar>py_round2 w - to_double w\<bar> \<le> 1 / 200))
         \<and> (\<forall>r1 r2 w2. candidate c t1 r1 \<and> candidate c t1 r2 \<and> d2_of c t1 r1 = d2_of c t1 r2
               \<and> jaccard_weight r1 = None \<and> jaccard_weight r2 = Some w2 \<longrightarrow>
               weight_of r1 = 0
               \<and> final_edges_of c t1 [r1, r2] = [if 0 < w2 then r2 else r1]
               \<and> final_edges_of c t1 [r2, r1] = [if w2 < 0 then r1 else r2])"
proof (intro conjI ballI allI impI)
  fix e assume "e \<in> set (edges_of (export_neighborhood_for_visualization st c d))"
  then have "e \<in> set (edges_of (export_elements data))"
    by (simp add: export_neighborhood_for_visualization_def nb)
  from export_edge_from [OF this] obtain rel where
    r: "rel \<in> set (relationships data)" "edge_type e = rel_type rel"
       "if rel_type rel = ''HAS_DOMAIN''
        then edge_source e = source rel \<and> edge_target e = ''dom_'' @ target rel
        else (edge_source e = source rel \<and> edge_target e = target rel)
             \<or> (edge_source e = target rel \<and> edge_target e = source rel)"
       "edge_weight e = map_option py_round2 (jaccard_weight rel)" by blast
  have w1: "jaccard_weight rel = None \<longrightarrow> edge_weight e = None"
    using r(4) by simp
  have w2: "\<forall>w. jaccard_weight rel = Some w \<longrightarrow>
                      edge_weight e = Some (py_round2 w)
                      \<and> (\<exists>n :: int. py_round2 w = of_int n / 100)
                      \<and> \<bar>py_round2 w - to_double w\<bar> \<le> 1 / 200"
    using r(4) py_round2_hundredth py_round2_near by auto
  show "\<exists>rel \<in> set (relationships data).
               edge_type e = rel_type rel
               \<and> (if rel_type rel = ''HAS_DOMAIN''
                   then edge_source e = source rel \<and> edge_target e = ''dom_'' @ target rel
                   else (edge_source e = source rel \<and> edge_target e = target rel)
                        \<or> (edge_source e = target rel \<and> edge_target e = source rel))
               \<and> (jaccard_weight rel = None \<longrightarrow> edge_weight e = None)
               \<and> (\<forall>w. jaccard_weight rel = Some w \<longrightarrow>
                      edge_weight e = Some (py_round2 w)
                      \<and> (\<exists>n :: int. py_round2 w = of_int n / 100)
                      \<and> \<bar>py_round2 w - to_double w\<bar> \<le> 1 / 200)"
  proof (rule bexI [of _ rel])
    show "rel \<in> set (relationships data)" by (rule r(1))
    from r(2) r(3) w1 w2
    show "edge_type e = rel_type rel
               \<and> (if rel_type rel = ''HAS_DOMAIN''
                   then edge_source e = source rel \<and> edge_target e = ''dom_'' @ target rel
                   else (edge_source e = source rel \<and> edge_target e = target rel)
                        \<or> (edge_source e = target rel \<and> edge_target e = source rel))
               \<and> (jaccard_weight rel = None \<longrightarrow> edge_weight e = None)
               \<and> (\<forall>w. jaccard_weight rel = Some w \<longrightarrow>
                      edge_weight e = Some (py_round2 w)
                      \<and> (\<exists>n :: int. py_round2 w = of_int n / 100)
                      \<and> \<bar>py_round2 w - to_double w\<bar> \<le> 1 / 200)"
      by (intro conjI)
  qed
next
  fix r1 r2 w2
  assume h: "candidate c t1 r1 \<and> candidate c t1 r2 \<and> d2_of c t1 r1 = d2_of c t1 r2
               \<and> jaccard_weight r1 = None \<and> jaccard_weight r2 = Some w2"
  then have w: "weight_of r1 = 0" "weight_of r2 = w2" by (simp_all add: weight_of_def)
  from w show "weight_of r1 = 0" by simp
  from h two_candidates [of c t1 r1 r2] w
  show "final_edges_of c t1 [r1, r2] = [if 0 < w2 then r2 else r1]" by simp
  from h two_candidates [of c t1 r2 r1] w
  show "final_edges_of c t1 [r2, r1] = [if w2 < 0 then r1 else r2]" by simp
qed

theorem edge_weight_reported_witness:
  "get_protein_neighborhood weights_store ''X'' 2 = Some weights_data
   \<and> edges_of (export_neighborhood_for_visualization weights_store ''X'' 2) =
       [\<lparr> edge_id = ''e_0'', edge_source = ''X'', edge_target = ''Y'',
           edge_type = ''SIMILAR'', edge_weight = Some 0.5 \<rparr>,
        \<lparr> edge_id = ''e_1'', edge_source = ''X'', edge_target = ''Z'',
           edge_type = ''SIMILAR'', edge_weight = Some 0.17 \<rparr>,
        \<lparr> edge_id = ''e_2'', edge_source = ''X'', edge_target = ''V'',
           edge_type = ''SIMILAR'', edge_weight = None \<rparr>,
        \<lparr> edge_id = ''e_3'', edge_source = ''Z'', edge_target = ''W'',
           edge_type = ''SIMILAR'', edge_weight = Some 0.12 \<rparr>]
   \<and> candidate ''X'' {''Y'', ''Z'', ''V''} (unweighted_rel ''Y'' ''W'')
   \<and> candidate ''X'' {''Y'', ''Z'', ''V''} (similar_rel ''Z'' ''W'' 0.125)
   \<and> d2_of ''X'' {''Y'', ''Z'', ''V''} (unweighted_rel ''Y'' ''W'')
       = d2_of ''X'' {''Y'', ''Z'', ''V''} (similar_rel ''Z'' ''W'' 0.125)
   \<and> final_edges_of ''X'' {''Y'', ''Z'', ''V''} [unweighted_rel ''Y'' ''W'', similar_rel ''Z'' ''W'' 0.125]
       = [similar_rel ''Z'' ''W'' 0.125]
   \<and> final_edges_of ''X'' {''Y'', ''Z'', ''V''} [similar_rel ''Z'' ''W'' 0.125, unweighted_rel ''Y'' ''W'']
       = [similar_rel ''Z'' ''W'' 0.125]
   \<and> list_all (\<lambda>e. list_ex (\<lambda>rel.
               edge_type e = rel_type rel
               \<and> ((edge_source e = source rel \<and> edge_target e = target rel)
                        \<or> (edge_source e = target rel \<and> edge_target e = source rel))
               \<and> edge_weight e = map_option py_round2 (jaccard_weight rel))
             (relationships weights_data))
        (edges_of (export_neighborhood_for_visualization weights_store ''X'' 2))"
proof -
  have h1: "get_protein_neighborhood weights_store ''X'' 2 = Some weights_data"
    unfolding weights_data_def by code_simp
  have h2: "edges_of (export_neighborhood_for_visualization weights_store ''X'' 2) =
       [\<lparr> edge_id = ''e_0'', edge_source = ''X'', edge_target = ''Y'',
           edge_type = ''SIMILAR'', edge_weight = Some 0.5 \<rparr>,
        \<lparr> edge_id = ''e_1'', edge_source = ''X'', edge_target = ''Z'',
           edge_type = ''SIMILAR'', edge_weight = Some 0.17 \<rparr>,
        \<lparr> edge_id = ''e_2'', edge_source = ''X'', edge_target = ''V'',
           edge_type = ''SIMILAR'', edge_weight = None \<rparr>,
        \<lparr> edge_id = ''e_3'', edge_source = ''Z'', edge_target = ''W'',
           edge_type = ''SIMILAR'', edge_weight = Some 0.12 \<rparr>]" by code_simp
  have h3: "candidate ''X'' {''Y'', ''Z'', ''V''} (unweighted_rel ''Y'' ''W'')" by code_simp
  have h4: "candidate ''X'' {''Y'', ''Z'', ''V''} (similar_rel ''Z'' ''W'' 0.125)" by code_simp
  have h5: "d2_of ''X'' {''Y'', ''Z'', ''V''} (unweighted_rel ''Y'' ''W'')
       = d2_of ''X'' {''Y'', ''Z'', ''V''} (similar_rel ''Z'' ''W'' 0.125)" by code_simp
  have h6: "jaccard_weight (unweighted_rel ''Y'' ''W'') = None"
    "jaccard_weight (similar_rel ''Z'' ''W'' 0.125) = Some 0.125"
    by (simp_all add: unweighted_rel_def similar_rel_def)
  have h7: "list_all (\<lambda>rel. rel_type rel \<noteq> ''HAS_DOMAIN'') (relationships weights_data)"
    by code_simp
  note t = edge_weight_reported [OF h1, of "{''Y'', ''Z'', ''V''}"]
  note t2 = t [THEN conjunct2, rule_format,
      of "unweighted_rel ''Y'' ''W''" "similar_rel ''Z'' ''W'' 0.125" "0.125"]
  from t2 h3 h4 h5 h6
  have f: "final_edges_of ''X'' {''Y'', ''Z'', ''V''} [unweighted_rel ''Y'' ''W'', similar_rel ''Z'' ''W'' 0.125]
       = [similar_rel ''Z'' ''W'' 0.125]
     \<and> final_edges_of ''X'' {''Y'', ''Z'', ''V''} [similar_rel ''Z'' ''W'' 0.125, unweighted_rel ''Y'' ''W'']
       = [similar_rel ''Z'' ''W'' 0.125]"
    by simp
  have "list_all (\<lambda>e. list_ex (\<lambda>rel.
               edge_type e = rel_type rel
               \<and> ((edge_source e = source rel \<and> edge_target e = target rel)
                        \<or> (edge_source e = target rel \<and> edge_target e = source rel))
               \<and> edge_weight e = map_option py_round2 (jaccard_weight rel))
             (relationships weights_data))
        (edges_of (export_neighborhood_for_visualization weights_store ''X'' 2))"
    unfolding list_all_iff list_ex_iff
  proof
    fix e assume "e \<in> set (edges_of (export_neighborhood_for_visualization weights_store ''X'' 2))"
    from t [THEN conjunct1, rule_format, OF this] obtain rel where
      r1: "rel \<in> set (relationships weights_data)" and
      b: "edge_type e = rel_type rel
          \<and> (if rel_type rel = ''HAS_DOMAIN''
              then edge_source e = source rel \<and> edge_target e = ''dom_'' @ target rel
              else (edge_source e = source rel \<and> edge_target e = target rel)
                   \<or> (edge_source e = target rel \<and> edge_target e = source rel))
          \<and> (jaccard_weight rel = None \<longrightarrow> edge_weight e = None)
          \<and> (\<forall>w. jaccard_weight rel = Some w \<longrightarrow>
                 edge_weight e = Some (py_round2 w)
                 \<and> (\<exists>n :: int. py_round2 w = of_int n / 100)
                 \<and> \<bar>py_round2 w - to_double w\<bar> \<le> 1 / 200)"
      by (rule bexE)
    note r = r1 b [THEN conjunct1] b [THEN conjunct2, THEN conjunct1]
      b [THEN conjunct2, THEN conjunct2, THEN conjunct1]
      b [THEN conjunct2, THEN conjunct2, THEN conjunct2]
    from h7 r(1) have "rel_type rel \<noteq> ''HAS_DOMAIN''" by (simp add: list_all_iff)
    with r(3) have ends: "(edge_source e = source rel \<and> edge_target e = target rel)
               \<or> (edge_source e = target rel \<and> edge_target e = source rel)" by simp
    have "edge_weight e = map_option py_round2 (jaccard_weight rel)"
      using r(4,5) by (cases "jaccard_weight rel") simp_all
    with r(1,2) ends
    show "\<exists>rel \<in> set (relationships weights_data).
               edge_type e = rel_type rel
               \<and> ((edge_source e = source rel \<and> edge_target e = target rel)
                        \<or> (edge_source e = target rel \<and> edge_target e = source rel))
               \<and> edge_weight e = map_option py_round2 (jaccard_weight rel)" by blast
  qed
  with h1 h2 h3 h4 h5 f show ?thesis by (intro conjI) simp_all
qed

section \<open>A centre that is not found\<close>

lemma neighborhood_None:
  "(get_protein_neighborhood st c d = None)
     = (\<not> reachable st \<or> c \<notin> uniprot_id ` set (protein_nodes st))"
  by (auto simp: get_protein_neighborhood_def find_protein_None [symmetric] Let_def
           split: option.splits prod.splits)

lemma export_elements_nonempty: "export_elements data \<noteq> []"
  by (simp add: export_elements_def Let_def)

lemma export_Nil:
  "(export_neighborhood_for_visualization st c d = []) = (get_protein_neighborhood st c d = None)"
  by (simp add: export_neighborhood_for_visualization_def export_elements_nonempty
           split: option.splits)

lemma no_neighbors_paths: "similar_of st c = [] \<Longrightarrow> paths_from st c = []"
  by (simp add: paths_from_def)

lemma no_neighbors_data:
  assumes nb: "get_protein_neighborhood st c d = Some data" and z: "similar_of st c = []"
  shows "neighbors data = []"
    and "relationships data
           = remdups (map (\<lambda>x. has_domain_rel c (interpro_id x)) (domains_of st c))"
    and "domains data = remdups (domains_of st c)"
proof -
  from nb have r: "reachable st"
    by (simp add: get_protein_neighborhood_def split: if_splits)
  note p = neighborhood_Some(2,3) [OF nb]
  have "get_protein_neighborhood st c d =
          Some \<lparr> center_protein = center_protein data, neighbors = [],
                 relationships = remdups (map (\<lambda>x. has_domain_rel c (interpro_id x)) (domains_of st c)),
                 domains = remdups (domains_of st c), depth = d \<rparr>"
    using r p z
    by (simp add: get_protein_neighborhood_def query_depth1_def query_depth2_def Let_def
          no_neighbors_paths List.map_filter_simps)
  with nb have eq: "data = \<lparr> center_protein = center_protein data, neighbors = [],
                 relationships = remdups (map (\<lambda>x. has_domain_rel c (interpro_id x)) (domains_of st c)),
                 domains = remdups (domains_of st c), depth = d \<rparr>"
    by simp
  have "neighbors data = neighbors \<lparr> center_protein = center_protein data, neighbors = [],
                 relationships = remdups (map (\<lambda>x. has_domain_rel c (interpro_id x)) (domains_of st c)),
                 domains = remdups (domains_of st c), depth = d \<rparr>"
    using eq by (rule arg_cong)
  then show "neighbors data = []" by simp
  have "relationships data = relationships \<lparr> center_protein = center_protein data, neighbors = [],
                 relationships = remdups (map (\<lambda>x. has_domain_rel c (interpro_id x)) (domains_of st c)),
                 domains = remdups (domains_of st c), depth = d \<rparr>"
    using eq by (rule arg_cong)
  then show "relationships data
           = remdups (map (\<lambda>x. has_domain_rel c (interpro_id x)) (domains_of st c))" by simp
  have "domains data = domains \<lparr> center_protein = center_protein data, neighbors = [],
                 relationships = remdups (map (\<lambda>x. has_domain_rel c (interpro_id x)) (domains_of st c)),
                 domains = remdups (domains_of st c), depth = d \<rparr>"
    using eq by (rule arg_cong)
  then show "domains data = remdups (domains_of st c)" by simp
qed

lemma no_neighbors_export:
  assumes nb: "get_protein_neighborhood st c d = Some data" and z: "similar_of st c = []"
  shows "nodes_of (export_neighborhood_for_visualization st c d)
           = (case center_node (center_protein data) of Nodes n \<Rightarrow> n # nodes_of (map domain_node (domains data)))"
    and "similar_edges (export_neighborhood_for_visualization st c d) = []"
proof -
  note nd = no_neighbors_data [OF nb z]
  have ex: "export_neighborhood_for_visualization st c d = export_elements data"
    by (simp add: export_neighborhood_for_visualization_def nb)
  show "nodes_of (export_neighborhood_for_visualization st c d)
           = (case center_node (center_protein data) of Nodes n \<Rightarrow> n # nodes_of (map domain_node (domains data)))"
    by (simp add: ex export_elements_def Let_def nd(1) center_node_def)
  have "\<forall>e \<in> set (edges_of (export_elements data)). edge_type e \<noteq> ''SIMILAR''"
  proof
    fix e assume "e \<in> set (edges_of (export_elements data))"
    from export_edge_from [OF this] obtain rel where
      "rel \<in> set (relationships data)" "edge_type e = rel_type rel" by blast
    then show "edge_type e \<noteq> ''SIMILAR''" unfolding nd(2) by auto
  qed
  then show "similar_edges (export_neighborhood_for_visualization st c d) = []"
    by (simp add: ex similar_edges_def filter_empty_conv)
qed

text \<open>
  C8, as stated, fails twice. A centre that exists and has no neighbour, but has a
  domain, comes back with a relationship list and an edge list that are not empty: they
  hold the \<open>HAS_DOMAIN\<close> relationship of the centre. And when the session raises, the
  same centre comes back as the empty dictionary and the empty list, which is the result
  for a centre that is not found.
\<close>

theorem zero_neighbors_edges_counterexample:
  "similar_of lonely_store ''X'' = []
   \<and> map_option neighbors (get_protein_neighborhood lonely_store ''X'' 1) = Some []
   \<and> map_option relationships (get_protein_neighborhood lonely_store ''X'' 1)
       = Some [has_domain_rel ''X'' ''IPR1'']
   \<and> edges_of (export_neighborhood_for_visualization lonely_store ''X'' 1)
       = [\<lparr> edge_id = ''e_0'', edge_source = ''X'', edge_target = ''dom_IPR1'',
            edge_type = ''HAS_DOMAIN'', edge_weight = None \<rparr>]
   \<and> find_protein unreachable_store ''X'' = Some (new_protein ''X'')
   \<and> similar_of unreachable_store ''X'' = []
   \<and> get_protein_neighborhood unreachable_store ''X'' 1 = None
   \<and> export_neighborhood_for_visualization unreachable_store ''X'' 1 = []
   \<and> get_protein_neighborhood unreachable_store ''Q'' 1 = None
   \<and> export_neighborhood_for_visualization unreachable_store ''Q'' 1 = []"
  by code_simp

text \<open>
  C8, amended: for every store, centre identifier and depth, the neighbourhood query
  returns the empty dictionary, and the export the empty list, exactly when no protein
  has that identifier or the store cannot be reached (the exception of the session is
  caught and the same empty result returned). When the store answers, a centre that
  exists and has no \<open>SIMILAR\<close> relationship gives another result: the query returns the
  populated centre node with an empty neighbour list and no \<open>SIMILAR\<close> relationship;
  its relationship list holds the \<open>HAS_DOMAIN\<close> relationships of the centre only, and the
  export holds the centre node, the domain nodes and no \<open>SIMILAR\<close> edge.
\<close>

theorem not_found_distinguishable:
  "((get_protein_neighborhood st c d = None)
       = (\<not> reachable st \<or> c \<notin> uniprot_id ` set (protein_nodes st)))
   \<and> ((export_neighborhood_for_visualization st c d = [])
       = (\<not> reachable st \<or> c \<notin> uniprot_id ` set (protein_nodes st)))
   \<and> (reachable st \<and> c \<in> uniprot_id ` set (protein_nodes st) \<and> similar_of st c = [] \<longrightarrow>
        (\<exists>data. get_protein_neighborhood st c d = Some data
           \<and> export_neighborhood_for_visualization st c d \<noteq> []
           \<and> center_protein data \<in> set (protein_nodes st)
           \<and> uniprot_id (center_protein data) = c
           \<and> neighbors data = []
           \<and> filter (\<lambda>x. rel_type x = ''SIMILAR'') (relationships data) = []
           \<and> relationships data
                = remdups (map (\<lambda>x. has_domain_rel c (interpro_id x)) (domains_of st c))
           \<and> hd (export_neighborhood_for_visualization st c d) = center_node (center_protein data)
           \<and> nodes_of (export_neighborhood_for_visualization st c d)
                = nodes_of (center_node (center_protein data) # map domain_node (domains data))
           \<and> similar_edges (export_neighborhood_for_visualization st c d) = []))"
proof (intro conjI impI)
  show a: "(get_protein_neighborhood st c d = None)
             = (\<not> reachable st \<or> c \<notin> uniprot_id ` set (protein_nodes st))"
    by (rule neighborhood_None)
  show b: "(export_neighborhood_for_visualization st c d = [])
             = (\<not> reachable st \<or> c \<notin> uniprot_id ` set (protein_nodes st))"
    by (simp only: export_Nil a)
  assume h: "reachable st \<and> c \<in> uniprot_id ` set (protein_nodes st) \<and> similar_of st c = []"
  with a obtain data where nb: "get_protein_neighborhood st c d = Some data"
    by (cases "get_protein_neighborhood st c d") auto
  from h have z: "similar_of st c = []" by simp
  note nd = no_neighbors_data [OF nb z]
  note ne = no_neighbors_export [OF nb z]
  note p = neighborhood_Some(2,3) [OF nb]
  have ex: "export_neighborhood_for_visualization st c d = export_elements data"
    by (simp add: export_neighborhood_for_visualization_def nb)
  show "\<exists>data. get_protein_neighborhood st c d = Some data
           \<and> export_neighborhood_for_visualization st c d \<noteq> []
           \<and> center_protein data \<in> set (protein_nodes st)
           \<and> uniprot_id (center_protein data) = c
           \<and> neighbors data = []
           \<and> filter (\<lambda>x. rel_type x = ''SIMILAR'') (relationships data) = []
           \<and> relationships data
                = remdups (map (\<lambda>x. has_domain_rel c (interpro_id x)) (domains_of st c))
           \<and> hd (export_neighborhood_for_visualization st c d) = center_node (center_protein data)
           \<and> nodes_of (export_neighborhood_for_visualization st c d)
                = nodes_of (center_node (center_protein data) # map domain_node (domains data))
           \<and> similar_edges (export_neighborhood_for_visualization st c d) = []"
  proof (intro exI [of _ data] conjI)
    show "get_protein_neighborhood st c d = Some data" by (rule nb)
    show "export_neighborhood_for_visualization st c d \<noteq> []"
      using b h by simp
    show "center_protein data \<in> set (protein_nodes st)"
      using find_protein_Some [OF p(1)] by simp
    show "uniprot_id (center_protein data) = c" by (rule p(2))
    show "neighbors data = []" by (rule nd(1))
    show "filter (\<lambda>x. rel_type x = ''SIMILAR'') (relationships data) = []"
      unfolding nd(2) by (auto simp: filter_empty_conv)
    show "relationships data
            = remdups (map (\<lambda>x. has_domain_rel c (interpro_id x)) (domains_of st c))"
      by (rule nd(2))
    show "hd (export_neighborhood_for_visualization st c d) = center_node (center_protein data)"
      by (simp add: ex export_elements_def Let_def)
    show "nodes_of (export_neighborhood_for_visualization st c d)
            = nodes_of (center_node (center_protein data) # map domain_node (domains data))"
      by (simp add: ne(1) center_node_def)
    show "similar_edges (export_neighborhood_for_visualization st c d) = []" by (rule ne(2))
  qed
qed

theorem not_found_distinguishable_witness:
  "reachable lonely_store
   \<and> get_protein_neighborhood lonely_store ''Q'' 1 = None
   \<and> export_neighborhood_for_visualization lonely_store ''Q'' 1 = []
   \<and> get_protein_neighborhood unreachable_store ''X'' 1 = None
   \<and> export_neighborhood_for_visualization unreachable_store ''X'' 1 = []
   \<and> ''X'' \<in> uniprot_id ` set (protein_nodes lonely_store) \<and> similar_of lonely_store ''X'' = []
   \<and> export_neighborhood_for_visualization lonely_store ''X'' 1 =
       [Nodes \<lparr> node_id = ''X'', node_label = ''X'', node_full_name = ''N/A'',
                 node_type = ''center'', node_length = Some (PyInt 0) \<rparr>,
        Nodes \<lparr> node_id = ''dom_IPR1'', node_label = ''IPR1'', node_full_name = ''IPR1'',
                 node_type = ''domain'', node_length = None \<rparr>,
        Edges \<lparr> edge_id = ''e_0'', edge_source = ''X'', edge_target = ''dom_IPR1'',
                 edge_type = ''HAS_DOMAIN'', edge_weight = None \<rparr>]
   \<and> (\<exists>data. get_protein_neighborhood lonely_store ''X'' 1 = Some data
         \<and> uniprot_id (center_protein data) = ''X''
         \<and> neighbors data = []
         \<and> filter (\<lambda>x. rel_type x = ''SIMILAR'') (relationships data) = []
         \<and> similar_edges (export_neighborhood_for_visualization lonely_store ''X'' 1) = [])"
proof -
  have h1: "reachable lonely_store" by code_simp
  have h2: "''X'' \<in> uniprot_id ` set (protein_nodes lonely_store)" by code_simp
  have h3: "similar_of lonely_store ''X'' = []" by code_simp
  have h4: "''Q'' \<notin> uniprot_id ` set (protein_nodes lonely_store)" by code_simp
  have h5: "export_neighborhood_for_visualization lonely_store ''X'' 1 =
       [Nodes \<lparr> node_id = ''X'', node_label = ''X'', node_full_name = ''N/A'',
                 node_type = ''center'', node_length = Some (PyInt 0) \<rparr>,
        Nodes \<lparr> node_id = ''dom_IPR1'', node_label = ''IPR1'', node_full_name = ''IPR1'',
                 node_type = ''domain'', node_length = None \<rparr>,
        Edges \<lparr> edge_id = ''e_0'', edge_source = ''X'', edge_target = ''dom_IPR1'',
                 edge_type = ''HAS_DOMAIN'', edge_weight = None \<rparr>]" by code_simp
  have h6: "\<not> reachable unreachable_store" by (simp add: unreachable_store_def)
  note q = not_found_distinguishable [of lonely_store "''Q''" 1]
  note x = not_found_distinguishable [of lonely_store "''X''" 1]
  note u = not_found_distinguishable [of unreachable_store "''X''" 1]
  from q h4 have n: "get_protein_neighborhood lonely_store ''Q'' 1 = None"
    "export_neighborhood_for_visualization lonely_store ''Q'' 1 = []" by simp_all
  from u h6 have m: "get_protein_neighborhood unreachable_store ''X'' 1 = None"
    "export_neighborhood_for_visualization unreachable_store ''X'' 1 = []" by simp_all
  from x h1 h2 h3 have "\<exists>data. get_protein_neighborhood lonely_store ''X'' 1 = Some data
         \<and> uniprot_id (center_protein data) = ''X''
         \<and> neighbors data = []
         \<and> filter (\<lambda>x. rel_type x = ''SIMILAR'') (relationships data) = []
         \<and> similar_edges (export_neighborhood_for_visualization lonely_store ''X'' 1) = []"
    by blast
  with h1 h2 h3 h5 n m show ?thesis by (intro conjI)
qed

section \<open>The steps of the rebuild\<close>

lemma bind_Inr [simp]: "bind (Inr x) f = f x"
  by (simp add: bind_def)

lemma bind_Inl [simp]: "bind (Inl e) f = Inl e"
  by (simp add: bind_def)

lemma session_run_reachable [simp]:
  "reachable st \<Longrightarrow> session_run q st = Inr (st\<lparr>journal := journal st @ [q]\<rparr>)"
  by (simp add: session_run_def)

lemma session_run_unreachable [simp]:
  "\<not> reachable st \<Longrightarrow> session_run q st = Inl ServiceUnavailable"
  by (simp add: session_run_def)

lemma clean_previous_data_ok:
  assumes "reachable st"
  shows "\<exists>st'. clean_previous_data st = Inr st' \<and> reachable st'
           \<and> journal st' = journal st @ [DeleteRelationships RELATIONSHIP_TYPE, GraphDropIfExists GRAPH_NAME]
           \<and> rels st' = filter (\<lambda>r. rel_type r \<noteq> RELATIONSHIP_TYPE) (rels st)
           \<and> protein_nodes st' = protein_nodes st \<and> domain_nodes st' = domain_nodes st
           \<and> gds_catalog st' = None"
  using assms by (simp add: clean_previous_data_def)

lemma project_graph_ok:
  assumes "reachable st" and "gds_catalog st = None"
  shows "\<exists>st'. project_graph st = Inr st' \<and> reachable st'
           \<and> journal st' = journal st @ [GraphProject GRAPH_NAME]
           \<and> rels st' = rels st
           \<and> protein_nodes st' = protein_nodes st \<and> domain_nodes st' = domain_nodes st
           \<and> gds_catalog st' = Some (project st)"
  using assms by (simp add: project_graph_def gds_graph_project_def project_def)

lemma run_gds_similarity_ok:
  assumes "reachable st" and "gds_catalog st = Some g"
  shows "\<exists>st'. run_gds_similarity gds st threshold = Inr st' \<and> reachable st'
           \<and> journal st' = journal st @ [NodeSimilarityWrite GRAPH_NAME]
           \<and> rels st' = rels st @ gds g (node_similarity_config threshold)
           \<and> protein_nodes st' = protein_nodes st \<and> domain_nodes st' = domain_nodes st
           \<and> gds_catalog st' = Some g"
  using assms by (simp add: run_gds_similarity_def)

lemma drop_graph_projection_ok:
  assumes "reachable st" and "gds_catalog st = Some g"
  shows "\<exists>st'. drop_graph_projection st = Inr st' \<and> reachable st'
           \<and> journal st' = journal st @ [GraphDrop GRAPH_NAME]
           \<and> rels st' = rels st
           \<and> protein_nodes st' = protein_nodes st \<and> domain_nodes st' = domain_nodes st
           \<and> gds_catalog st' = None"
  using assms by (simp add: drop_graph_projection_def)

lemma precalculate_domain_counts_ok:
  assumes "reachable st"
  shows "\<exists>st'. precalculate_domain_counts st = Inr st' \<and> reachable st'
           \<and> journal st' = journal st @ [SetDomainCount]
           \<and> rels st' = rels st
           \<and> protein_nodes st' =
                map (\<lambda>p. p\<lparr> domain_count := Some (count_has_domain (rels st) (uniprot_id p)) \<rparr>)
                    (protein_nodes st)
           \<and> domain_nodes st' = domain_nodes st
           \<and> gds_catalog st' = gds_catalog st"
  using assms by (simp add: precalculate_domain_counts_def)

lemma calculate_shared_union_domains_math_ok:
  assumes "reachable st"
  shows "\<exists>st'. calculate_shared_union_domains_math st = Inr st' \<and> reachable st'
           \<and> journal st' = journal st @ [SetSharedUnionDomains]
           \<and> rels st' = map (set_shared_union (st\<lparr>journal := journal st @ [SetSharedUnionDomains]\<rparr>)) (rels st)
           \<and> protein_nodes st' = protein_nodes st \<and> domain_nodes st' = domain_nodes st
           \<and> gds_catalog st' = gds_catalog st"
  using assms by (simp add: calculate_shared_union_domains_math_def)

lemma set_shared_union_keeps:
  "rel_type (set_shared_union st r) = rel_type r"
  "jaccard_weight (set_shared_union st r) = jaccard_weight r"
  "source (set_shared_union st r) = source r"
  "target (set_shared_union st r) = target r"
  by (auto simp: set_shared_union_def split: option.splits)

text \<open>The whole rebuild on a reachable store: it succeeds, and the store it leaves.\<close>

lemma build_ok:
  assumes "reachable st"
  shows "\<exists>st' enrich. build_similarity_edges_gds_math gds st = Inr st' \<and> reachable st'
           \<and> journal st' = journal st @ build_statements
           \<and> rels st' = map enrich
                (filter (\<lambda>r. rel_type r \<noteq> RELATIONSHIP_TYPE) (rels st)
                 @ gds (project (st\<lparr> rels := filter (\<lambda>r. rel_type r \<noteq> RELATIONSHIP_TYPE) (rels st) \<rparr>))
                       (node_similarity_config MIN_JACCARD_WEIGHT))
           \<and> (\<forall>r. rel_type (enrich r) = rel_type r \<and> jaccard_weight (enrich r) = jaccard_weight r
                    \<and> source (enrich r) = source r \<and> target (enrich r) = target r)
           \<and> gds_catalog st' = None"
proof -
  from clean_previous_data_ok [OF assms] obtain s1 where
    s1: "clean_previous_data st = Inr s1" "reachable s1"
        "journal s1 = journal st @ [DeleteRelationships RELATIONSHIP_TYPE, GraphDropIfExists GRAPH_NAME]"
        "rels s1 = filter (\<lambda>r. rel_type r \<noteq> RELATIONSHIP_TYPE) (rels st)"
        "protein_nodes s1 = protein_nodes st" "domain_nodes s1 = domain_nodes st"
        "gds_catalog s1 = None" by blast
  from project_graph_ok [OF s1(2) s1(7)] obtain s2 where
    s2: "project_graph s1 = Inr s2" "reachable s2"
        "journal s2 = journal s1 @ [GraphProject GRAPH_NAME]" "rels s2 = rels s1"
        "protein_nodes s2 = protein_nodes s1" "domain_nodes s2 = domain_nodes s1"
        "gds_catalog s2 = Some (project s1)" by blast
  from run_gds_similarity_ok [OF s2(2) s2(7), of gds MIN_JACCARD_WEIGHT] obtain s3 where
    s3: "run_gds_similarity gds s2 MIN_JACCARD_WEIGHT = Inr s3" "reachable s3"
        "journal s3 = journal s2 @ [NodeSimilarityWrite GRAPH_NAME]"
        "rels s3 = rels s2 @ gds (project s1) (node_similarity_config MIN_JACCARD_WEIGHT)"
        "protein_nodes s3 = protein_nodes s2" "domain_nodes s3 = domain_nodes s2"
        "gds_catalog s3 = Some (project s1)" by blast
  from drop_graph_projection_ok [OF s3(2) s3(7)] obtain s4 where
    s4: "drop_graph_projection s3 = Inr s4" "reachable s4"
        "journal s4 = journal s3 @ [GraphDrop GRAPH_NAME]" "rels s4 = rels s3"
        "protein_nodes s4 = protein_nodes s3" "domain_nodes s4 = domain_nodes s3"
        "gds_catalog s4 = None" by blast
  from precalculate_domain_counts_ok [OF s4(2)] obtain s5 where
    s5: "precalculate_domain_counts s4 = Inr s5" "reachable s5"
        "journal s5 = journal s4 @ [SetDomainCount]" "rels s5 = rels s4"
        "gds_catalog s5 = gds_catalog s4" by blast
  from calculate_shared_union_domains_math_ok [OF s5(2)] obtain s6 where
    s6: "calculate_shared_union_domains_math s5 = Inr s6" "reachable s6"
        "journal s6 = journal s5 @ [SetSharedUnionDomains]"
        "rels s6 = map (set_shared_union (s5\<lparr>journal := journal s5 @ [SetSharedUnionDomains]\<rparr>)) (rels s5)"
        "gds_catalog s6 = gds_catalog s5" by blast
  have run: "build_similarity_edges_gds_math gds st = Inr s6"
    by (simp add: build_similarity_edges_gds_math_def s1(1) s2(1) s3(1) s4(1) s5(1) s6(1))
  have pr: "project s1 = project (st\<lparr> rels := filter (\<lambda>r. rel_type r \<noteq> RELATIONSHIP_TYPE) (rels st) \<rparr>)"
    by (simp add: project_def s1(4,5,6))
  let ?enrich = "set_shared_union (s5\<lparr>journal := journal s5 @ [SetSharedUnionDomains]\<rparr>)"
  show ?thesis
  proof (intro exI [of _ s6] exI [of _ ?enrich] conjI)
    show "build_similarity_edges_gds_math gds st = Inr s6" by (rule run)
    show "reachable s6" by (rule s6(2))
    show "journal s6 = journal st @ build_statements"
      by (simp add: s6(3) s5(3) s4(3) s3(3) s2(3) s1(3) build_statements_def)
    show "rels s6 = map ?enrich
                (filter (\<lambda>r. rel_type r \<noteq> RELATIONSHIP_TYPE) (rels st)
                 @ gds (project (st\<lparr> rels := filter (\<lambda>r. rel_type r \<noteq> RELATIONSHIP_TYPE) (rels st) \<rparr>))
                       (node_similarity_config MIN_JACCARD_WEIGHT))"
      by (simp only: s6(4) s5(4) s4(4) s3(4) s2(4) s1(4) pr)
    show "\<forall>r. rel_type (?enrich r) = rel_type r \<and> jaccard_weight (?enrich r) = jaccard_weight r
                    \<and> source (?enrich r) = source r \<and> target (?enrich r) = target r"
      by (simp add: set_shared_union_keeps)
    show "gds_catalog s6 = None" by (simp add: s6(5) s5(5) s4(7))
  qed
qed

section \<open>The order of the rebuild\<close>

lemma import_interpro_keeps [simp]:
  "reachable (import_interpro p d st) = reachable st"
  "journal (import_interpro p d st) = journal st"
  "gds_catalog (import_interpro p d st) = gds_catalog st"
  by (simp_all add: import_interpro_def)

lemma fold_import_interpro_keeps [simp]:
  "reachable (fold (import_interpro p) ds st) = reachable st"
  "journal (fold (import_interpro p) ds st) = journal st"
  "gds_catalog (fold (import_interpro p) ds st) = gds_catalog st"
  by (induction ds arbitrary: st) simp_all

lemma import_one_keeps [simp]:
  "reachable (import_one r st) = reachable st"
  "journal (import_one r st) = journal st"
  "gds_catalog (import_one r st) = gds_catalog st"
  by (simp_all add: import_one_def)

lemma fold_import_one_keeps [simp]:
  "reachable (fold import_one rs st) = reachable st"
  "journal (fold import_one rs st) = journal st"
  "gds_catalog (fold import_one rs st) = gds_catalog st"
  by (induction rs arbitrary: st) simp_all

lemma import_batch_ok:
  assumes "reachable st"
  shows "\<exists>st'. import_batch st batch = Inr st' \<and> reachable st'
           \<and> journal st' = journal st @ [ImportBatch (length batch)]"
  using assms by (simp add: import_batch_def)

lemma import_loop_ok:
  assumes "reachable st"
  shows "\<exists>st' js. import_loop ds batch st = Inr st' \<and> reachable st'
           \<and> journal st' = journal st @ js \<and> (\<forall>q \<in> set js. is_import_batch q)"
  using assms
proof (induction ds arbitrary: batch st)
  case Nil
  show ?case
  proof (cases "batch = []")
    case True
    with Nil show ?thesis by (intro exI [of _ st] exI [of _ "[]"]) simp
  next
    case False
    from import_batch_ok [OF Nil, of batch] obtain st' where
      "import_batch st batch = Inr st'" "reachable st'"
      "journal st' = journal st @ [ImportBatch (length batch)]" by blast
    with False show ?thesis
      by (intro exI [of _ st'] exI [of _ "[ImportBatch (length batch)]"])
         (simp add: is_import_batch_def)
  qed
next
  case (Cons d ds)
  show ?case
  proof (cases "doc_key d = []")
    case True
    with Cons.IH [OF Cons.prems, of batch] show ?thesis by simp
  next
    case False
    let ?b = "batch @ [doc_row d]"
    show ?thesis
    proof (cases "length ?b \<ge> IMPORT_BATCH_SIZE")
      case True
      from import_batch_ok [OF Cons.prems, of ?b] obtain s1 where
        s1: "import_batch st ?b = Inr s1" "reachable s1"
            "journal s1 = journal st @ [ImportBatch (length ?b)]" by blast
      from Cons.IH [OF s1(2), of "[]"] obtain st' js where
        r: "import_loop ds [] s1 = Inr st'" "reachable st'" "journal st' = journal s1 @ js"
           "\<forall>q \<in> set js. is_import_batch q" by blast
      have "import_loop (d # ds) batch st = Inr st'"
        using False True s1(1) r(1) by (simp add: Let_def)
      with r s1(3) show ?thesis
        by (intro exI [of _ st'] exI [of _ "ImportBatch (length ?b) # js"])
           (simp add: is_import_batch_def)
    next
      case b: False
      from Cons.IH [OF Cons.prems, of ?b] obtain st' js where
        r: "import_loop ds ?b st = Inr st'" "reachable st'" "journal st' = journal st @ js"
           "\<forall>q \<in> set js. is_import_batch q" by blast
      have "import_loop (d # ds) batch st = Inr st'"
        using False b r(1) by (simp add: Let_def)
      with r show ?thesis by blast
    qed
  qed
qed

lemma import_ok:
  assumes "reachable st"
  shows "\<exists>st' js. import_proteins_and_domains col st = Inr st' \<and> reachable st'
           \<and> journal st' = journal st @ import_statements @ js
           \<and> (\<forall>q \<in> set js. is_import_batch q)"
proof -
  let ?s = "st\<lparr>journal := journal st @ import_statements\<rparr>"
  have r: "reachable ?s" using assms by simp
  have "import_proteins_and_domains col st = import_loop col [] ?s"
    using assms by (simp add: import_proteins_and_domains_def import_statements_def)
  with import_loop_ok [OF r, of col "[]"] show ?thesis by auto
qed

text \<open>
  C1, as stated, fails: in a run of the main program on two proteins that share a
  domain, the statement that recomputes \<open>domain_count\<close> is sent after the similarity
  procedure has written its relationships; when the relationships are written, no
  protein has a \<open>domain_count\<close> yet.
\<close>

theorem domain_count_order_counterexample:
  "result_journal (main fixed_engine example_col empty_store)
     = Some [CreateConstraint ''Protein'' ''uniprot_id'', CreateConstraint ''Domain'' ''interpro_id'',
             CreateIndex ''Protein'' ''organism'', ImportBatch 2,
             DeleteRelationships ''SIMILAR'', GraphDropIfExists ''protein_domain_graph'',
             GraphProject ''protein_domain_graph'', NodeSimilarityWrite ''protein_domain_graph'',
             GraphDrop ''protein_domain_graph'', SetDomainCount, SetSharedUnionDomains]
   \<and> \<not> precedes SetDomainCount (NodeSimilarityWrite ''protein_domain_graph'')
         (the (result_journal (main fixed_engine example_col empty_store)))
   \<and> (case until_similarity fixed_engine example_col empty_store of
        Inl e \<Rightarrow> False
      | Inr st \<Rightarrow> map domain_count (protein_nodes st) = [None, None]
                  \<and> similar_rel ''P1'' ''P2'' 0.5 \<in> set (rels st))"
  by code_simp

text \<open>
  C1, amended: on a reachable store the main program runs to its end and sends, in this
  order: the two uniqueness constraints and the index; the import batches; the deletion
  of all \<open>SIMILAR\<close> relationships and of a projection left in memory; the projection; the
  similarity procedure, which computes and writes the edges; the drop of the projection;
  the recomputation of \<open>domain_count\<close>; the reconstruction of \<open>shared_domains\<close> and
  \<open>union_domains\<close>. The recomputation of \<open>domain_count\<close> comes after the similarity
  procedure and before the reconstruction.
\<close>

theorem rebuild_order:
  assumes "reachable st"
  shows "\<exists>st' batches. main gds col st = Inr st'
           \<and> journal st' = journal st @ import_statements @ batches @ build_statements
           \<and> (\<forall>q \<in> set batches. is_import_batch q)
           \<and> build_statements =
               [DeleteRelationships RELATIONSHIP_TYPE, GraphDropIfExists GRAPH_NAME,
                GraphProject GRAPH_NAME, NodeSimilarityWrite GRAPH_NAME, GraphDrop GRAPH_NAME,
                SetDomainCount, SetSharedUnionDomains]
           \<and> precedes (NodeSimilarityWrite GRAPH_NAME) SetDomainCount build_statements
           \<and> precedes SetDomainCount SetSharedUnionDomains build_statements
           \<and> \<not> precedes SetDomainCount (NodeSimilarityWrite GRAPH_NAME) build_statements"
proof -
  from import_ok [OF assms, of col] obtain s1 js where
    s1: "import_proteins_and_domains col st = Inr s1" "reachable s1"
        "journal s1 = journal st @ import_statements @ js" "\<forall>q \<in> set js. is_import_batch q"
    by blast
  from build_ok [OF s1(2), of gds] obtain st' where
    s2: "build_similarity_edges_gds_math gds s1 = Inr st'"
        "journal st' = journal s1 @ build_statements" by blast
  have m: "main gds col st = Inr st'" by (simp add: main_def s1(1) s2(1))
  have p: "precedes (NodeSimilarityWrite GRAPH_NAME) SetDomainCount build_statements"
    "precedes SetDomainCount SetSharedUnionDomains build_statements"
    "\<not> precedes SetDomainCount (NodeSimilarityWrite GRAPH_NAME) build_statements"
    by (simp_all add: precedes_def build_statements_def)
  from m s1(3,4) s2(2) p show ?thesis
    by (intro exI [of _ st'] exI [of _ js]) (simp add: build_statements_def)
qed

theorem rebuild_order_witness:
  "reachable empty_store
   \<and> (\<exists>st' batches. main fixed_engine example_col empty_store = Inr st'
         \<and> journal st' = journal empty_store @ import_statements @ batches @ build_statements
         \<and> (\<forall>q \<in> set batches. is_import_batch q)
         \<and> precedes (NodeSimilarityWrite GRAPH_NAME) SetDomainCount build_statements
         \<and> precedes SetDomainCount SetSharedUnionDomains build_statements)
   \<and> result_journal (main fixed_engine example_col empty_store)
       = Some (import_statements @ [ImportBatch 2] @ build_statements)"
proof -
  have h: "reachable empty_store" by (simp add: empty_store_def)
  have j: "result_journal (main fixed_engine example_col empty_store)
       = Some (import_statements @ [ImportBatch 2] @ build_statements)" by code_simp
  from rebuild_order [OF h, of fixed_engine example_col] h j show ?thesis by blast
qed

section \<open>The configuration of the similarity procedure\<close>

lemma handed_projection_memberships:
  "proj_has_domain (handed_projection st) = memberships st"
proof -
  have "filter (\<lambda>r. rel_type r = ''HAS_DOMAIN'') (filter (\<lambda>r. rel_type r \<noteq> RELATIONSHIP_TYPE) (rels st))
          = filter (\<lambda>r. rel_type r = ''HAS_DOMAIN'') (rels st)"
    unfolding filter_filter by (intro filter_cong) (auto simp: RELATIONSHIP_TYPE_def)
  then show ?thesis by (simp add: handed_projection_def project_def memberships_def)
qed

text \<open>
  C7, as stated, fails: the configuration of the similarity procedure has five settings
  and none of them is a fan-out cap; for a domain carried by four proteins the
  projection handed to the procedure holds all four memberships.
\<close>

theorem fan_out_cap_counterexample:
  "map fst (node_similarity_config MIN_JACCARD_WEIGHT)
     = [''similarityMetric'', ''writeRelationshipType'', ''writeProperty'',
        ''similarityCutoff'', ''concurrency'']
   \<and> proj_has_domain (handed_projection hub_store)
       = [(''P1'', ''IPR1''), (''P2'', ''IPR1''), (''P3'', ''IPR1''), (''P4'', ''IPR1'')]"
  by code_simp

text \<open>
  C7, amended: the similarity computation has one tunable, the threshold. For every
  threshold its configuration consists of the metric, the relationship type, the
  property, the cutoff (the threshold) and the concurrency. The rebuild of a reachable
  store hands every membership of every domain to the similarity procedure, whatever the
  size of the carrier set, and the \<open>SIMILAR\<close> relationships of the store afterwards are
  exactly those the procedure returns: the rebuild neither skips nor samples a domain.
\<close>

theorem similarity_without_fan_out_cap:
  assumes "reachable st"
  shows "map fst (node_similarity_config threshold)
           = [''similarityMetric'', ''writeRelationshipType'', ''writeProperty'',
              ''similarityCutoff'', ''concurrency'']
         \<and> map_of (node_similarity_config threshold) ''similarityCutoff'' = Some (Number threshold)
         \<and> proj_has_domain (handed_projection st) = memberships st
         \<and> (\<exists>st' enrich. build_similarity_edges_gds_math gds st = Inr st'
              \<and> rels st' = map enrich
                   (filter (\<lambda>r. rel_type r \<noteq> RELATIONSHIP_TYPE) (rels st)
                    @ gds (handed_projection st) (node_similarity_config MIN_JACCARD_WEIGHT))
              \<and> (\<forall>r. rel_type (enrich r) = rel_type r \<and> jaccard_weight (enrich r) = jaccard_weight r
                    \<and> source (enrich r) = source r \<and> target (enrich r) = target r))"
proof (intro conjI)
  show "map fst (node_similarity_config threshold)
           = [''similarityMetric'', ''writeRelationshipType'', ''writeProperty'',
              ''similarityCutoff'', ''concurrency'']"
    by (simp add: node_similarity_config_def)
  show "map_of (node_similarity_config threshold) ''similarityCutoff'' = Some (Number threshold)"
    by (simp add: node_similarity_config_def)
  show "proj_has_domain (handed_projection st) = memberships st"
    by (rule handed_projection_memberships)
  from build_ok [OF assms, of gds]
  show "\<exists>st' enrich. build_similarity_edges_gds_math gds st = Inr st'
              \<and> rels st' = map enrich
                   (filter (\<lambda>r. rel_type r \<noteq> RELATIONSHIP_TYPE) (rels st)
                    @ gds (handed_projection st) (node_similarity_config MIN_JACCARD_WEIGHT))
              \<and> (\<forall>r. rel_type (enrich r) = rel_type r \<and> jaccard_weight (enrich r) = jaccard_weight r
                    \<and> source (enrich r) = source r \<and> target (enrich r) = target r)"
    unfolding handed_projection_def by blast
qed

theorem similarity_without_fan_out_cap_witness:
  "reachable hub_store
   \<and> map fst (node_similarity_config 0.1)
       = [''similarityMetric'', ''writeRelationshipType'', ''writeProperty'',
          ''similarityCutoff'', ''concurrency'']
   \<and> map_of (node_similarity_config 0.1) ''similarityCutoff'' = Some (Number 0.1)
   \<and> proj_has_domain (handed_projection hub_store) = memberships hub_store
   \<and> (\<exists>st' enrich. build_similarity_edges_gds_math fixed_engine hub_store = Inr st'
         \<and> rels st' = map enrich
              (filter (\<lambda>r. rel_type r \<noteq> RELATIONSHIP_TYPE) (rels hub_store)
               @ fixed_engine (handed_projection hub_store) (node_similarity_config MIN_JACCARD_WEIGHT)))"
proof -
  have h: "reachable hub_store" by (simp add: hub_store_def)
  from similarity_without_fan_out_cap [OF h, of "0.1" fixed_engine] h show ?thesis by blast
qed

section \<open>The threshold of the similarity edges\<close>

lemma engine_on_config:
  "similarity_engine g (node_similarity_config t) =
     map (candidate_edge ''SIMILAR'' g)
       (filter (\<lambda>k. pair_jaccard g k \<ge> t) (remdups (accumulated_pairs g)))"
  by (simp add: similarity_engine_def node_similarity_config_def RELATIONSHIP_TYPE_def)

lemma pair_key_eq:
  "(pair_key (a, b) = pair_key (c, d)) = ((a = c \<and> b = d) \<or> (a = d \<and> b = c))"
  by (auto simp: pair_key_def)

lemma pair_key_cases: "pair_key (a, b) = (a, b) \<or> pair_key (a, b) = (b, a)"
  by (simp add: pair_key_def)

lemma inverted_index_set: "set (inverted_index g d) = {p. (p, d) \<in> set (proj_has_domain g)}"
  by (force simp: inverted_index_def)

lemma inverted_index_distinct: "distinct (inverted_index g d)"
  by (simp add: inverted_index_def)

lemma domain_ids_set: "set (domain_ids g e) = {d. (e, d) \<in> set (proj_has_domain g)}"
  by (force simp: domain_ids_def)

lemma index_domain_count_card: "index_domain_count g e = card {d. (e, d) \<in> set (proj_has_domain g)}"
proof -
  have "distinct (domain_ids g e)" by (simp add: domain_ids_def)
  then have "length (domain_ids g e) = card (set (domain_ids g e))" by (simp add: distinct_card)
  then show ?thesis by (simp only: index_domain_count_def domain_ids_set)
qed

lemma count_distinct: "distinct xs \<Longrightarrow> count_list xs x = (if x \<in> set xs then 1 else 0)"
  by (induction xs) auto

lemma count_pair_with:
  assumes "u \<noteq> v"
  shows "count_list (map (pair_key \<circ> Pair x) xs) (pair_key (u, v))
           = (if x = u then count_list xs v else if x = v then count_list xs u else 0)"
  using assms by (induction xs) (auto simp: pair_key_eq)

lemma count_unordered_pairs:
  assumes "distinct xs" and "u \<noteq> v"
  shows "count_list (map pair_key (unordered_pairs xs)) (pair_key (u, v))
           = (if u \<in> set xs \<and> v \<in> set xs then 1 else 0)"
  using assms(1)
proof (induction xs)
  case Nil
  then show ?case by simp
next
  case (Cons x xs)
  then have d: "distinct xs" and nx: "x \<notin> set xs" by simp_all
  have c: "count_list xs y = (if y \<in> set xs then 1 else 0)" for y
    by (rule count_distinct [OF d])
  show ?case
    using Cons.IH [OF d] nx assms(2)
    by (auto simp: count_pair_with [OF assms(2)] c)
qed

lemma count_concat:
  "count_list (concat (map f ds)) k = sum_list (map (\<lambda>d. count_list (f d) k) ds)"
  by (induction ds) simp_all

lemma sum_indicator:
  "distinct ds \<Longrightarrow> sum_list (map (\<lambda>d. if P d then 1 else 0) ds) = card {d \<in> set ds. P d}"
proof (induction ds)
  case Nil
  then show ?case by simp
next
  case (Cons d ds)
  then have ih: "sum_list (map (\<lambda>d. if P d then 1 else 0) ds) = card {d \<in> set ds. P d}"
    and nd: "d \<notin> set ds" by simp_all
  show ?case
  proof (cases "P d")
    case True
    then have "{x \<in> set (d # ds). P x} = insert d {x \<in> set ds. P x}" by auto
    moreover have "d \<notin> {x \<in> set ds. P x}" using nd by simp
    ultimately show ?thesis using ih True by simp
  next
    case False
    then have "{x \<in> set (d # ds). P x} = {x \<in> set ds. P x}" by auto
    with ih False show ?thesis by simp
  qed
qed

text \<open>The accumulator of a pair of distinct entities counts the domains they share.\<close>

lemma shared_count_card:
  assumes "u \<noteq> v"
  shows "shared_count g (pair_key (u, v))
           = card ({d. (u, d) \<in> set (proj_has_domain g)} \<inter> {d. (v, d) \<in> set (proj_has_domain g)})"
proof -
  let ?M = "set (proj_has_domain g)"
  have "shared_count g (pair_key (u, v))
          = sum_list (map (\<lambda>d. count_list (map pair_key (unordered_pairs (inverted_index g d)))
                                 (pair_key (u, v))) (indexed_domains g))"
    by (simp add: shared_count_def accumulated_pairs_def count_concat)
  also have "\<dots> = sum_list (map (\<lambda>d. if (u, d) \<in> ?M \<and> (v, d) \<in> ?M then 1 else 0) (indexed_domains g))"
    by (simp add: count_unordered_pairs [OF inverted_index_distinct assms] inverted_index_set)
  also have "\<dots> = card {d \<in> set (indexed_domains g). (u, d) \<in> ?M \<and> (v, d) \<in> ?M}"
    by (rule sum_indicator) (simp add: indexed_domains_def)
  also have "{d \<in> set (indexed_domains g). (u, d) \<in> ?M \<and> (v, d) \<in> ?M}
               = {d. (u, d) \<in> ?M} \<inter> {d. (v, d) \<in> ?M}"
    by (force simp: indexed_domains_def)
  finally show ?thesis .
qed

lemma accumulated_pair_form:
  assumes "k \<in> set (accumulated_pairs g)"
  shows "\<exists>u v. u \<noteq> v \<and> k = pair_key (u, v)"
proof -
  have up: "(a, b) \<in> set (unordered_pairs xs) \<Longrightarrow> distinct xs \<Longrightarrow> a \<noteq> b" for a b :: string and xs
    by (induction xs) auto
  from assms obtain d a b where "(a, b) \<in> set (unordered_pairs (inverted_index g d))"
    "k = pair_key (a, b)"
    by (auto simp: accumulated_pairs_def)
  with up [OF _ inverted_index_distinct] show ?thesis by blast
qed

lemma domain_set_memberships: "domain_set st e = {d. (e, d) \<in> set (memberships st)}"
  by (force simp: domain_set_def)

lemma finite_domain_set [simp]: "finite (domain_set st e)"
  by (simp add: domain_set_def)

lemma jaccard_coefficient_sym: "jaccard_coefficient st u v = jaccard_coefficient st v u"
  by (simp add: jaccard_coefficient_def Int_commute Un_commute)

lemma pair_jaccard_coefficient:
  assumes "u \<noteq> v" and g: "proj_has_domain g = memberships st"
  shows "pair_jaccard g (pair_key (u, v)) = jaccard_coefficient st u v"
proof -
  let ?A = "domain_set st u" and ?B = "domain_set st v"
  have s: "shared_count g (pair_key (u, v)) = card (?A \<inter> ?B)"
    by (simp only: shared_count_card [OF assms(1)] g domain_set_memberships)
  have c: "index_domain_count g u = card ?A" "index_domain_count g v = card ?B"
    by (simp_all only: index_domain_count_card g domain_set_memberships)
  have "card ?A + card ?B = card (?A \<union> ?B) + card (?A \<inter> ?B)"
    by (rule card_Un_Int) simp_all
  then have u: "card ?A + card ?B - card (?A \<inter> ?B) = card (?A \<union> ?B)" by simp
  have sum: "index_domain_count g (fst (pair_key (u, v))) + index_domain_count g (snd (pair_key (u, v)))
           = card ?A + card ?B"
    using pair_key_cases [of u v] c by auto
  show ?thesis
    by (simp only: pair_jaccard_def s sum u jaccard_coefficient_def)
qed

lemma engine_edge:
  assumes "r \<in> set (similarity_engine g (node_similarity_config t))"
  shows "\<exists>u v. u \<noteq> v \<and> t \<le> pair_jaccard g (pair_key (u, v))
           \<and> r = candidate_edge ''SIMILAR'' g (pair_key (u, v))"
proof -
  from assms obtain k where k: "k \<in> set (accumulated_pairs g)" "t \<le> pair_jaccard g k"
    "r = candidate_edge ''SIMILAR'' g k"
    unfolding engine_on_config by auto
  from accumulated_pair_form [OF k(1)] obtain u v where "u \<noteq> v" "k = pair_key (u, v)" by blast
  with k show ?thesis by blast
qed

lemma engine_emits:
  assumes "k \<in> set (accumulated_pairs g)" and "t \<le> pair_jaccard g k"
  shows "candidate_edge ''SIMILAR'' g k \<in> set (similarity_engine g (node_similarity_config t))"
  unfolding engine_on_config using assms by simp

lemma jaccard_positive_shares:
  assumes "0 < jaccard_coefficient st u v"
  shows "0 < card (domain_set st u \<inter> domain_set st v)"
proof (rule ccontr)
  assume "\<not> 0 < card (domain_set st u \<inter> domain_set st v)"
  then have "card (domain_set st u \<inter> domain_set st v) = 0" by simp
  then have "jaccard_coefficient st u v = 0" by (simp add: jaccard_coefficient_def)
  with assms show False by simp
qed

lemma candidate_edge_fields:
  "rel_type (candidate_edge ty g k) = ty"
  "jaccard_weight (candidate_edge ty g k) = Some (pair_jaccard g k)"
  "source (candidate_edge ty g k) = fst k"
  "target (candidate_edge ty g k) = snd k"
  by (simp_all add: candidate_edge_def)

lemma candidate_edge_pair:
  assumes "u \<noteq> v" and g: "proj_has_domain g = memberships st"
  defines "r \<equiv> candidate_edge ''SIMILAR'' g (pair_key (u, v))"
  shows "rel_type r = ''SIMILAR''"
    and "jaccard_weight r = Some (jaccard_coefficient st u v)"
    and "endpoints r = {u, v}"
    and "jaccard_coefficient st (source r) (target r) = jaccard_coefficient st u v"
proof -
  show "rel_type r = ''SIMILAR''" by (simp add: r_def candidate_edge_fields)
  show "jaccard_weight r = Some (jaccard_coefficient st u v)"
    by (simp add: r_def candidate_edge_fields pair_jaccard_coefficient [OF assms(1) g])
  from pair_key_cases [of u v]
  show "endpoints r = {u, v}"
    by (auto simp: r_def endpoints_def candidate_edge_fields)
  from pair_key_cases [of u v]
  show "jaccard_coefficient st (source r) (target r) = jaccard_coefficient st u v"
    by (auto simp: r_def candidate_edge_fields jaccard_coefficient_sym [of st v u])
qed

text \<open>
  C2: after a rebuild of a reachable store with the similarity engine, every \<open>SIMILAR\<close>
  relationship of the store carries a weight that is at least the threshold
  \<open>MIN_JACCARD_WEIGHT\<close> = 0.1 (the weight is the Jaccard coefficient of its two ends), so
  no relationship below the threshold exists, whatever the store held before; and the
  boundary is inclusive: every pair of distinct entities whose Jaccard coefficient is at
  least the threshold, in particular equal to it, has a \<open>SIMILAR\<close> relationship between
  its two entities, whose weight is that coefficient.
\<close>

theorem threshold_inclusive:
  assumes "reachable st"
  shows "\<exists>st'. build_similarity_edges_gds_math similarity_engine st = Inr st'
           \<and> MIN_JACCARD_WEIGHT = 1 / 10
           \<and> (\<forall>r \<in> set (rels st'). rel_type r = ''SIMILAR'' \<longrightarrow>
                 (\<exists>j. jaccard_weight r = Some j \<and> MIN_JACCARD_WEIGHT \<le> j
                      \<and> j = jaccard_coefficient st (source r) (target r)))
           \<and> (\<forall>u v. u \<noteq> v \<and> MIN_JACCARD_WEIGHT \<le> jaccard_coefficient st u v \<longrightarrow>
                 (\<exists>r \<in> set (rels st'). rel_type r = ''SIMILAR'' \<and> endpoints r = {u, v}
                      \<and> jaccard_weight r = Some (jaccard_coefficient st u v)))"
proof -
  let ?g = "handed_projection st"
  let ?kept = "filter (\<lambda>r. rel_type r \<noteq> RELATIONSHIP_TYPE) (rels st)"
  let ?eng = "similarity_engine ?g (node_similarity_config MIN_JACCARD_WEIGHT)"
  have g: "proj_has_domain ?g = memberships st" by (rule handed_projection_memberships)
  from build_ok [OF assms, of similarity_engine] obtain st' enrich where
    run: "build_similarity_edges_gds_math similarity_engine st = Inr st'"
    and rels: "rels st' = map enrich (?kept @ ?eng)"
    and keep: "\<And>r. rel_type (enrich r) = rel_type r" "\<And>r. jaccard_weight (enrich r) = jaccard_weight r"
      "\<And>r. source (enrich r) = source r" "\<And>r. target (enrich r) = target r"
    unfolding handed_projection_def by blast
  have below: "\<exists>j. jaccard_weight r = Some j \<and> MIN_JACCARD_WEIGHT \<le> j
                  \<and> j = jaccard_coefficient st (source r) (target r)"
    if r: "r \<in> set (rels st')" and ty: "rel_type r = ''SIMILAR''" for r
  proof -
    from r rels obtain r0 where r0: "r0 \<in> set ?kept \<union> set ?eng" "r = enrich r0" by auto
    from ty r0(2) keep(1) have "rel_type r0 = RELATIONSHIP_TYPE" by (simp add: RELATIONSHIP_TYPE_def)
    then have "r0 \<notin> set ?kept" by simp
    with r0(1) have "r0 \<in> set ?eng" by blast
    from engine_edge [OF this] obtain u v where uv: "u \<noteq> v"
      "MIN_JACCARD_WEIGHT \<le> pair_jaccard ?g (pair_key (u, v))"
      "r0 = candidate_edge ''SIMILAR'' ?g (pair_key (u, v))" by blast
    note f = candidate_edge_pair [OF uv(1) g]
    have w: "jaccard_weight r = Some (jaccard_coefficient st u v)"
      using f(2) uv(3) r0(2) keep(2) by simp
    have b: "MIN_JACCARD_WEIGHT \<le> jaccard_coefficient st u v"
      using uv(2) pair_jaccard_coefficient [OF uv(1) g] by simp
    have e: "jaccard_coefficient st (source r) (target r) = jaccard_coefficient st u v"
      using f(4) uv(3) r0(2) keep(3,4) by simp
    from w b e show ?thesis by simp
  qed
  have above: "\<exists>r \<in> set (rels st'). rel_type r = ''SIMILAR'' \<and> endpoints r = {u, v}
                  \<and> jaccard_weight r = Some (jaccard_coefficient st u v)"
    if uv: "u \<noteq> v" and j: "MIN_JACCARD_WEIGHT \<le> jaccard_coefficient st u v" for u v
  proof -
    let ?k = "pair_key (u, v)"
    let ?r0 = "candidate_edge ''SIMILAR'' ?g ?k"
    from j have "0 < jaccard_coefficient st u v" by (simp add: MIN_JACCARD_WEIGHT_def)
    from jaccard_positive_shares [OF this]
    have "0 < shared_count ?g ?k"
      by (simp only: shared_count_card [OF uv] g domain_set_memberships)
    then have "count_list (accumulated_pairs ?g) ?k \<noteq> 0" by (simp add: shared_count_def)
    then have mem: "?k \<in> set (accumulated_pairs ?g)" by (simp only: count_list_0_iff) simp
    have "MIN_JACCARD_WEIGHT \<le> pair_jaccard ?g ?k"
      using j pair_jaccard_coefficient [OF uv g] by simp
    from engine_emits [OF mem this] have "?r0 \<in> set ?eng" .
    then have in': "enrich ?r0 \<in> set (rels st')" unfolding rels by simp
    note f = candidate_edge_pair [OF uv g]
    have "rel_type (enrich ?r0) = ''SIMILAR''" using f(1) keep(1) by simp
    moreover have "endpoints (enrich ?r0) = {u, v}"
      using f(3) keep(3,4) by (simp add: endpoints_def)
    moreover have "jaccard_weight (enrich ?r0) = Some (jaccard_coefficient st u v)"
      using f(2) keep(2) by simp
    ultimately show ?thesis using in' by blast
  qed
  have "MIN_JACCARD_WEIGHT = 1 / 10" by (simp add: MIN_JACCARD_WEIGHT_def)
  with run below above show ?thesis by blast
qed

theorem threshold_inclusive_witness:
  "reachable threshold_store
   \<and> jaccard_coefficient threshold_store ''P1'' ''P2'' = MIN_JACCARD_WEIGHT
   \<and> (\<exists>st'. build_similarity_edges_gds_math similarity_engine threshold_store = Inr st'
        \<and> (\<exists>r \<in> set (rels st'). rel_type r = ''SIMILAR'' \<and> endpoints r = {''P1'', ''P2''}
              \<and> jaccard_weight r = Some MIN_JACCARD_WEIGHT))"
proof -
  have h: "reachable threshold_store" by (simp add: threshold_store_def)
  have j: "jaccard_coefficient threshold_store ''P1'' ''P2'' = MIN_JACCARD_WEIGHT" by code_simp
  have d: "''P1'' \<noteq> ''P2''" by simp
  from threshold_inclusive [OF h] obtain st' where
    run: "build_similarity_edges_gds_math similarity_engine threshold_store = Inr st'"
    and above: "\<forall>u v. u \<noteq> v \<and> MIN_JACCARD_WEIGHT \<le> jaccard_coefficient threshold_store u v \<longrightarrow>
                 (\<exists>r \<in> set (rels st'). rel_type r = ''SIMILAR'' \<and> endpoints r = {u, v}
                      \<and> jaccard_weight r = Some (jaccard_coefficient threshold_store u v))"
    by blast
  from above [rule_format, of "''P1''" "''P2''"] d j
  have "\<exists>r \<in> set (rels st'). rel_type r = ''SIMILAR'' \<and> endpoints r = {''P1'', ''P2''}
              \<and> jaccard_weight r = Some MIN_JACCARD_WEIGHT" by simp
  with h j run show ?thesis by blast
qed

text \<open>
  On a store where one pair sits exactly on the threshold (coefficient 1/10), one pair
  lies below it (1/11) and an old relationship of weight 0.01 is present, the rebuild
  leaves two \<open>SIMILAR\<close> relationships: the boundary pair with weight 1/10 and a pair of
  weight 1/2; the old relationship is gone and the pair below the threshold has none.
\<close>

lemma threshold_store_rebuilt:
  "map (\<lambda>r. (source r, target r, jaccard_weight r))
       (similar_rels (build_similarity_edges_gds_math similarity_engine threshold_store))
     = [(''P1'', ''P2'', Some (1 / 10)), (''P1'', ''P3'', Some (1 / 2))]
   \<and> jaccard_coefficient threshold_store ''P2'' ''P3'' = 1 / 11"
  by code_simp

section \<open>The reconstruction of the counts on the relationships\<close>

lemma domain_count_of_journal [simp]:
  "domain_count_of (st\<lparr> journal := j \<rparr>) k = domain_count_of st k"
  by (simp add: domain_count_of_def)

lemma set_shared_union_journal [simp]:
  "set_shared_union (st\<lparr> journal := j \<rparr>) r = set_shared_union st r"
  by (simp add: set_shared_union_def)

lemma domain_count_of_known:
  assumes "domain_count_of st k = Some A"
  shows "k \<in> uniprot_id ` set (protein_nodes st)"
proof (cases "find (\<lambda>p. uniprot_id p = k) (protein_nodes st)")
  case None
  with assms show ?thesis by (simp add: domain_count_of_def)
next
  case (Some p)
  then have "p \<in> set (protein_nodes st)" "uniprot_id p = k"
    by (auto simp: find_Some_iff)
  then show ?thesis by auto
qed

text \<open>What the enricher writes on a \<open>SIMILAR\<close> relationship whose ends have their domain
  counts and that has a weight.\<close>

lemma set_shared_union_writes:
  assumes "rel_type r = ''SIMILAR''"
      and "domain_count_of st (source r) = Some A" and "domain_count_of st (target r) = Some B"
      and "jaccard_weight r = Some J"
  shows "set_shared_union st r
           = r\<lparr> shared_domains := Some (intersect_math J A B),
                union_domains := Some (union_math J A B) \<rparr>"
  using assms domain_count_of_known [OF assms(2)] domain_count_of_known [OF assms(3)]
  by (simp add: set_shared_union_def RELATIONSHIP_TYPE_def)

text \<open>
  C3: the round trip of the enricher. Let a \<open>SIMILAR\<close> relationship of a reachable store
  join two proteins with domain counts \<open>A\<close> and \<open>B\<close> of at least one, and let its weight be
  the exact quotient \<open>J = s / (A + B - s)\<close> for a shared count \<open>s\<close> between one and the
  smaller of the two counts. Then the formula gives \<open>s\<close> as the intersection and
  \<open>A + B - s\<close> as the union, and the enricher writes exactly these two numbers on the
  relationship, as \<open>shared_domains\<close> and \<open>union_domains\<close>, and changes nothing else of it.
  For \<open>A = 10\<close>, \<open>B = 8\<close>, \<open>s = 4\<close> the weight is \<open>4/14\<close> and the relationship gets \<open>4\<close> and
  \<open>14\<close>.
\<close>

theorem reconstruction_round_trip:
  assumes "1 \<le> A" and "1 \<le> B" and "1 \<le> s" and "s \<le> min A B"
      and "J = of_int s / of_int (A + B - s)"
      and "reachable st" and "i < length (rels st)"
      and "rel_type (rels st ! i) = ''SIMILAR''"
      and "domain_count_of st (source (rels st ! i)) = Some A"
      and "domain_count_of st (target (rels st ! i)) = Some B"
      and "jaccard_weight (rels st ! i) = Some J"
  shows "intersect_math J A B = s \<and> union_math J A B = A + B - s
         \<and> set_shared_union st (rels st ! i)
             = (rels st ! i)\<lparr> shared_domains := Some s, union_domains := Some (A + B - s) \<rparr>
         \<and> (\<exists>st'. calculate_shared_union_domains_math st = Inr st'
               \<and> length (rels st') = length (rels st)
               \<and> rels st' ! i
                   = (rels st ! i)\<lparr> shared_domains := Some s, union_domains := Some (A + B - s) \<rparr>)"
proof -
  note f = intersect_math_exact [OF assms(1-5)]
  have w: "set_shared_union st (rels st ! i)
             = (rels st ! i)\<lparr> shared_domains := Some s, union_domains := Some (A + B - s) \<rparr>"
    using set_shared_union_writes [OF assms(8-11)] f by simp
  from calculate_shared_union_domains_math_ok [OF assms(6)] obtain st' where
    run: "calculate_shared_union_domains_math st = Inr st'"
    and rs: "rels st' = map (set_shared_union (st\<lparr>journal := journal st @ [SetSharedUnionDomains]\<rparr>)) (rels st)"
    by blast
  from rs have rs': "rels st' = map (set_shared_union st) (rels st)" by simp
  have len: "length (rels st') = length (rels st)" by (simp add: rs')
  have "rels st' ! i = set_shared_union st (rels st ! i)"
    using assms(7) by (simp add: rs')
  with w have "rels st' ! i
       = (rels st ! i)\<lparr> shared_domains := Some s, union_domains := Some (A + B - s) \<rparr>" by simp
  with f w run len show ?thesis by blast
qed

theorem reconstruction_round_trip_witness:
  "(1::int) \<le> 10 \<and> (1::int) \<le> 8 \<and> (1::int) \<le> 4 \<and> (4::int) \<le> min 10 8
   \<and> (4 / 14 :: real) = of_int 4 / of_int (10 + 8 - 4)
   \<and> reachable enricher_store \<and> (0::nat) < length (rels enricher_store)
   \<and> rels enricher_store ! 0 = similar_rel ''P1'' ''P2'' (4 / 14)
   \<and> domain_count_of enricher_store ''P1'' = Some 10
   \<and> domain_count_of enricher_store ''P2'' = Some 8
   \<and> intersect_math (4 / 14) 10 8 = 4 \<and> union_math (4 / 14) 10 8 = 14
   \<and> (\<exists>st'. calculate_shared_union_domains_math enricher_store = Inr st'
         \<and> rels st' = [(similar_rel ''P1'' ''P2'' (4 / 14))
                         \<lparr> shared_domains := Some 4, union_domains := Some 14 \<rparr>])"
proof -
  have h0: "rels enricher_store ! 0 = similar_rel ''P1'' ''P2'' (4 / 14)"
    by (simp add: enricher_store_def)
  have h1: "reachable enricher_store" "(0::nat) < length (rels enricher_store)"
    by (simp_all add: enricher_store_def)
  have h2: "rel_type (rels enricher_store ! 0) = ''SIMILAR''"
    "jaccard_weight (rels enricher_store ! 0) = Some (4 / 14)"
    by (simp_all add: h0 similar_rel_def)
  have h3: "domain_count_of enricher_store ''P1'' = Some 10"
    "domain_count_of enricher_store ''P2'' = Some 8"
    by (simp_all add: enricher_store_def domain_count_of_def new_protein_def)
  have h4: "source (rels enricher_store ! 0) = ''P1''" "target (rels enricher_store ! 0) = ''P2''"
    by (simp_all add: h0 similar_rel_def)
  have a: "(1::int) \<le> 10" "(1::int) \<le> 8" "(1::int) \<le> 4" "(4::int) \<le> min 10 8"
    "(4 / 14 :: real) = of_int 4 / of_int (10 + 8 - 4)" by simp_all
  from reconstruction_round_trip [OF a h1 h2(1) _ _ h2(2)] h3 h4
  have t: "intersect_math (4 / 14) 10 8 = 4 \<and> union_math (4 / 14) 10 8 = 10 + 8 - 4
         \<and> (\<exists>st'. calculate_shared_union_domains_math enricher_store = Inr st'
               \<and> length (rels st') = length (rels enricher_store)
               \<and> rels st' ! 0
                   = (rels enricher_store ! 0)\<lparr> shared_domains := Some 4, union_domains := Some (10 + 8 - 4) \<rparr>)"
    by simp
  then obtain st' where s: "calculate_shared_union_domains_math enricher_store = Inr st'"
    "length (rels st') = length (rels enricher_store)"
    "rels st' ! 0 = (rels enricher_store ! 0)\<lparr> shared_domains := Some 4, union_domains := Some (10 + 8 - 4) \<rparr>"
    by blast
  from s(2) have "length (rels st') = 1" by (simp add: enricher_store_def)
  then obtain x where x: "rels st' = [x]" by (cases "rels st'") auto
  with s(3) h0 have "rels st' = [(similar_rel ''P1'' ''P2'' (4 / 14))
                         \<lparr> shared_domains := Some 4, union_domains := Some 14 \<rparr>]" by simp
  with s(1) have e: "\<exists>st'. calculate_shared_union_domains_math enricher_store = Inr st'
         \<and> rels st' = [(similar_rel ''P1'' ''P2'' (4 / 14))
                         \<lparr> shared_domains := Some 4, union_domains := Some 14 \<rparr>]" by blast
  from t have m: "intersect_math (4 / 14) 10 8 = 4" "union_math (4 / 14) 10 8 = 14" by simp_all
  from a h1 h0 h3 m e show ?thesis by (intro conjI)
qed

section \<open>Identifiers with hyphens: edges lost to the duplicate check\<close>

text \<open>
  C4: in every depth-2 export, a second-tier node reachable through more than one
  first-tier node should have exactly one inbound \<open>SIMILAR\<close> edge, built from a link of
  maximal weight. The export breaks this when identifiers hold hyphens. In
  \<open>hyphen_store\<close> the centre is \<open>a-b\<close>, the first tier is \<open>a-b-a\<close> and \<open>c\<close>, and the second-tier node
  \<open>b-a\<close> has two retrieved links, of weight 0.6 from \<open>a-b-a\<close> and 0.4 from \<open>c\<close>. The
  reduction keeps the link from \<open>a-b-a\<close>; but its key, the sorted pair joined by a hyphen,
  is \<open>a-b-a-b-a\<close>, which is also the key of the relationship between the centre and
  \<open>a-b-a\<close>, already emitted. The link is taken for a duplicate and skipped: the node
  \<open>b-a\<close> is in the output (as a second-tier node) and no \<open>SIMILAR\<close> edge of the output
  touches it.
\<close>

theorem tier2_best_edge_lost:
  "get_protein_neighborhood hyphen_store ''a-b'' 2 = Some hyphen_data
   \<and> tier1_of ''a-b'' (relationships hyphen_data) = {''a-b-a'', ''c''}
   \<and> tier2_links (tier1_of ''a-b'' (relationships hyphen_data)) ''b-a'' (relationships hyphen_data)
       = [similar_rel ''a-b-a'' ''b-a'' 0.6, similar_rel ''c'' ''b-a'' 0.4]
   \<and> final_edges_of ''a-b'' {''a-b-a'', ''c''} (relationships hyphen_data)
       = [similar_rel ''a-b'' ''a-b-a'' 0.5, similar_rel ''a-b'' ''c'' 0.5,
          similar_rel ''a-b-a'' ''b-a'' 0.6]
   \<and> edge_key (similar_rel ''a-b'' ''a-b-a'' 0.5) = ''a-b-a-b-a''
   \<and> edge_key (similar_rel ''a-b-a'' ''b-a'' 0.6) = ''a-b-a-b-a''
   \<and> map (\<lambda>n. (node_id n, node_type n))
        (nodes_of (export_neighborhood_for_visualization hyphen_store ''a-b'' 2))
       = [(''a-b'', ''center''), (''a-b-a'', ''neighbor_d1''), (''c'', ''neighbor_d1''),
          (''b-a'', ''neighbor_d2'')]
   \<and> similar_edges (export_neighborhood_for_visualization hyphen_store ''a-b'' 2)
       = [\<lparr> edge_id = ''e_0'', edge_source = ''a-b'', edge_target = ''a-b-a'',
            edge_type = ''SIMILAR'', edge_weight = Some 0.5 \<rparr>,
          \<lparr> edge_id = ''e_1'', edge_source = ''a-b'', edge_target = ''c'',
            edge_type = ''SIMILAR'', edge_weight = Some 0.5 \<rparr>]
   \<and> filter (\<lambda>e. edge_source e = ''b-a'' \<or> edge_target e = ''b-a'')
        (similar_edges (export_neighborhood_for_visualization hyphen_store ''a-b'' 2)) = []"
proof -
  have h1: "get_protein_neighborhood hyphen_store ''a-b'' 2 = Some hyphen_data"
    unfolding hyphen_data_def by code_simp
  have h2: "tier1_of ''a-b'' (relationships hyphen_data) = {''a-b-a'', ''c''}" by code_simp
  have h3: "tier2_links (tier1_of ''a-b'' (relationships hyphen_data)) ''b-a'' (relationships hyphen_data)
       = [similar_rel ''a-b-a'' ''b-a'' 0.6, similar_rel ''c'' ''b-a'' 0.4]" by code_simp
  have h4: "final_edges_of ''a-b'' {''a-b-a'', ''c''} (relationships hyphen_data)
       = [similar_rel ''a-b'' ''a-b-a'' 0.5, similar_rel ''a-b'' ''c'' 0.5,
          similar_rel ''a-b-a'' ''b-a'' 0.6]" by code_simp
  have h5: "edge_key (similar_rel ''a-b'' ''a-b-a'' 0.5) = ''a-b-a-b-a''"
    "edge_key (similar_rel ''a-b-a'' ''b-a'' 0.6) = ''a-b-a-b-a''" by code_simp+
  have h6: "map (\<lambda>n. (node_id n, node_type n))
        (nodes_of (export_neighborhood_for_visualization hyphen_store ''a-b'' 2))
       = [(''a-b'', ''center''), (''a-b-a'', ''neighbor_d1''), (''c'', ''neighbor_d1''),
          (''b-a'', ''neighbor_d2'')]" by code_simp
  have h7: "similar_edges (export_neighborhood_for_visualization hyphen_store ''a-b'' 2)
       = [\<lparr> edge_id = ''e_0'', edge_source = ''a-b'', edge_target = ''a-b-a'',
            edge_type = ''SIMILAR'', edge_weight = Some 0.5 \<rparr>,
          \<lparr> edge_id = ''e_1'', edge_source = ''a-b'', edge_target = ''c'',
            edge_type = ''SIMILAR'', edge_weight = Some 0.5 \<rparr>]" by code_simp
  have h8: "filter (\<lambda>e. edge_source e = ''b-a'' \<or> edge_target e = ''b-a'')
        (similar_edges (export_neighborhood_for_visualization hyphen_store ''a-b'' 2)) = []"
    by (simp add: h7)
  from h1 h2 h3 h4 h5 h6 h7 h8 show ?thesis by (intro conjI)
qed

text \<open>
  C6: no \<open>SIMILAR\<close> edge of an export should join two first-tier neighbours, and a depth-1
  export for a centre with exactly two \<open>SIMILAR\<close> neighbours should return exactly two
  first-tier nodes and two edges from the centre. The first part holds for every export
  (\<open>no_lateral_edges\<close>). The second part is broken by the export when identifiers hold
  hyphens: the centre \<open>a-b-a\<close> of \<open>hyphen_depth1_store\<close> has exactly the two neighbours
  \<open>a-b\<close> and \<open>b-a\<close>, both relationships are retrieved and kept, and both have the key \<open>a-b-a-b-a\<close>
  (the sorted pair joined by a hyphen); the second is taken for a duplicate of the first
  and skipped. The output has the two first-tier nodes and a single \<open>SIMILAR\<close> edge.
\<close>

theorem depth1_edge_lost:
  "get_protein_neighborhood hyphen_depth1_store ''a-b-a'' 1 = Some hyphen_depth1_data
   \<and> tier1_of ''a-b-a'' (relationships hyphen_depth1_data) = {''a-b'', ''b-a''}
   \<and> final_edges_of ''a-b-a'' {''a-b'', ''b-a''} (relationships hyphen_depth1_data)
       = [similar_rel ''a-b-a'' ''a-b'' 0.5, similar_rel ''a-b-a'' ''b-a'' 0.25]
   \<and> edge_key (similar_rel ''a-b-a'' ''a-b'' 0.5) = ''a-b-a-b-a''
   \<and> edge_key (similar_rel ''a-b-a'' ''b-a'' 0.25) = ''a-b-a-b-a''
   \<and> map node_id (tier1_nodes (export_neighborhood_for_visualization hyphen_depth1_store ''a-b-a'' 1))
       = [''a-b'', ''b-a'']
   \<and> similar_edges (export_neighborhood_for_visualization hyphen_depth1_store ''a-b-a'' 1)
       = [\<lparr> edge_id = ''e_0'', edge_source = ''a-b-a'', edge_target = ''a-b'',
            edge_type = ''SIMILAR'', edge_weight = Some 0.5 \<rparr>]
   \<and> length (similar_edges (export_neighborhood_for_visualization hyphen_depth1_store ''a-b-a'' 1)) = 1"
proof -
  have h1: "get_protein_neighborhood hyphen_depth1_store ''a-b-a'' 1 = Some hyphen_depth1_data"
    unfolding hyphen_depth1_data_def by code_simp
  have h2: "tier1_of ''a-b-a'' (relationships hyphen_depth1_data) = {''a-b'', ''b-a''}"
    by code_simp
  have h3: "final_edges_of ''a-b-a'' {''a-b'', ''b-a''} (relationships hyphen_depth1_data)
       = [similar_rel ''a-b-a'' ''a-b'' 0.5, similar_rel ''a-b-a'' ''b-a'' 0.25]" by code_simp
  have h4: "edge_key (similar_rel ''a-b-a'' ''a-b'' 0.5) = ''a-b-a-b-a''"
    "edge_key (similar_rel ''a-b-a'' ''b-a'' 0.25) = ''a-b-a-b-a''" by code_simp+
  have h5: "map node_id (tier1_nodes (export_neighborhood_for_visualization hyphen_depth1_store ''a-b-a'' 1))
       = [''a-b'', ''b-a'']" by code_simp
  have h6: "similar_edges (export_neighborhood_for_visualization hyphen_depth1_store ''a-b-a'' 1)
       = [\<lparr> edge_id = ''e_0'', edge_source = ''a-b-a'', edge_target = ''a-b'',
            edge_type = ''SIMILAR'', edge_weight = Some 0.5 \<rparr>]" by code_simp
  have h7: "length (similar_edges (export_neighborhood_for_visualization hyphen_depth1_store ''a-b-a'' 1)) = 1"
    by (simp add: h6)
  from h1 h2 h3 h4 h5 h6 h7 show ?thesis by (intro conjI)
qed

end
